(* ===== verification/Prelude.thy ===== *)
theory Prelude
  imports Main "HOL-Library.Word"
begin

text \<open>
  Shared ground of the development: the byte and word types of the Go sources,
  the big-endian and little-endian field readers and writers of
  \<^verbatim>\<open>encoding/binary\<close>, the sentinel errors of \<^verbatim>\<open>uefiboard/ministack\<close>, the few
  \<^verbatim>\<open>net.IP\<close> operations the stack uses, and the two generic interfaces that
  several components implement: a wire codec (an encoder with a decoder that
  undoes it) and a buffer that keeps the most recent elements.
\<close>

unbundle bit_operations_syntax

section \<open>Types\<close>

type_synonym byte = "8 word"
type_synonym bytes = "8 word list"
type_synonym u8 = "8 word"
type_synonym u16 = "16 word"
type_synonym u32 = "32 word"
type_synonym u64 = "64 word"

text \<open>
  The sentinel errors of package \<^verbatim>\<open>ministack\<close>; \<open>ErrLink\<close> stands for whatever error
  value a link implementation returns from \<^verbatim>\<open>SendFrame\<close>, and \<open>ErrNoLocalIPv4\<close> for the
  anonymous error of \<^verbatim>\<open>PingOnce\<close>.
\<close>

datatype (plugins only: code size) net_error =
    ErrFrameTooShort | ErrFrameTooLong | ErrInvalidMAC
  | ErrARPTimeout | ErrARPInvalidPacket
  | ErrIPv4HeaderTooShort | ErrIPv4NotV4 | ErrIPv4BadChecksum
  | ErrIPv4PacketTooLong | ErrIPv4InvalidIP | ErrNoRoute
  | ErrICMPTooShort | ErrICMPBadChecksum
  | ErrUDP4HeaderTooShort | ErrUDP4BadLength | ErrUDP4BadChecksum
  | ErrUDP4PayloadTooLong | ErrUDP4PortInUse | ErrUDP4ConnClosed
  | ErrUDP4ReadTimeout | ErrUDP4InvalidAddr
  | ErrTCP4HeaderTooShort | ErrTCP4BadChecksum | ErrTCP4PortInUse
  | ErrTCP4ConnClosed | ErrTCP4Timeout | ErrTCP4ConnRefused
  | ErrTCP4InvalidAddr | ErrTCP4NotConnected | ErrTCP4NoLocalAddr
  | ErrTCP4PeerClosed
  | ErrStackClosed | ErrPingTimeout | ErrNoLocalIPv4
  | ErrDHCP4Timeout | ErrDHCP4MissingOption | ErrDHCP4UnexpectedMsg
  | ErrDHCP4Nak | ErrDHCP4BadFormat
  | ErrDNSTimeout | ErrDNSBadFormat | ErrDNSEmptyAnswer | ErrDNSRcode
  | ErrDNSNameTooLong | ErrDNSLabelTooLong | ErrDNSCompressLoop
  | ErrDNSInvalidServer
  | ErrLink nat

type_synonym 'a result = "net_error + 'a"

named_theorems wire_simps "equations that lay out and read back wire fields"

section \<open>Byte order\<close>

definition be16 :: "byte \<Rightarrow> byte \<Rightarrow> u16" where
  "be16 a b = push_bit 8 (ucast a) OR ucast b"

definition put16 :: "u16 \<Rightarrow> bytes" where
  "put16 w = [ucast (drop_bit 8 w), ucast w]"

definition be32 :: "byte \<Rightarrow> byte \<Rightarrow> byte \<Rightarrow> byte \<Rightarrow> u32" where
  "be32 a b c d = push_bit 24 (ucast a) OR push_bit 16 (ucast b) OR push_bit 8 (ucast c) OR ucast d"

definition put32 :: "u32 \<Rightarrow> bytes" where
  "put32 w = [ucast (drop_bit 24 w), ucast (drop_bit 16 w), ucast (drop_bit 8 w), ucast w]"

text \<open>Reading a field at an offset; every use in the model is guarded by a length check.\<close>

definition u16_at :: "bytes \<Rightarrow> nat \<Rightarrow> u16" where
  "u16_at bs i = be16 (bs ! i) (bs ! (i + 1))"

definition u32_at :: "bytes \<Rightarrow> nat \<Rightarrow> u32" where
  "u32_at bs i = be32 (bs ! i) (bs ! (i + 1)) (bs ! (i + 2)) (bs ! (i + 3))"

text \<open>\<^verbatim>\<open>binary.BigEndian.PutUint16(bs[i:i+2], w)\<close>.\<close>

definition set16 :: "bytes \<Rightarrow> nat \<Rightarrow> u16 \<Rightarrow> bytes" where
  "set16 bs i w = bs[i := ucast (drop_bit 8 w), i + 1 := ucast w]"

text \<open>The Go slice expression \<^verbatim>\<open>bs[lo:hi]\<close> for \<^verbatim>\<open>lo <= hi <= len(bs)\<close>.\<close>

definition slice :: "'a list \<Rightarrow> nat \<Rightarrow> nat \<Rightarrow> 'a list" where
  "slice xs lo hi = take (hi - lo) (drop lo xs)"

lemma length_slice [simp]: "hi \<le> length xs \<Longrightarrow> length (slice xs lo hi) = hi - lo"
  by (simp add: slice_def)

lemma length_set16 [simp]: "length (set16 bs i w) = length bs"
  by (simp add: set16_def)

lemma set16_split:
  assumes "length p = i"
  shows "set16 (p @ a # b # q) i w = p @ put16 w @ q"
  using assms by (simp add: set16_def put16_def list_update_append)

lemma slice_length_le: "length (slice xs lo hi) \<le> hi - lo"
  by (simp add: slice_def)

lemma bit_byte_beyond [simp]: "8 \<le> n \<Longrightarrow> \<not> bit (w :: byte) n"
  using bit_imp_le_length [of w n] by auto

lemma be16_put16 [simp]: "be16 (ucast (drop_bit 8 w)) (ucast w) = w"
  unfolding be16_def by (rule bit_word_eqI) (auto simp: bit_simps not_le)

lemma put16_be16 [simp]: "put16 (be16 a b) = [a, b]"
  unfolding be16_def put16_def by (auto intro!: bit_word_eqI simp: bit_simps not_le)

lemma be32_put32 [simp]:
  "be32 (ucast (drop_bit 24 w)) (ucast (drop_bit 16 w)) (ucast (drop_bit 8 w)) (ucast w) = w"
proof (rule bit_word_eqI)
  fix n assume "n < LENGTH(32)"
  then show "bit (be32 (ucast (drop_bit 24 w)) (ucast (drop_bit 16 w)) (ucast (drop_bit 8 w))
      (ucast w)) n = bit w n"
    unfolding be32_def
    by (cases "n < 8"; cases "n < 16"; cases "n < 24") (auto simp: bit_simps not_le not_less)
qed

lemma put32_be32 [simp]: "put32 (be32 a b c d) = [a, b, c, d]"
  unfolding be32_def put32_def by (auto intro!: bit_word_eqI simp: bit_simps not_le)

lemma length_put16 [simp]: "length (put16 w) = 2"
  by (simp add: put16_def)

lemma length_put32 [simp]: "length (put32 w) = 4"
  by (simp add: put32_def)

lemma put16_inject [simp]: "put16 v = put16 w \<longleftrightarrow> v = w"
  unfolding put16_def by (metis be16_put16 list.inject)

lemma unat_byte_less [simp]: "unat (b :: byte) < 256"
  using unsigned_less [where w = b and 'a = nat] by simp

lemma unat_u16_less [simp]: "unat (w :: u16) < 65536"
  using unsigned_less [where w = w and 'a = nat] by simp

lemma unat_of_nat_u16: "n < 65536 \<Longrightarrow> unat (of_nat n :: u16) = n"
  by (simp add: unat_of_nat take_bit_eq_mod)

lemma unat_u32_less [simp]: "unat (w :: u32) < 4294967296"
  using unsigned_less [where w = w and 'a = nat] by simp

lemma unat_be16: "unat (be16 a b) = 256 * unat a + unat b"
proof -
  have "be16 a b = push_bit 8 (ucast a) + ucast b"
    unfolding be16_def by (rule disjunctive_add [symmetric]) (auto simp: bit_simps)
  moreover have "unat a < 256" "unat b < 256"
    by simp_all
  moreover from this have "unat a * 256 + unat b < 65536"
    by linarith
  ultimately show ?thesis
    by (simp add: push_bit_eq_mult unat_word_ariths unsigned_ucast_eq take_bit_eq_mod)
qed

lemma set16_take_drop:
  assumes "i + 2 \<le> length bs"
  shows "set16 bs i w = take i bs @ put16 w @ drop (i + 2) bs"
proof -
  obtain a b r where r: "drop i bs = a # b # r"
    using assms by (metis Cons_nth_drop_Suc Suc_le_lessD add_2_eq_Suc' Suc_lessD)
  then have "drop (i + 2) bs = r"
    by (metis add.commute drop_drop drop_Suc_Cons drop0 numeral_2_eq_2)
  moreover have "bs = take i bs @ a # b # r"
    using r by (metis append_take_drop_id)
  moreover have "length (take i bs) = i"
    using assms by simp
  ultimately show ?thesis
    using set16_split [of "take i bs" i a b r w] by metis
qed

lemma u16_at_take_drop:
  assumes "i + 2 \<le> length bs"
  shows "take i bs @ put16 (u16_at bs i) @ drop (i + 2) bs = bs"
proof -
  have "i + 1 < length bs" "i < length bs"
    using assms by auto
  then have "put16 (u16_at bs i) @ drop (i + 2) bs = drop i bs"
    by (simp add: u16_at_def Cons_nth_drop_Suc)
  then show ?thesis by simp
qed

lemma nth_set16:
  "i + 1 < length bs \<Longrightarrow> set16 bs i w ! j =
     (if j = i then ucast (drop_bit 8 w) else if j = i + 1 then ucast w else bs ! j)"
  by (simp add: set16_def nth_list_update)

lemma u16_at_set16:
  "i + 1 < length bs \<Longrightarrow> j + 1 < i \<or> i + 1 < j \<or> i = j \<Longrightarrow>
   u16_at (set16 bs i w) j = (if i = j then w else u16_at bs j)"
  by (auto simp: u16_at_def nth_set16)

lemmas put_simps [wire_simps] = put16_def put32_def u16_at_def u32_at_def

lemma length_eq_4: "length xs = 4 \<longleftrightarrow> (\<exists>a b c d. xs = [a, b, c, d])"
  by (auto simp: numeral_eq_Suc length_Suc_conv)

lemma length_eq_6: "length xs = 6 \<longleftrightarrow> (\<exists>a b c d e f. xs = [a, b, c, d, e, f])"
  by (auto simp: numeral_eq_Suc length_Suc_conv)

section \<open>IPv4 addresses\<close>

text \<open>
  \<^verbatim>\<open>net.IP\<close> is a byte slice. \<^verbatim>\<open>To4\<close> returns the four address bytes of a 4-byte slice or
  of a 16-byte IPv4-mapped slice, and nil for every other slice; nil is \<open>None\<close>.
\<close>

type_synonym ip = bytes
type_synonym mac = bytes

definition To4 :: "ip \<Rightarrow> ip option" where
  "To4 a =
     (if length a = 4 then Some a
      else if length a = 16 \<and> take 10 a = replicate 10 0 \<and> a ! 10 = 0xFF \<and> a ! 11 = 0xFF
      then Some (drop 12 a)
      else None)"

lemma To4_length: "To4 a = Some b \<Longrightarrow> length b = 4"
  by (auto simp: To4_def split: if_splits)

lemma To4_4 [simp]: "length a = 4 \<Longrightarrow> To4 a = Some a"
  by (simp add: To4_def)

lemma To4_idem: "To4 a = Some b \<Longrightarrow> To4 b = Some b"
  by (simp add: To4_length)

text \<open>
  \<^verbatim>\<open>net.IP.Equal\<close>: same bytes at the same length, or a 4-byte address against its 16-byte
  IPv4-mapped form.
\<close>

definition ip_equal :: "ip \<Rightarrow> ip \<Rightarrow> bool" where
  "ip_equal a b =
     (if length a = length b then a = b
      else if length a = 4 \<and> length b = 16 \<or> length a = 16 \<and> length b = 4
      then To4 a = To4 b \<and> To4 a \<noteq> None
      else False)"

lemma ip_equal_4 [simp]: "length a = 4 \<Longrightarrow> length b = 4 \<Longrightarrow> ip_equal a b \<longleftrightarrow> a = b"
  by (simp add: ip_equal_def)

section \<open>The most recent elements of a list\<close>

definition lastn :: "nat \<Rightarrow> 'a list \<Rightarrow> 'a list" where
  "lastn n xs = drop (length xs - n) xs"

lemma length_lastn [simp]: "length (lastn n xs) = min n (length xs)"
  by (simp add: lastn_def)

lemma lastn_all [simp]: "length xs \<le> n \<Longrightarrow> lastn n xs = xs"
  by (simp add: lastn_def)

lemma lastn_append: "lastn n (lastn n xs @ ys) = lastn n (xs @ ys)"
proof (cases "length xs \<le> n")
  case True
  then show ?thesis by simp
next
  case False
  then have "length xs + length ys - (length xs - n + n) + (length xs - n) = length xs + length ys - n"
    by simp
  then show ?thesis using False by (simp add: lastn_def)
qed

lemma lastn_suffix: "\<exists>ys. xs = ys @ lastn n xs"
  by (metis append_take_drop_id lastn_def)

text \<open>
  A buffer that never refuses an element and forgets the oldest ones, as the UDP receive
  queue does.
\<close>

locale keep_last_buffer =
  fixes push :: "'a \<Rightarrow> 'b \<Rightarrow> 'b"
    and contents :: "'b \<Rightarrow> 'a list"
    and invar :: "'b \<Rightarrow> bool"
    and cap :: nat
  assumes push_invar: "invar b \<Longrightarrow> invar (push x b)"
    and push_contents: "invar b \<Longrightarrow> contents (push x b) = lastn cap (contents b @ [x])"
    and contents_bound: "invar b \<Longrightarrow> length (contents b) \<le> cap"
begin

lemma fold_push_invar: "invar b \<Longrightarrow> invar (fold push xs b)"
  by (induction xs arbitrary: b) (auto simp: push_invar)

lemma fold_push_contents:
  "invar b \<Longrightarrow> contents (fold push xs b) = lastn cap (contents b @ xs)"
proof (induction xs arbitrary: b)
  case Nil
  then show ?case by (simp add: contents_bound)
next
  case (Cons x xs)
  then have "contents (fold push (x # xs) b) = lastn cap (contents (push x b) @ xs)"
    by (simp add: push_invar)
  also have "\<dots> = lastn cap ((contents b @ [x]) @ xs)"
    using Cons.prems by (simp add: push_contents lastn_append del: append_assoc)
  finally show ?case by simp
qed

lemma no_loss_below_cap:
  "invar b \<Longrightarrow> length (contents b) + length xs \<le> cap \<Longrightarrow>
   contents (fold push xs b) = contents b @ xs"
  by (simp add: fold_push_contents)

end

section \<open>Wire codecs\<close>

text \<open>
  A codec is an encoder that may refuse its input and a decoder that gives back what was
  encoded, in the form \<open>view\<close> in which the receiver sees it. An encoding determines
  that view, and the codecs of two layers compose.
\<close>

locale wire_codec =
  fixes enc :: "'a \<Rightarrow> 'e + bytes"
    and dec :: "bytes \<Rightarrow> 'e + 'v"
    and view :: "'a \<Rightarrow> 'v"
  assumes dec_enc: "enc x = Inr b \<Longrightarrow> dec b = Inr (view x)"
begin

lemma enc_determines_view: "enc x = Inr b \<Longrightarrow> enc y = Inr b \<Longrightarrow> view x = view y"
  using dec_enc [of x b] dec_enc [of y b] by simp

lemma enc_dec_total: "(\<exists>e. enc x = Inl e) \<or> (\<exists>b. enc x = Inr b \<and> dec b = Inr (view x))"
  using dec_enc by (cases "enc x") auto

end

text \<open>Running a second encoder over the output of a first, as the layers of the stack do.\<close>

locale layered_codec = inner: wire_codec enc1 dec1 view1 + outer: wire_codec enc2 dec2 view2
  for enc1 :: "'a \<Rightarrow> 'e + bytes" and dec1 :: "bytes \<Rightarrow> 'e + 'v" and view1 :: "'a \<Rightarrow> 'v"
    and enc2 :: "'h \<times> bytes \<Rightarrow> 'e + bytes" and dec2 :: "bytes \<Rightarrow> 'e + 'w"
    and view2 :: "'h \<times> bytes \<Rightarrow> 'w" +
  fixes body :: "'w \<Rightarrow> bytes"
  assumes body_view: "body (view2 (h, p)) = p"
begin

lemma layered_dec_enc:
  assumes "enc1 x = Inr p" and "enc2 (h, p) = Inr b"
  shows "\<exists>w. dec2 b = Inr w \<and> dec1 (body w) = Inr (view1 x)"
  using outer.dec_enc [OF assms(2)] inner.dec_enc [OF assms(1)] by (simp add: body_view)

end

end
