(* ===== verification/Checksum.thy ===== *)
theory Checksum
  imports Prelude
begin

text \<open>
  The Internet checksum, \<^verbatim>\<open>InternetChecksum\<close> of \<^verbatim>\<open>uefiboard/ministack/ipv4.go\<close>, at its
  machine width: a 32-bit accumulator, a carry-folding loop and a 16-bit complement.
  The reference it is compared with is one's-complement addition over the naturals
  (RFC 1071): the sum of the 16-bit words, reduced modulo 65535 into 1..65535.
\<close>

fun cksum_add :: "u32 \<Rightarrow> bytes \<Rightarrow> u32" where
  "cksum_add s (a # b # r) = cksum_add (s + ucast (be16 a b)) r"
| "cksum_add s [a] = s + push_bit 8 (ucast a)"
| "cksum_add s [] = s"

lemma unat_lo16: "unat (s AND 0xFFFF :: u32) = unat s mod 65536"
proof -
  have "(0xFFFF :: u32) = mask 16"
    by (simp add: mask_eq_exp_minus_1)
  then have "s AND 0xFFFF = take_bit 16 s"
    by (simp only: take_bit_eq_mask)
  then show ?thesis
    by (simp add: take_bit_eq_mod unat_mod)
qed

lemma unat_hi16: "unat (drop_bit 16 s :: u32) = unat s div 65536"
  by (simp add: drop_bit_eq_div unat_div)

lemma fold_step_less:
  fixes s :: u32
  assumes "drop_bit 16 s \<noteq> 0"
  shows "unat ((s AND 0xFFFF) + drop_bit 16 s) = unat s mod 65536 + unat s div 65536"
    and "unat s mod 65536 + unat s div 65536 < unat s"
proof -
  have b: "unat s mod 65536 + unat s div 65536 < 4294967296"
    using unat_u32_less [of s] by linarith
  then show "unat ((s AND 0xFFFF) + drop_bit 16 s) = unat s mod 65536 + unat s div 65536"
    by (simp add: unat_word_ariths unat_lo16 unat_hi16)
  have "unat (drop_bit 16 s) \<noteq> 0"
    using assms by (simp add: unat_eq_0)
  then show "unat s mod 65536 + unat s div 65536 < unat s"
    unfolding unat_hi16 using div_mult_mod_eq [of "unat s" 65536] by linarith
qed

function cksum_fold :: "u32 \<Rightarrow> u32" where
  "cksum_fold s =
     (if drop_bit 16 s \<noteq> 0 then cksum_fold ((s AND 0xFFFF) + drop_bit 16 s) else s)"
  by pat_completeness auto
termination
  by (relation "measure unat") (use fold_step_less in auto)

declare cksum_fold.simps [simp del]

definition InternetChecksum :: "bytes \<Rightarrow> u16" where
  "InternetChecksum data = NOT (ucast (cksum_fold (cksum_add 0 data)))"

section \<open>The reference: one's-complement sums\<close>

fun word_sum :: "bytes \<Rightarrow> nat" where
  "word_sum (a # b # r) = 256 * unat a + unat b + word_sum r"
| "word_sum [a] = 256 * unat a"
| "word_sum [] = 0"

definition ones_norm :: "nat \<Rightarrow> nat" where
  "ones_norm n = (if n = 0 then 0 else (n - 1) mod 65535 + 1)"

lemma ones_norm_le: "ones_norm n \<le> 65535"
proof (cases "n = 0")
  case False
  have "(n - 1) mod 65535 < 65535" by (rule mod_less_divisor) simp
  then have "(n - 1) mod 65535 + 1 \<le> 65535" by linarith
  with False show ?thesis by (simp only: ones_norm_def if_False)
qed (simp add: ones_norm_def)

lemma ones_norm_small: "n \<le> 65535 \<Longrightarrow> ones_norm n = n"
  by (simp add: ones_norm_def)

lemma ones_norm_eq_0 [simp]: "ones_norm n = 0 \<longleftrightarrow> n = 0"
  by (simp add: ones_norm_def)

lemma ones_norm_mod: "ones_norm n mod 65535 = n mod 65535"
  by (cases n) (simp_all add: ones_norm_def mod_Suc_eq)

lemma ones_norm_step: "65536 \<le> n \<Longrightarrow> ones_norm (n mod 65536 + n div 65536) = ones_norm n"
proof -
  assume "65536 \<le> n"
  define q r where "q = n div 65536" and "r = n mod 65536"
  have n: "n = 65536 * q + r"
    by (simp add: q_def r_def)
  have "1 \<le> q"
    using \<open>65536 \<le> n\<close> by (simp add: q_def)
  then have "n - 1 = (r + q - 1) + q * 65535" "r + q \<noteq> 0"
    using n by auto
  then have "(n - 1) mod 65535 = (r + q - 1) mod 65535"
    by (metis mod_mult_self1)
  with \<open>r + q \<noteq> 0\<close> \<open>65536 \<le> n\<close> show "ones_norm (n mod 65536 + n div 65536) = ones_norm n"
    by (simp add: ones_norm_def q_def r_def)
qed

lemma word_sum_bound: "word_sum d \<le> 65535 * ((length d + 1) div 2)"
proof (induction d rule: word_sum.induct)
  case (1 a b r)
  have "unat a \<le> 255" "unat b \<le> 255"
    using unat_byte_less [of a] unat_byte_less [of b] by linarith+
  with 1 show ?case by simp
next
  case (2 a)
  have "unat a \<le> 255" using unat_byte_less [of a] by linarith
  then show ?case by simp
qed simp

lemma word_sum_append: "even (length p) \<Longrightarrow> word_sum (p @ q) = word_sum p + word_sum q"
  by (induction p rule: word_sum.induct) auto

lemma word_sum_put16 [simp]: "word_sum (put16 w @ r) = unat w + word_sum r"
  using unat_be16 [of "ucast (drop_bit 8 w)" "ucast w"] by (simp add: put16_def)

lemma unat_push8: "unat (push_bit 8 (ucast (a :: byte)) :: u32) = 256 * unat a"
proof -
  have "unat a * 256 < 4294967296"
    using unat_byte_less [of a] by linarith
  moreover have "unat a < 4294967296"
    using unat_byte_less [of a] by linarith
  ultimately show ?thesis
    by (simp add: push_bit_eq_mult unat_word_ariths unsigned_ucast_eq take_bit_eq_mod)
qed

lemma unat_ucast_u16_u32: "unat (ucast (w :: u16) :: u32) = unat w"
proof -
  have "unat w < 4294967296"
    using unat_u16_less [of w] by linarith
  then show ?thesis
    by (simp add: unsigned_ucast_eq take_bit_eq_mod)
qed

lemma cksum_add_eq:
  "unat s + word_sum d < 4294967296 \<Longrightarrow> unat (cksum_add s d) = unat s + word_sum d"
proof (induction s d rule: cksum_add.induct)
  case (1 s a b r)
  then have "unat (s + ucast (be16 a b)) = unat s + (256 * unat a + unat b)"
    by (simp add: unat_word_ariths unat_ucast_u16_u32 unat_be16)
  with 1 show ?case by simp
next
  case (2 s a)
  then show ?case by (simp add: unat_word_ariths unat_push8)
qed simp

lemma cksum_fold_eq: "unat (cksum_fold s) = ones_norm (unat s)"
proof (induction s rule: cksum_fold.induct)
  case (1 s)
  show ?case
  proof (cases "drop_bit 16 s = 0")
    case True
    then have "unat s div 65536 = 0"
      using unat_hi16 [of s] by simp
    then have "unat s \<le> 65535" by simp
    with True show ?thesis by (subst cksum_fold.simps) (simp add: ones_norm_small)
  next
    case False
    have "65536 \<le> unat s"
      using fold_step_less(2) [OF False] by (cases "unat s < 65536") auto
    then show ?thesis
      using 1 False fold_step_less(1) [OF False]
      by (subst cksum_fold.simps) (simp add: ones_norm_step)
  qed
qed

text \<open>
  The bound under which the 32-bit accumulator cannot overflow: 131072 bytes, far above the
  1500 bytes of any packet of the stack.
\<close>

lemma word_sum_fits: "length d \<le> 131072 \<Longrightarrow> word_sum d < 4294967296"
proof -
  assume "length d \<le> 131072"
  then have "65535 * ((length d + 1) div 2) \<le> 65535 * 65536" by simp
  with word_sum_bound [of d] show ?thesis by linarith
qed

lemma unat_InternetChecksum:
  assumes "length d \<le> 131072"
  shows "unat (InternetChecksum d) = 65535 - ones_norm (word_sum d)"
proof -
  let ?f = "cksum_fold (cksum_add 0 d)"
  have f: "unat ?f = ones_norm (word_sum d)"
    using cksum_add_eq [of 0 d] word_sum_fits [OF assms] by (simp add: cksum_fold_eq)
  have "unat (ucast ?f :: u16) = ones_norm (word_sum d)"
    using ones_norm_le [of "word_sum d"] by (simp add: unsigned_ucast_eq take_bit_eq_mod f)
  moreover have "NOT (ucast ?f :: u16) = - 1 - ucast ?f"
    by (simp add: not_eq_complement)
  moreover have "unat (- 1 - ucast ?f :: u16) = 65535 - unat (ucast ?f :: u16)"
    by (subst unat_sub) (simp_all add: unsigned_minus_1_eq_mask mask_eq_exp_minus_1)
  ultimately show ?thesis
    by (simp add: InternetChecksum_def)
qed

lemma InternetChecksum_eqI:
  assumes "length d \<le> 131072" "length e \<le> 131072"
    and "ones_norm (word_sum d) = ones_norm (word_sum e)"
  shows "InternetChecksum d = InternetChecksum e"
  using assms by (simp add: word_unat_eq_iff unat_InternetChecksum)

lemma InternetChecksum_eqD:
  assumes "length d \<le> 131072" "length e \<le> 131072"
    and "InternetChecksum d = InternetChecksum e"
  shows "ones_norm (word_sum d) = ones_norm (word_sum e)"
proof -
  have "65535 - ones_norm (word_sum d) = 65535 - ones_norm (word_sum e)"
    using unat_InternetChecksum [OF assms(1)] unat_InternetChecksum [OF assms(2)] assms(3)
    by simp
  then show ?thesis
    using ones_norm_le [of "word_sum d"] ones_norm_le [of "word_sum e"] by linarith
qed

lemma ones_norm_complement: "ones_norm (n + (65535 - ones_norm n)) = 65535"
proof (cases "n = 0")
  case True
  then show ?thesis by (simp add: ones_norm_def)
next
  case False
  define q r where "q = (n - 1) div 65535" and "r = (n - 1) mod 65535"
  have r: "r < 65535" unfolding r_def by (rule mod_less_divisor) simp
  have n: "n = 65535 * q + r + 1"
    using False by (simp add: q_def r_def)
  have "ones_norm n = r + 1"
    using False by (simp add: ones_norm_def r_def)
  then have "n + (65535 - ones_norm n) = 65534 + (q + 1) * 65535 - 65534"
    using n r by simp
  then have e: "n + (65535 - ones_norm n) - 1 = 65534 + q * 65535"
    "n + (65535 - ones_norm n) \<noteq> 0"
    using n r \<open>ones_norm n = r + 1\<close> by simp_all
  have "(65534 + q * 65535) mod 65535 = (65534 :: nat)"
    by simp
  with e show ?thesis
    by (simp only: ones_norm_def if_False)
qed

text \<open>Stamping the checksum into the zeroed field makes the whole message sum to zero.\<close>

lemma stamped_checksum_verifies:
  assumes "even (length p)" and "length p + 2 + length q \<le> 131072"
  shows "InternetChecksum (p @ put16 (InternetChecksum (p @ 0 # 0 # q)) @ q) = 0"
proof -
  let ?d = "p @ 0 # 0 # q" and ?c = "InternetChecksum (p @ 0 # 0 # q)"
  have "word_sum (p @ put16 ?c @ q) = word_sum ?d + (65535 - ones_norm (word_sum ?d))"
    using assms unat_InternetChecksum [of ?d] by (simp add: word_sum_append)
  then have "unat (InternetChecksum (p @ put16 ?c @ q)) = 65535 - 65535"
    using assms unat_InternetChecksum [of "p @ put16 ?c @ q"] by (simp add: ones_norm_complement)
  then show ?thesis by (simp add: unat_eq_0)
qed

lemma mod_diff_small:
  assumes "(n + v) mod 65535 = (n + w) mod (65535::nat)" and "v \<le> w" "w \<le> 65535"
  shows "v = w \<or> v = 0 \<and> w = 65535"
proof -
  have "65535 dvd (n + w) - (n + v)"
    using assms(1,2) mod_eq_dvd_iff_nat [of "n + v" "n + w" 65535] by simp
  then have "65535 dvd w - v" by simp
  then show ?thesis
    using assms(2,3) dvd_imp_le [of 65535 "w - v"] by linarith
qed

lemma ones_norm_add_cancel:
  assumes "ones_norm (n + v) = ones_norm (n + w)" and "v \<le> 65535" "w \<le> 65535"
  shows "v = w \<or> v = 0 \<and> w = 65535 \<or> v = 65535 \<and> w = 0"
proof -
  have e: "(n + v) mod 65535 = (n + w) mod 65535"
    using assms(1) ones_norm_mod by metis
  show ?thesis
  proof (cases "v \<le> w")
    case True
    then show ?thesis using mod_diff_small [OF e True assms(3)] by blast
  next
    case False
    then show ?thesis using mod_diff_small [OF e [symmetric] _ assms(2)] by auto
  qed
qed

text \<open>
  Replacing one aligned 16-bit word by another changes the checksum, unless the two words
  are the two representations of zero.
\<close>

lemma InternetChecksum_word_change:
  assumes "even (length p)" and "length p + 2 + length q \<le> 131072"
    and "InternetChecksum (p @ put16 v @ q) = InternetChecksum (p @ put16 w @ q)"
  shows "v = w \<or> {v, w} = {0, 0xFFFF}"
proof -
  have "ones_norm (word_sum p + word_sum q + unat v) = ones_norm (word_sum p + word_sum q + unat w)"
    using InternetChecksum_eqD [OF _ _ assms(3)] assms(1,2)
    by (simp add: word_sum_append ac_simps)
  moreover have "unat v \<le> 65535" "unat w \<le> 65535"
    using unat_u16_less [of v] unat_u16_less [of w] by linarith+
  ultimately have "unat v = unat w \<or> unat v = 0 \<and> unat w = 65535 \<or> unat v = 65535 \<and> unat w = 0"
    by (rule ones_norm_add_cancel)
  moreover have "unat x = 65535 \<longleftrightarrow> x = 0xFFFF" for x :: u16
    by (simp add: word_unat_eq_iff)
  ultimately show ?thesis
    by (auto simp: unat_eq_0 dest: unsigned_word_eqI)
qed

section \<open>Properties\<close>

text \<open>
  C17. The 32-bit accumulator with carry folding computes the RFC 1071 checksum: 65535 minus
  the one's-complement sum of the 16-bit words, for every message up to 131072 bytes.
\<close>

theorem InternetChecksum_rfc1071:
  assumes "length d \<le> 131072"
  shows "unat (InternetChecksum d) = 65535 - ones_norm (word_sum d)"
  by (rule unat_InternetChecksum [OF assms])

theorem InternetChecksum_rfc1071_witness:
  "unat (InternetChecksum [0xFF, 0xFF, 0x00, 0x01, 0xF2]) = 65535 - ones_norm (word_sum [0xFF, 0xFF, 0x00, 0x01, 0xF2])"
  by (rule InternetChecksum_rfc1071) simp

end
