(* ===== verification/Ipv4.thy ===== *)
theory Ipv4
  imports Checksum
begin

text \<open>
  The IPv4 layer, \<^verbatim>\<open>uefiboard/ministack/ipv4.go\<close>: the fixed header with its checksum, and
  the route table with one on-link subnet and one default gateway. A nil \<^verbatim>\<open>net.IP\<close> field is
  \<open>None\<close>; a nil address argument behaves as the empty slice, which \<open>To4\<close> refuses.
\<close>

definition IPv4HeaderLen :: nat where "IPv4HeaderLen = 20"
definition IPProtoICMP :: u8 where "IPProtoICMP = 1"
definition IPProtoTCP :: u8 where "IPProtoTCP = 6"
definition IPProtoUDP :: u8 where "IPProtoUDP = 17"
definition IPv4DefaultTTL :: u8 where "IPv4DefaultTTL = 64"
definition IPv4MTU :: nat where "IPv4MTU = 1500"

lemmas ipv4_consts [wire_simps] = IPv4HeaderLen_def IPv4DefaultTTL_def IPv4MTU_def

lemma IPProto_distinct [simp]:
  "IPProtoICMP \<noteq> IPProtoTCP" "IPProtoICMP \<noteq> IPProtoUDP" "IPProtoTCP \<noteq> IPProtoUDP"
  "IPProtoTCP \<noteq> IPProtoICMP" "IPProtoUDP \<noteq> IPProtoICMP" "IPProtoUDP \<noteq> IPProtoTCP"
  by (simp_all add: IPProtoICMP_def IPProtoTCP_def IPProtoUDP_def)

record IPv4Header =
  ih_TOS :: u8
  ih_TotalLen :: u16
  ih_ID :: u16
  ih_Flags :: u8
  ih_FragOff :: u16
  ih_TTL :: u8
  ih_Protocol :: u8
  ih_Checksum :: u16
  ih_Src :: ip
  ih_Dst :: ip

definition ParseIPv4 :: "bytes \<Rightarrow> (IPv4Header \<times> bytes) result" where
  "ParseIPv4 pkt =
     (if length pkt < IPv4HeaderLen then Inl ErrIPv4HeaderTooShort
      else let versionIHL = pkt ! 0 in
      if drop_bit 4 versionIHL \<noteq> 4 then Inl ErrIPv4NotV4
      else let ihl = unat (versionIHL AND 0x0F) in
      if ihl < 5 then Inl ErrIPv4HeaderTooShort
      else if length pkt < ihl * 4 then Inl ErrIPv4HeaderTooShort
      else let gotCksum = u16_at pkt 10; zeroed = set16 (take IPv4HeaderLen pkt) 10 0 in
      if InternetChecksum zeroed \<noteq> gotCksum then Inl ErrIPv4BadChecksum
      else let flagsFrag = u16_at pkt 6 in
      Inr (\<lparr>ih_TOS = pkt ! 1, ih_TotalLen = u16_at pkt 2, ih_ID = u16_at pkt 4,
            ih_Flags = ucast (drop_bit 13 flagsFrag), ih_FragOff = flagsFrag AND 0x1FFF,
            ih_TTL = pkt ! 8, ih_Protocol = pkt ! 9, ih_Checksum = gotCksum,
            ih_Src = slice pkt 12 16, ih_Dst = slice pkt 16 20\<rparr>,
           drop IPv4HeaderLen pkt))"

definition MarshalIPv4 :: "ip \<Rightarrow> ip \<Rightarrow> u8 \<Rightarrow> u16 \<Rightarrow> bytes \<Rightarrow> bytes result" where
  "MarshalIPv4 src dst protocol idn payload =
     (case (To4 src, To4 dst) of
        (Some s4, Some d4) \<Rightarrow>
          let totl = IPv4HeaderLen + length payload in
          if totl > IPv4MTU then Inl ErrIPv4PacketTooLong
          else
            let pkt = [0x45, 0] @ put16 (of_nat totl) @ put16 idn @ put16 0x4000 @
                      [IPv4DefaultTTL, protocol] @ [0, 0] @ s4 @ d4 @ payload;
                cksum = InternetChecksum (take IPv4HeaderLen pkt)
            in Inr (set16 pkt 10 cksum)
      | _ \<Rightarrow> Inl ErrIPv4InvalidIP)"

section \<open>Route table\<close>

record RouteTable =
  rt_Local :: "ip option"
  rt_Mask :: "bytes option"
  rt_Gateway :: "ip option"

definition emptyRoute :: RouteTable where
  "emptyRoute = \<lparr>rt_Local = None, rt_Mask = None, rt_Gateway = None\<rparr>"

definition SetLocal :: "ip \<Rightarrow> bytes \<Rightarrow> RouteTable \<Rightarrow> RouteTable result" where
  "SetLocal addr msk r =
     (case To4 addr of
        None \<Rightarrow> Inl ErrIPv4InvalidIP
      | Some a4 \<Rightarrow>
          if length msk \<noteq> 4 then Inl ErrIPv4InvalidIP
          else Inr (r\<lparr>rt_Local := Some a4, rt_Mask := Some msk\<rparr>))"

definition SetGateway :: "ip option \<Rightarrow> RouteTable \<Rightarrow> RouteTable result" where
  "SetGateway gw r =
     (case gw of
        None \<Rightarrow> Inr (r\<lparr>rt_Gateway := None\<rparr>)
      | Some g \<Rightarrow>
          (case To4 g of
             None \<Rightarrow> Inl ErrIPv4InvalidIP
           | Some g4 \<Rightarrow> Inr (r\<lparr>rt_Gateway := Some g4\<rparr>)))"

definition subnetContains :: "ip \<Rightarrow> bytes \<Rightarrow> ip \<Rightarrow> bool" where
  "subnetContains local msk target =
     (if length local \<noteq> 4 \<or> length msk \<noteq> 4 \<or> length target \<noteq> 4 then False
      else list_all (\<lambda>i. (local ! i AND msk ! i) = (target ! i AND msk ! i)) [0..<4])"

definition Lookup :: "RouteTable \<Rightarrow> ip \<Rightarrow> ip result" where
  "Lookup r dst =
     (case To4 dst of
        None \<Rightarrow> Inl ErrIPv4InvalidIP
      | Some d4 \<Rightarrow>
          if (case (rt_Local r, rt_Mask r) of
                (Some l, Some m) \<Rightarrow> subnetContains l m d4
              | _ \<Rightarrow> False)
          then Inr d4
          else (case rt_Gateway r of Some g \<Rightarrow> Inr g | None \<Rightarrow> Inl ErrNoRoute))"

section \<open>The header as a codec\<close>

definition ipv4_header :: "ip \<Rightarrow> ip \<Rightarrow> u8 \<Rightarrow> u16 \<Rightarrow> nat \<Rightarrow> u16 \<Rightarrow> bytes" where
  "ipv4_header s4 d4 protocol idn totl cksum =
     ([0x45, 0] @ put16 (of_nat totl) @ put16 idn @ put16 0x4000 @ [IPv4DefaultTTL, protocol]) @
     put16 cksum @ s4 @ d4"

lemma length_ipv4_header [simp]:
  "length s4 = 4 \<Longrightarrow> length d4 = 4 \<Longrightarrow> length (ipv4_header s4 d4 pr i t c) = 20"
  by (simp add: ipv4_header_def)

text \<open>A marshalled packet is the header with its own checksum, then the payload.\<close>

definition ipv4_cksum :: "ip \<Rightarrow> ip \<Rightarrow> u8 \<Rightarrow> u16 \<Rightarrow> nat \<Rightarrow> u16" where
  "ipv4_cksum s4 d4 protocol idn totl = InternetChecksum (ipv4_header s4 d4 protocol idn totl 0)"

lemma MarshalIPv4_ok:
  assumes "To4 src = Some s4" "To4 dst = Some d4" "length payload \<le> 1480"
  shows "MarshalIPv4 src dst pr i payload =
    Inr (ipv4_header s4 d4 pr i (20 + length payload)
           (ipv4_cksum s4 d4 pr i (20 + length payload)) @ payload)"
proof -
  let ?pre = "[0x45, 0] @ put16 (of_nat (20 + length payload)) @ put16 i @ put16 0x4000 @
              [IPv4DefaultTTL, pr]"
  have l: "length s4 = 4" "length d4 = 4" "length ?pre = 10"
    using assms To4_length by auto
  have "take 20 (?pre @ [0, 0] @ s4 @ d4 @ payload) = ipv4_header s4 d4 pr i (20 + length payload) 0"
    using l by (simp add: ipv4_header_def put16_def)
  moreover have "set16 (?pre @ 0 # 0 # s4 @ d4 @ payload) 10 c = ?pre @ put16 c @ s4 @ d4 @ payload" for c
    by (rule set16_split) (rule l)
  ultimately show ?thesis
    using assms by (simp add: MarshalIPv4_def ipv4_cksum_def ipv4_header_def IPv4HeaderLen_def IPv4MTU_def)
qed

lemma MarshalIPv4_Inr:
  assumes "MarshalIPv4 src dst pr i payload = Inr pkt"
  obtains s4 d4 where "To4 src = Some s4" "To4 dst = Some d4" "length payload \<le> 1480"
    "length s4 = 4" "length d4 = 4"
    "pkt = ipv4_header s4 d4 pr i (20 + length payload)
             (ipv4_cksum s4 d4 pr i (20 + length payload)) @ payload"
proof -
  obtain s4 d4 where a: "To4 src = Some s4" "To4 dst = Some d4"
    using assms by (auto simp: MarshalIPv4_def split: option.splits)
  moreover have b: "length payload \<le> 1480"
    using assms a by (auto simp: MarshalIPv4_def wire_simps split: if_splits)
  moreover note MarshalIPv4_ok [OF a b, of pr i]
  ultimately show ?thesis
    using assms that To4_length by simp
qed

lemma length_MarshalIPv4:
  "MarshalIPv4 src dst pr i payload = Inr pkt \<Longrightarrow> length pkt = 20 + length payload \<and> length pkt \<le> 1500"
  by (erule MarshalIPv4_Inr) simp

definition ipv4_view :: "(ip \<times> ip \<times> u8 \<times> u16) \<times> bytes \<Rightarrow> IPv4Header \<times> bytes" where
  "ipv4_view = (\<lambda>((src, dst, pr, i), payload).
     let s4 = the (To4 src); d4 = the (To4 dst); totl = 20 + length payload in
     (\<lparr>ih_TOS = 0, ih_TotalLen = of_nat totl, ih_ID = i, ih_Flags = 2, ih_FragOff = 0,
       ih_TTL = 64, ih_Protocol = pr, ih_Checksum = ipv4_cksum s4 d4 pr i totl,
       ih_Src = s4, ih_Dst = d4\<rparr>, payload))"

definition ipv4_enc :: "(ip \<times> ip \<times> u8 \<times> u16) \<times> bytes \<Rightarrow> bytes result" where
  "ipv4_enc = (\<lambda>((src, dst, pr, i), payload). MarshalIPv4 src dst pr i payload)"

text \<open>The parser does not look at the length field: whatever follows the header is the payload.\<close>

lemma ParseIPv4_any:
  assumes "length s4 = 4" "length d4 = 4"
  shows "ParseIPv4 (ipv4_header s4 d4 pr i totl (ipv4_cksum s4 d4 pr i totl) @ body) =
    Inr (\<lparr>ih_TOS = 0, ih_TotalLen = of_nat totl, ih_ID = i, ih_Flags = 2, ih_FragOff = 0,
          ih_TTL = 64, ih_Protocol = pr, ih_Checksum = ipv4_cksum s4 d4 pr i totl,
          ih_Src = s4, ih_Dst = d4\<rparr>, body)"
proof -
  obtain a b c d e f g h where [simp]: "s4 = [a, b, c, d]" "d4 = [e, f, g, h]"
    using assms by (auto simp: length_eq_4)
  let ?c = "ipv4_cksum s4 d4 pr i totl"
  have "set16 (take 20 (ipv4_header s4 d4 pr i totl ?c @ body)) 10 0 = ipv4_header s4 d4 pr i totl 0"
    by (simp add: ipv4_header_def put16_def set16_def)
  moreover have "u16_at (ipv4_header s4 d4 pr i totl ?c @ body) 10 = ?c"
    by (simp add: ipv4_header_def wire_simps)
  moreover have "InternetChecksum (ipv4_header s4 d4 pr i totl 0) = ?c"
    by (simp add: ipv4_cksum_def)
  moreover have "u16_at (ipv4_header s4 d4 pr i totl ?c @ body) 6 = 0x4000"
    by (simp add: ipv4_header_def wire_simps be16_def)
  ultimately show ?thesis
    by (simp add: ParseIPv4_def IPv4HeaderLen_def)
      (simp add: ipv4_header_def wire_simps slice_def Let_def)
qed

lemma ParseIPv4_header:
  assumes "length s4 = 4" "length d4 = 4" "totl = 20 + length payload"
  shows "ParseIPv4 (ipv4_header s4 d4 pr i totl (ipv4_cksum s4 d4 pr i totl) @ payload) =
         Inr (ipv4_view ((s4, d4, pr, i), payload))"
  using assms by (simp add: ParseIPv4_any ipv4_view_def)

interpretation ipv4: wire_codec ipv4_enc ParseIPv4 ipv4_view
  by unfold_locales
    (auto simp: ipv4_enc_def ipv4_view_def ParseIPv4_header elim!: MarshalIPv4_Inr)

lemma ParseIPv4_MarshalIPv4:
  "MarshalIPv4 src dst pr i payload = Inr pkt \<Longrightarrow>
   ParseIPv4 pkt = Inr (ipv4_view ((src, dst, pr, i), payload))"
  using ipv4.dec_enc [of "((src, dst, pr, i), payload)" pkt] by (simp add: ipv4_enc_def)

section \<open>What the header checksum protects\<close>

lemma ParseIPv4_Inr_iff:
  "ParseIPv4 pkt = Inr r \<Longrightarrow>
   20 \<le> length pkt \<and> InternetChecksum (set16 (take 20 pkt) 10 0) = u16_at pkt 10"
  by (auto simp: ParseIPv4_def wire_simps Let_def split: if_splits)

lemma ParseIPv4_bad_checksum:
  "20 \<le> length pkt \<Longrightarrow> InternetChecksum (set16 (take 20 pkt) 10 0) \<noteq> u16_at pkt 10 \<Longrightarrow>
   \<exists>e. ParseIPv4 pkt = Inl e"
  by (simp add: ParseIPv4_def IPv4HeaderLen_def Let_def)

lemma set16_header_commute:
  assumes "20 \<le> length pkt" "even i" "i < 20" "i \<noteq> 10"
  shows "set16 (take 20 (set16 pkt i w)) 10 0 = set16 (set16 (take 20 pkt) 10 0) i w"
proof -
  have "i + 1 \<noteq> 10" "i \<noteq> 11"
    using assms by presburger+
  with assms show ?thesis
    by (auto simp: set16_def take_update_swap list_update_swap)
qed

lemma header_word_change:
  assumes len: "20 \<le> length pkt" and i: "even i" "i < 20"
    and ok: "InternetChecksum (set16 (take 20 pkt) 10 0) = u16_at pkt 10"
    and ok': "InternetChecksum (set16 (take 20 (set16 pkt i w)) 10 0) = u16_at (set16 pkt i w) 10"
  shows "u16_at pkt i = w \<or> {u16_at pkt i, w} = {0, 0xFFFF}"
proof (cases "i = 10")
  case True
  have "set16 (take 20 (set16 pkt 10 w)) 10 0 = set16 (take 20 pkt) 10 0"
    using len by (simp add: set16_def take_update_swap list_update_swap)
  with True ok ok' len show ?thesis
    by (simp add: u16_at_set16)
next
  case False
  let ?z = "set16 (take 20 pkt) 10 0"
  have "i + 2 \<le> 20"
    using i by presburger
  then have i2: "i + 2 \<le> length ?z" "10 + 1 < i \<or> i + 1 < 10"
    using len False i(1) by (simp, presburger)
  have z: "u16_at ?z i = u16_at pkt i"
    using len i False i2(2) by (auto simp: u16_at_def nth_set16)
  have "u16_at (set16 pkt i w) 10 = u16_at pkt 10"
    using len i False i2(2) by (subst u16_at_set16) auto
  with ok ok' have "InternetChecksum (set16 ?z i w) = InternetChecksum ?z"
    using set16_header_commute [OF len i False, of w] by simp
  then have "InternetChecksum (take i ?z @ put16 w @ drop (i + 2) ?z) =
      InternetChecksum (take i ?z @ put16 (u16_at ?z i) @ drop (i + 2) ?z)"
    by (simp only: set16_take_drop [OF i2(1)]
        u16_at_take_drop [OF i2(1)])
  then have "w = u16_at ?z i \<or> {w, u16_at ?z i} = {0, 0xFFFF}"
    by (rule InternetChecksum_word_change [rotated 2]) (use len i in simp_all)
  then show ?thesis
    unfolding z insert_commute [of w] by (auto simp only:)
qed

section \<open>Routing\<close>

text \<open>The fields of a table the two setters have built are four bytes each.\<close>

definition route_ok :: "RouteTable \<Rightarrow> bool" where
  "route_ok r =
     (pred_option (\<lambda>a. length a = 4) (rt_Local r) \<and> pred_option (\<lambda>m. length m = 4) (rt_Mask r) \<and>
      pred_option (\<lambda>g. length g = 4) (rt_Gateway r) \<and> (rt_Local r = None \<longleftrightarrow> rt_Mask r = None))"

lemma route_ok_empty: "route_ok emptyRoute"
  by (simp add: route_ok_def emptyRoute_def)

lemma route_ok_SetLocal: "route_ok r \<Longrightarrow> SetLocal a m r = Inr r' \<Longrightarrow> route_ok r'"
  by (auto simp: SetLocal_def route_ok_def To4_length split: option.splits if_splits)

lemma route_ok_SetGateway: "route_ok r \<Longrightarrow> SetGateway g r = Inr r' \<Longrightarrow> route_ok r'"
  by (auto simp: SetGateway_def route_ok_def To4_length split: option.splits)

lemma Lookup_length: "route_ok r \<Longrightarrow> Lookup r dst = Inr nh \<Longrightarrow> length nh = 4"
  by (auto simp: Lookup_def route_ok_def To4_length split: option.splits if_splits)

lemma be32_and: "be32 a b c d AND be32 e f g h = be32 (a AND e) (b AND f) (c AND g) (d AND h)"
proof (rule bit_word_eqI)
  fix n assume "n < LENGTH(32)"
  then show "bit (be32 a b c d AND be32 e f g h) n \<longleftrightarrow>
      bit (be32 (a AND e) (b AND f) (c AND g) (d AND h)) n"
    unfolding be32_def
    by (cases "n < 8"; cases "n < 16"; cases "n < 24") (auto simp: bit_simps not_le not_less)
qed

lemma be32_inject [simp]:
  "be32 a b c d = be32 a' b' c' d' \<longleftrightarrow> a = a' \<and> b = b' \<and> c = c' \<and> d = d'"
proof
  assume e: "be32 a b c d = be32 a' b' c' d'"
  have "[a, b, c, d] = [a', b', c', d']"
    unfolding put32_be32 [symmetric] by (simp only: e)
  then show "a = a' \<and> b = b' \<and> c = c' \<and> d = d'" by simp
qed simp

text \<open>Membership is equality of the masked 32-bit addresses.\<close>

lemma subnetContains_iff:
  assumes "length l = 4" "length m = 4" "length t = 4"
  shows "subnetContains l m t \<longleftrightarrow> u32_at l 0 AND u32_at m 0 = u32_at t 0 AND u32_at m 0"
  using assms
  by (auto simp: subnetContains_def length_eq_4 u32_at_def be32_and upt_conv_Cons)

section \<open>Properties\<close>

text \<open>
  A packet built from two IPv4 addresses and a payload that fits the MTU is exactly as long as
  header and payload, and parsing it gives back the addresses, protocol, identification and payload,
  with don't-fragment set, TTL 64 and no fragment offset.
\<close>

lemma ipv4_roundtrip:
  assumes "To4 src = Some s4" "To4 dst = Some d4" "length payload \<le> 1480"
  shows "\<exists>pkt ck. MarshalIPv4 src dst pr i payload = Inr pkt \<and> length pkt = 20 + length payload \<and>
    ParseIPv4 pkt = Inr (\<lparr>ih_TOS = 0, ih_TotalLen = of_nat (length pkt), ih_ID = i, ih_Flags = 2,
      ih_FragOff = 0, ih_TTL = 64, ih_Protocol = pr, ih_Checksum = ck, ih_Src = s4, ih_Dst = d4\<rparr>, payload)"
proof -
  obtain pkt where p: "MarshalIPv4 src dst pr i payload = Inr pkt"
    using MarshalIPv4_ok [OF assms] by blast
  then have "length pkt = 20 + length payload"
    by (simp add: length_MarshalIPv4)
  then show ?thesis
    using p ParseIPv4_MarshalIPv4 [OF p] assms by (simp add: ipv4_view_def Let_def)
qed

text \<open>
  C9. Corruption of any one 16-bit word of the header of an accepted packet is detected: the changed
  packet is rejected, unless the change exchanges the two one's-complement zeros.
\<close>

theorem ipv4_corruption_rejected:
  assumes "ParseIPv4 pkt = Inr r" "even i" "i < 20" "w \<noteq> u16_at pkt i" "{u16_at pkt i, w} \<noteq> {0, 0xFFFF}"
  shows "\<exists>e. ParseIPv4 (set16 pkt i w) = Inl e"
proof (rule ParseIPv4_bad_checksum)
  have ok: "20 \<le> length pkt" "InternetChecksum (set16 (take 20 pkt) 10 0) = u16_at pkt 10"
    using ParseIPv4_Inr_iff [OF assms(1)] by auto
  show "20 \<le> length (set16 pkt i w)"
    using ok by simp
  show "InternetChecksum (set16 (take 20 (set16 pkt i w)) 10 0) \<noteq> u16_at (set16 pkt i w) 10"
    using header_word_change [OF ok(1) assms(2,3) ok(2), of w] assms(4,5) by blast
qed

theorem ipv4_corruption_rejected_witness:
  "\<exists>e. ParseIPv4 (set16 (ipv4_header [10, 0, 2, 15] [10, 0, 2, 2] 17 7 20
      (ipv4_cksum [10, 0, 2, 15] [10, 0, 2, 2] 17 7 20) @ []) 4 9) = Inl e"
proof (rule ipv4_corruption_rejected)
  show "ParseIPv4 (ipv4_header [10, 0, 2, 15] [10, 0, 2, 2] 17 7 20
      (ipv4_cksum [10, 0, 2, 15] [10, 0, 2, 2] 17 7 20) @ []) =
    Inr (ipv4_view (([10, 0, 2, 15], [10, 0, 2, 2], 17, 7), []))"
    by (rule ParseIPv4_header) simp_all
qed (simp_all add: ipv4_header_def wire_simps be16_def doubleton_eq_iff)

text \<open>
  The next hop of an IPv4 destination is the destination itself when it agrees with the local
  address under the mask, the gateway otherwise, and an error when there is no gateway.
\<close>

lemma route_lookup_spec:
  assumes "route_ok r" "To4 dst = Some d4"
  shows "Lookup r dst =
    (if (\<exists>l m. rt_Local r = Some l \<and> rt_Mask r = Some m \<and>
          u32_at l 0 AND u32_at m 0 = u32_at d4 0 AND u32_at m 0)
     then Inr d4
     else case rt_Gateway r of Some g \<Rightarrow> Inr g | None \<Rightarrow> Inl ErrNoRoute)"
  using assms
  by (auto simp: Lookup_def route_ok_def subnetContains_iff To4_length split: option.splits)

text \<open>
  The parser accepts a header that announces options (IHL above 5) and hands the option bytes to
  the upper layer as payload: the payload always starts at byte 20.
\<close>

lemma ipv4_options_accepted:
  assumes "20 + 4 * k \<le> length pkt" "k \<le> 10" "pkt ! 0 = 0x45 + of_nat k"
    and "InternetChecksum (set16 (take 20 pkt) 10 0) = u16_at pkt 10"
  shows "\<exists>h. ParseIPv4 pkt = Inr (h, drop 20 pkt)"
proof -
  have "k = 0 \<or> k = 1 \<or> k = 2 \<or> k = 3 \<or> k = 4 \<or> k = 5 \<or> k = 6 \<or> k = 7 \<or> k = 8 \<or> k = 9 \<or> k = 10"
    using assms(2) by arith
  then have "drop_bit 4 (0x45 + of_nat k :: u8) = 4" "unat ((0x45 + of_nat k :: u8) AND 0x0F) = 5 + k"
    by auto
  then show ?thesis
    using assms by (simp add: ParseIPv4_def IPv4HeaderLen_def Let_def)
qed

end
