(* ===== verification/Icmp4.thy ===== *)
theory Icmp4
  imports Ipv4
begin

text \<open>
  ICMPv4 echo messages, \<^verbatim>\<open>uefiboard/ministack/icmp4.go\<close>, and the two packet builders that wrap
  them in IPv4 (the reply builder is in \<^verbatim>\<open>stack.go\<close>).
\<close>

definition ICMPHeaderLen :: nat where "ICMPHeaderLen = 8"
definition ICMPTypeEchoReply :: u8 where "ICMPTypeEchoReply = 0"
definition ICMPTypeEchoRequest :: u8 where "ICMPTypeEchoRequest = 8"

lemmas icmp_consts [wire_simps] = ICMPHeaderLen_def

lemma ICMPType_distinct [simp]:
  "ICMPTypeEchoReply \<noteq> ICMPTypeEchoRequest" "ICMPTypeEchoRequest \<noteq> ICMPTypeEchoReply"
  by (simp_all add: ICMPTypeEchoReply_def ICMPTypeEchoRequest_def)

record ICMPEcho =
  ic_Type :: u8
  ic_Code :: u8
  ic_Checksum :: u16
  ic_Identifier :: u16
  ic_Sequence :: u16
  ic_Payload :: bytes

definition MarshalICMPEcho :: "u8 \<Rightarrow> u16 \<Rightarrow> u16 \<Rightarrow> bytes \<Rightarrow> bytes" where
  "MarshalICMPEcho msgType idn seq payload =
     (let buf = [msgType, 0] @ [0, 0] @ put16 idn @ put16 seq @ payload;
          cksum = InternetChecksum buf
      in set16 buf 2 cksum)"

definition ParseICMPEcho :: "bytes \<Rightarrow> ICMPEcho result" where
  "ParseICMPEcho buf =
     (if length buf < ICMPHeaderLen then Inl ErrICMPTooShort
      else let gotCksum = u16_at buf 2; tmp = set16 buf 2 0 in
      if InternetChecksum tmp \<noteq> gotCksum then Inl ErrICMPBadChecksum
      else Inr \<lparr>ic_Type = buf ! 0, ic_Code = buf ! 1, ic_Checksum = gotCksum,
                ic_Identifier = u16_at buf 4, ic_Sequence = u16_at buf 6,
                ic_Payload = drop ICMPHeaderLen buf\<rparr>)"

definition buildEchoRequestPacket :: "ip \<Rightarrow> ip \<Rightarrow> u16 \<Rightarrow> u16 \<Rightarrow> u16 \<Rightarrow> bytes \<Rightarrow> bytes result" where
  "buildEchoRequestPacket src dst ipID icmpID icmpSeq payload =
     MarshalIPv4 src dst IPProtoICMP ipID (MarshalICMPEcho ICMPTypeEchoRequest icmpID icmpSeq payload)"

definition buildEchoReplyPacket :: "ip \<Rightarrow> ip \<Rightarrow> u16 \<Rightarrow> u16 \<Rightarrow> u16 \<Rightarrow> bytes \<Rightarrow> bytes result" where
  "buildEchoReplyPacket src dst ipID icmpID icmpSeq payload =
     MarshalIPv4 src dst IPProtoICMP ipID (MarshalICMPEcho ICMPTypeEchoReply icmpID icmpSeq payload)"

section \<open>The message as a codec\<close>

definition icmp_cksum :: "u8 \<Rightarrow> u16 \<Rightarrow> u16 \<Rightarrow> bytes \<Rightarrow> u16" where
  "icmp_cksum ty idn seq payload =
     InternetChecksum ([ty, 0] @ [0, 0] @ put16 idn @ put16 seq @ payload)"

lemma MarshalICMPEcho_eq:
  "MarshalICMPEcho ty idn seq payload =
     [ty, 0] @ put16 (icmp_cksum ty idn seq payload) @ put16 idn @ put16 seq @ payload"
  by (simp add: MarshalICMPEcho_def icmp_cksum_def set16_def put16_def Let_def)

lemma length_MarshalICMPEcho [simp]: "length (MarshalICMPEcho ty idn seq payload) = 8 + length payload"
  by (simp add: MarshalICMPEcho_eq)

definition icmp_enc :: "u8 \<times> u16 \<times> u16 \<times> bytes \<Rightarrow> bytes result" where
  "icmp_enc = (\<lambda>(ty, idn, seq, payload). Inr (MarshalICMPEcho ty idn seq payload))"

definition icmp_view :: "u8 \<times> u16 \<times> u16 \<times> bytes \<Rightarrow> ICMPEcho" where
  "icmp_view = (\<lambda>(ty, idn, seq, payload).
     \<lparr>ic_Type = ty, ic_Code = 0, ic_Checksum = icmp_cksum ty idn seq payload,
      ic_Identifier = idn, ic_Sequence = seq, ic_Payload = payload\<rparr>)"

lemma ParseICMPEcho_MarshalICMPEcho:
  "ParseICMPEcho (MarshalICMPEcho ty idn seq payload) = Inr (icmp_view (ty, idn, seq, payload))"
proof -
  have "set16 (MarshalICMPEcho ty idn seq payload) 2 0 =
      [ty, 0] @ [0, 0] @ put16 idn @ put16 seq @ payload"
    by (simp add: MarshalICMPEcho_eq set16_def put16_def)
  moreover have "u16_at (MarshalICMPEcho ty idn seq payload) 2 = icmp_cksum ty idn seq payload"
    by (simp add: MarshalICMPEcho_eq wire_simps)
  ultimately show ?thesis
    by (simp add: ParseICMPEcho_def ICMPHeaderLen_def icmp_view_def icmp_cksum_def [symmetric])
      (simp add: MarshalICMPEcho_eq wire_simps icmp_cksum_def)
qed

interpretation icmp: wire_codec icmp_enc ParseICMPEcho icmp_view
  by unfold_locales (auto simp: icmp_enc_def ParseICMPEcho_MarshalICMPEcho)

interpretation icmp_ipv4: layered_codec icmp_enc ParseICMPEcho icmp_view ipv4_enc ParseIPv4 ipv4_view snd
  by unfold_locales (auto simp: ipv4_view_def Let_def)

end
