(* ===== verification/Udp4.thy ===== *)
theory Udp4
  imports Ipv4
begin

text \<open>
  UDP over IPv4, the datagram and endpoint half of \<^verbatim>\<open>uefiboard/ministack/udp4.go\<close>: the header with
  its pseudo-header checksum, and the endpoint with its bounded receive queue. The operations that
  need the whole stack (\<^verbatim>\<open>ReadFrom\<close>, \<^verbatim>\<open>WriteTo\<close>, \<^verbatim>\<open>Close\<close>) are in the theory \<open>Net_Stack\<close>.
\<close>

definition UDP4HeaderLen :: nat where "UDP4HeaderLen = 8"
definition UDP4MaxPayload :: nat where "UDP4MaxPayload = IPv4MTU - IPv4HeaderLen - UDP4HeaderLen"
definition udp4QueueDepth :: nat where "udp4QueueDepth = 16"

lemmas udp4_consts [wire_simps] = UDP4HeaderLen_def UDP4MaxPayload_def

record UDP4Header =
  uh_SrcPort :: u16
  uh_DstPort :: u16
  uh_Length :: u16
  uh_Checksum :: u16

definition udp4Checksum :: "ip \<Rightarrow> ip \<Rightarrow> bytes \<Rightarrow> u16" where
  "udp4Checksum src dst udp =
     (case (To4 src, To4 dst) of
        (Some s4, Some d4) \<Rightarrow>
          let pseudo = s4 @ d4 @ [0, IPProtoUDP] @ put16 (of_nat (length udp))
          in InternetChecksum (pseudo @ udp)
      | _ \<Rightarrow> 0)"

definition ParseUDP4 :: "ip \<Rightarrow> ip \<Rightarrow> bytes \<Rightarrow> (UDP4Header \<times> bytes) result" where
  "ParseUDP4 src dst pkt =
     (if length pkt < UDP4HeaderLen then Inl ErrUDP4HeaderTooShort
      else let h = \<lparr>uh_SrcPort = u16_at pkt 0, uh_DstPort = u16_at pkt 2,
                    uh_Length = u16_at pkt 4, uh_Checksum = u16_at pkt 6\<rparr>;
               len = unat (uh_Length h) in
      if len < UDP4HeaderLen \<or> len > length pkt then Inl ErrUDP4BadLength
      else let payload = slice pkt UDP4HeaderLen len in
      if uh_Checksum h \<noteq> 0 \<and> udp4Checksum src dst (set16 (take len pkt) 6 0) \<noteq> uh_Checksum h
      then Inl ErrUDP4BadChecksum
      else Inr (h, payload))"

definition MarshalUDP4 :: "ip \<Rightarrow> ip \<Rightarrow> u16 \<Rightarrow> u16 \<Rightarrow> bytes \<Rightarrow> bytes result" where
  "MarshalUDP4 src dst srcPort dstPort payload =
     (if length payload > UDP4MaxPayload then Inl ErrUDP4PayloadTooLong
      else let totl = UDP4HeaderLen + length payload;
               buf = put16 srcPort @ put16 dstPort @ put16 (of_nat totl) @ [0, 0] @ payload;
               cksum = udp4Checksum src dst buf;
               cksum' = (if cksum = 0 then 0xFFFF else cksum)
           in Inr (set16 buf 6 cksum'))"

section \<open>Endpoints\<close>

record UDPAddr =
  ua_IP :: ip
  ua_Port :: int

record udp4Datagram =
  dg_Src :: UDPAddr
  dg_Payload :: bytes

record UDP4Conn =
  uc_localPort :: u16
  uc_queue :: "udp4Datagram list"
  uc_closed :: bool
  uc_readDeadline :: int

definition SetReadDeadline :: "int \<Rightarrow> UDP4Conn \<Rightarrow> UDP4Conn" where
  "SetReadDeadline d c = c\<lparr>uc_readDeadline := d\<rparr>"

text \<open>
  \<^verbatim>\<open>deliver\<close>: a non-blocking send on the buffered channel; on a full buffer one receive makes room
  and the send is tried again.
\<close>

definition chan_send :: "nat \<Rightarrow> 'a \<Rightarrow> 'a list \<Rightarrow> 'a list option" where
  "chan_send cap x q = (if length q < cap then Some (q @ [x]) else None)"

definition deliver :: "udp4Datagram \<Rightarrow> UDP4Conn \<Rightarrow> UDP4Conn" where
  "deliver dg c =
     (if uc_closed c then c
      else case chan_send udp4QueueDepth dg (uc_queue c) of
        Some q \<Rightarrow> c\<lparr>uc_queue := q\<rparr>
      | None \<Rightarrow>
          let q = tl (uc_queue c) in
          (case chan_send udp4QueueDepth dg q of
             Some q' \<Rightarrow> c\<lparr>uc_queue := q'\<rparr>
           | None \<Rightarrow> c\<lparr>uc_queue := q\<rparr>))"

section \<open>The datagram as a codec\<close>

text \<open>The datagram with a zero checksum field, over which the checksum is taken.\<close>

definition udp_zeroed :: "u16 \<Rightarrow> u16 \<Rightarrow> bytes \<Rightarrow> bytes" where
  "udp_zeroed sp dp payload =
     put16 sp @ put16 dp @ put16 (of_nat (8 + length payload)) @ [0, 0] @ payload"

definition udp_cksum :: "ip \<Rightarrow> ip \<Rightarrow> u16 \<Rightarrow> u16 \<Rightarrow> bytes \<Rightarrow> u16" where
  "udp_cksum src dst sp dp payload = udp4Checksum src dst (udp_zeroed sp dp payload)"

definition udp_wire_cksum :: "ip \<Rightarrow> ip \<Rightarrow> u16 \<Rightarrow> u16 \<Rightarrow> bytes \<Rightarrow> u16" where
  "udp_wire_cksum src dst sp dp payload =
     (if udp_cksum src dst sp dp payload = 0 then 0xFFFF else udp_cksum src dst sp dp payload)"

lemma MarshalUDP4_ok:
  "length payload \<le> 1472 \<Longrightarrow> MarshalUDP4 src dst sp dp payload =
     Inr (put16 sp @ put16 dp @ put16 (of_nat (8 + length payload)) @
          put16 (udp_wire_cksum src dst sp dp payload) @ payload)"
  by (simp add: MarshalUDP4_def udp_wire_cksum_def udp_cksum_def udp_zeroed_def wire_simps Let_def
      set16_def)

lemma MarshalUDP4_too_long: "length payload > 1472 \<Longrightarrow> MarshalUDP4 src dst sp dp payload = Inl ErrUDP4PayloadTooLong"
  by (simp add: MarshalUDP4_def wire_simps)

text \<open>
  Parsing what was built gives back the ports and the payload, unless the computed checksum was
  zero: the wire then carries all ones, which the parser compares with zero.
\<close>

lemma ParseUDP4_wire:
  assumes "length payload \<le> 1472" and "c \<noteq> 0"
  shows "ParseUDP4 src dst (put16 sp @ put16 dp @ put16 (of_nat (8 + length payload)) @ put16 c @ payload) =
    (if udp_cksum src dst sp dp payload \<noteq> c then Inl ErrUDP4BadChecksum
     else Inr (\<lparr>uh_SrcPort = sp, uh_DstPort = dp, uh_Length = of_nat (8 + length payload),
                uh_Checksum = c\<rparr>, payload))"
proof -
  let ?w = "put16 sp @ put16 dp @ put16 (of_nat (8 + length payload)) @ put16 c @ payload"
  have u: "u16_at ?w 0 = sp" "u16_at ?w 2 = dp" "u16_at ?w 4 = of_nat (8 + length payload)"
      "u16_at ?w 6 = c"
    by (simp_all add: wire_simps)
  have n: "unat (of_nat (8 + length payload) :: u16) = 8 + length payload"
    using assms by (intro unat_of_nat_u16) simp
  have z: "set16 (take (8 + length payload) ?w) 6 0 = udp_zeroed sp dp payload"
    by (simp add: put16_def set16_def udp_zeroed_def)
  have s: "slice ?w 8 (8 + length payload) = payload" "length ?w = 8 + length payload"
    by (simp_all add: slice_def put16_def)
  show ?thesis
    using assms(2) by (simp only: ParseUDP4_def u Let_def UDP4Header.simps n z s UDP4HeaderLen_def)
      (simp add: udp_cksum_def)
qed

lemma ParseUDP4_MarshalUDP4:
  assumes "length payload \<le> 1472" "udp_cksum src dst sp dp payload \<noteq> 0"
    and "MarshalUDP4 src dst sp dp payload = Inr w"
  shows "ParseUDP4 src dst w =
    Inr (\<lparr>uh_SrcPort = sp, uh_DstPort = dp, uh_Length = of_nat (8 + length payload),
          uh_Checksum = udp_cksum src dst sp dp payload\<rparr>, payload)"
  using assms ParseUDP4_wire [OF assms(1,2), of src dst sp dp]
  by (simp add: MarshalUDP4_ok udp_wire_cksum_def)

section \<open>The receive queue\<close>

definition udp_conn_ok :: "UDP4Conn \<Rightarrow> bool" where
  "udp_conn_ok c = (length (uc_queue c) \<le> udp4QueueDepth)"

lemma deliver_open:
  assumes "udp_conn_ok c" "\<not> uc_closed c"
  shows "deliver dg c = c\<lparr>uc_queue := lastn udp4QueueDepth (uc_queue c @ [dg])\<rparr>"
proof (cases "length (uc_queue c) < udp4QueueDepth")
  case True
  then show ?thesis using assms by (simp add: deliver_def chan_send_def)
next
  case False
  then have "length (uc_queue c) = 16"
    using assms by (simp add: udp_conn_ok_def udp4QueueDepth_def)
  then show ?thesis
    using assms by (cases "uc_queue c") (simp_all add: deliver_def chan_send_def lastn_def udp4QueueDepth_def)
qed

lemma udp_conn_ok_deliver: "udp_conn_ok c \<Longrightarrow> udp_conn_ok (deliver dg c)"
  by (cases "uc_closed c") (simp_all add: deliver_open, auto simp: deliver_def udp_conn_ok_def)

lemma deliver_keeps [simp]:
  "uc_closed (deliver dg c) = uc_closed c" "uc_localPort (deliver dg c) = uc_localPort c"
  by (simp_all add: deliver_def Let_def split: option.splits)

interpretation udp_queue: keep_last_buffer deliver uc_queue
  "\<lambda>c. udp_conn_ok c \<and> \<not> uc_closed c" udp4QueueDepth
  by unfold_locales (auto simp: udp_conn_ok_deliver deliver_open udp_conn_ok_def)

section \<open>Properties\<close>

text \<open>
  C22. A datagram whose computed checksum is not zero is parsed back exactly; one whose computed checksum
  is zero is sent with the checksum field 0xFFFF and rejected by the parser, which compares the
  field with the recomputed zero.
\<close>

theorem udp4_roundtrip:
  assumes "length payload \<le> 1472"
  shows "\<exists>w. MarshalUDP4 src dst sp dp payload = Inr w \<and> length w = 8 + length payload \<and>
    ParseUDP4 src dst w =
      (if udp_cksum src dst sp dp payload = 0 then Inl ErrUDP4BadChecksum
       else Inr (\<lparr>uh_SrcPort = sp, uh_DstPort = dp, uh_Length = of_nat (8 + length payload),
                  uh_Checksum = udp_cksum src dst sp dp payload\<rparr>, payload))"
  using MarshalUDP4_ok [OF assms] ParseUDP4_wire [OF assms, of "udp_wire_cksum src dst sp dp payload"]
  by (auto simp: udp_wire_cksum_def)

theorem udp4_roundtrip_witness:
  "\<exists>w. MarshalUDP4 [10, 0, 2, 15] [10, 0, 2, 3] 1024 53 [0xAF, 0xC9] = Inr w \<and>
    length w = 8 + length [0xAF, 0xC9 :: u8] \<and>
    ParseUDP4 [10, 0, 2, 15] [10, 0, 2, 3] w =
      (if udp_cksum [10, 0, 2, 15] [10, 0, 2, 3] 1024 53 [0xAF, 0xC9] = 0 then Inl ErrUDP4BadChecksum
       else Inr (\<lparr>uh_SrcPort = 1024, uh_DstPort = 53, uh_Length = of_nat (8 + length [0xAF, 0xC9 :: u8]),
                  uh_Checksum = udp_cksum [10, 0, 2, 15] [10, 0, 2, 3] 1024 53 [0xAF, 0xC9]\<rparr>, [0xAF, 0xC9]))"
  by (rule udp4_roundtrip) simp

text \<open>
  The rejected case occurs: a two-byte payload for which the datagram the stack builds is refused by
  the stack's own parser.
\<close>

lemma udp4_own_datagram_refused:
  "\<exists>payload w. MarshalUDP4 [10, 0, 2, 15] [10, 0, 2, 3] 1024 53 payload = Inr w \<and>
    ParseUDP4 [10, 0, 2, 15] [10, 0, 2, 3] w = Inl ErrUDP4BadChecksum"
proof -
  have z: "udp_cksum [10, 0, 2, 15] [10, 0, 2, 3] 1024 53 [0xE3, 0x93] = 0"
    by code_simp
  have "ParseUDP4 [10, 0, 2, 15] [10, 0, 2, 3]
      (put16 1024 @ put16 53 @ put16 (of_nat (8 + length [0xE3, 0x93 :: u8])) @ put16 0xFFFF @ [0xE3, 0x93]) =
    Inl ErrUDP4BadChecksum"
    by (subst ParseUDP4_wire) (simp_all add: z)
  then show ?thesis
    using MarshalUDP4_ok [of "[0xE3, 0x93]" "[10, 0, 2, 15]" "[10, 0, 2, 3]" 1024 53]
    by (auto simp: udp_wire_cksum_def z)
qed

text \<open>
  C19. The receive queue of an open endpoint holds the last sixteen datagrams delivered to it, in order:
  overflow drops the oldest.
\<close>

theorem udp4_queue_keeps_latest:
  assumes "udp_conn_ok c" "\<not> uc_closed c"
  shows "uc_queue (fold deliver dgs c) = lastn 16 (uc_queue c @ dgs)"
  using udp_queue.fold_push_contents [of c dgs] assms by (simp add: udp4QueueDepth_def)

theorem udp4_queue_keeps_latest_witness:
  "uc_queue (fold deliver (replicate 17 \<lparr>dg_Src = \<lparr>ua_IP = [10, 0, 2, 2], ua_Port = 67\<rparr>, dg_Payload = [1]\<rparr>)
      \<lparr>uc_localPort = 68, uc_queue = [], uc_closed = False, uc_readDeadline = 0\<rparr>) =
    lastn 16 (uc_queue \<lparr>uc_localPort = 68, uc_queue = [], uc_closed = False, uc_readDeadline = 0\<rparr> @
      replicate 17 \<lparr>dg_Src = \<lparr>ua_IP = [10, 0, 2, 2], ua_Port = 67\<rparr>, dg_Payload = [1]\<rparr>)"
  by (rule udp4_queue_keeps_latest) (simp_all add: udp_conn_ok_def)

end
