(* ===== verification/Ethernet.thy ===== *)
theory Ethernet
  imports Prelude
begin

text \<open>
  Ethernet II framing, \<^verbatim>\<open>uefiboard/ministack/ethernet.go\<close>: the 14-byte header, its parser
  and builder, and the two address tests.
\<close>

definition EtherTypeIPv4 :: u16 where "EtherTypeIPv4 = 0x0800"
definition EtherTypeARP :: u16 where "EtherTypeARP = 0x0806"
definition EthernetHeaderLen :: nat where "EthernetHeaderLen = 14"
definition MaxFrameLen :: nat where "MaxFrameLen = 1514"

record EthernetFrame =
  eth_Dst :: mac
  eth_Src :: mac
  eth_EtherType :: u16
  eth_Payload :: bytes

definition ParseEthernet :: "bytes \<Rightarrow> EthernetFrame result" where
  "ParseEthernet frame =
     (if length frame < EthernetHeaderLen then Inl ErrFrameTooShort
      else Inr \<lparr>eth_Dst = slice frame 0 6, eth_Src = slice frame 6 12,
                eth_EtherType = u16_at frame 12, eth_Payload = drop EthernetHeaderLen frame\<rparr>)"

definition MarshalEthernet :: "mac \<Rightarrow> mac \<Rightarrow> u16 \<Rightarrow> bytes \<Rightarrow> bytes result" where
  "MarshalEthernet dst src etherType payload =
     (if length dst \<noteq> 6 \<or> length src \<noteq> 6 then Inl ErrInvalidMAC
      else if EthernetHeaderLen + length payload > MaxFrameLen then Inl ErrFrameTooLong
      else Inr (dst @ src @ put16 etherType @ payload))"

definition BroadcastMAC :: mac where
  "BroadcastMAC = [0xff, 0xff, 0xff, 0xff, 0xff, 0xff]"

definition IsBroadcast :: "mac \<Rightarrow> bool" where
  "IsBroadcast m = (length m = 6 \<and> list_all (\<lambda>b. b = 0xff) m)"

definition IsZeroMAC :: "mac \<Rightarrow> bool" where
  "IsZeroMAC m = (length m = 6 \<and> list_all (\<lambda>b. b = 0) m)"

lemmas ethernet_consts [wire_simps] =
  EtherTypeIPv4_def EtherTypeARP_def EthernetHeaderLen_def MaxFrameLen_def

lemma length_BroadcastMAC [simp]: "length BroadcastMAC = 6"
  by (simp add: BroadcastMAC_def)

lemma IsBroadcast_iff: "IsBroadcast m \<longleftrightarrow> m = BroadcastMAC"
  by (auto simp: IsBroadcast_def BroadcastMAC_def length_eq_6)

lemma MarshalEthernet_length:
  "MarshalEthernet dst src et payload = Inr f \<Longrightarrow> length f = 14 + length payload \<and> length f \<le> 1514"
  by (auto simp: MarshalEthernet_def wire_simps split: if_splits)

lemma MarshalEthernet_ok:
  "length dst = 6 \<Longrightarrow> length src = 6 \<Longrightarrow> length payload \<le> 1500 \<Longrightarrow>
   MarshalEthernet dst src et payload = Inr (dst @ src @ put16 et @ payload)"
  by (simp add: MarshalEthernet_def wire_simps)

lemma ParseEthernet_frame:
  "length dst = 6 \<Longrightarrow> length src = 6 \<Longrightarrow>
   ParseEthernet (dst @ src @ put16 et @ payload) =
     Inr \<lparr>eth_Dst = dst, eth_Src = src, eth_EtherType = et, eth_Payload = payload\<rparr>"
  by (auto simp: ParseEthernet_def wire_simps slice_def length_eq_6)

lemma ParseEthernet_MarshalEthernet:
  "MarshalEthernet dst src et payload = Inr f \<Longrightarrow>
   ParseEthernet f = Inr \<lparr>eth_Dst = dst, eth_Src = src, eth_EtherType = et, eth_Payload = payload\<rparr>"
  by (auto simp: MarshalEthernet_def ParseEthernet_frame split: if_splits)

lemma ParseEthernet_lengths:
  "ParseEthernet f = Inr e \<Longrightarrow> length (eth_Dst e) = 6 \<and> length (eth_Src e) = 6 \<and>
     length f = 14 + length (eth_Payload e)"
  by (auto simp: ParseEthernet_def wire_simps split: if_splits)

text \<open>The Ethernet layer as a codec: the header triple and the payload come back.\<close>

definition eth_enc :: "(mac \<times> mac \<times> u16) \<times> bytes \<Rightarrow> bytes result" where
  "eth_enc = (\<lambda>((dst, src, et), p). MarshalEthernet dst src et p)"

definition eth_view :: "(mac \<times> mac \<times> u16) \<times> bytes \<Rightarrow> EthernetFrame" where
  "eth_view = (\<lambda>((dst, src, et), p).
     \<lparr>eth_Dst = dst, eth_Src = src, eth_EtherType = et, eth_Payload = p\<rparr>)"

interpretation eth: wire_codec eth_enc ParseEthernet eth_view
  by unfold_locales (auto simp: eth_enc_def eth_view_def ParseEthernet_MarshalEthernet)

end
