(* ===== verification/Link.thy ===== *)
theory Link
  imports Prelude
begin

text \<open>
  The link a stack sits on, \<^verbatim>\<open>uefiboard/ministack/link.go\<close>, and the iteration-capped deadline
  of \<^verbatim>\<open>deadline_tamago.go\<close>. A link is the environment: what its device will answer is data of the
  record. \<open>lk_rx\<close> lists the outcomes of the coming \<^verbatim>\<open>RecvFrame\<close> calls (\<open>None\<close> is an error, and an
  exhausted list answers with errors), \<open>lk_refuse n\<close> is the error of the n-th \<^verbatim>\<open>SendFrame\<close> call if
  the device refuses it, and \<open>lk_tx\<close> logs the frames it has accepted.
\<close>

record link =
  lk_MAC :: mac
  lk_rx :: "bytes option list"
  lk_tx :: "bytes list"
  lk_calls :: nat
  lk_refuse :: "nat \<Rightarrow> net_error option"

definition SendFrame :: "bytes \<Rightarrow> link \<Rightarrow> unit result \<times> link" where
  "SendFrame frame l =
     (let l' = l\<lparr>lk_calls := Suc (lk_calls l)\<rparr> in
      case lk_refuse l (lk_calls l) of
        Some e \<Rightarrow> (Inl e, l')
      | None \<Rightarrow> (Inr (), l'\<lparr>lk_tx := lk_tx l @ [frame]\<rparr>))"

definition RecvFrame :: "link \<Rightarrow> bytes option \<times> link" where
  "RecvFrame l =
     (case lk_rx l of
        [] \<Rightarrow> (None, l)
      | r # rs \<Rightarrow> (r, l\<lparr>lk_rx := rs\<rparr>))"

text \<open>
  The deadline checker counts the iterations of one pump loop up to a fixed cap; the loops of
  the model recurse on the number of iterations that are left.
\<close>

definition maxPumpIters :: nat where "maxPumpIters = 1000000"

record deadlineChecker =
  dc_n :: nat
  dc_stop :: nat

definition newDeadlineChecker :: deadlineChecker where
  "newDeadlineChecker = \<lparr>dc_n = 0, dc_stop = maxPumpIters\<rparr>"

definition expired :: "deadlineChecker \<Rightarrow> bool" where
  "expired d = (dc_n d \<ge> dc_stop d)"

definition tick :: "deadlineChecker \<Rightarrow> deadlineChecker" where
  "tick d = d\<lparr>dc_n := dc_n d + 1\<rparr>"

lemma tick_decreases: "\<not> expired d \<Longrightarrow> dc_stop (tick d) - dc_n (tick d) < dc_stop d - dc_n d"
  by (simp add: expired_def tick_def)

lemma SendFrame_frame [simp]:
  "lk_MAC (snd (SendFrame f l)) = lk_MAC l" "lk_rx (snd (SendFrame f l)) = lk_rx l"
  "lk_refuse (snd (SendFrame f l)) = lk_refuse l"
  by (simp_all add: SendFrame_def Let_def split: option.splits)

lemma RecvFrame_frame [simp]:
  "lk_MAC (snd (RecvFrame l)) = lk_MAC l" "lk_tx (snd (RecvFrame l)) = lk_tx l"
  "lk_refuse (snd (RecvFrame l)) = lk_refuse l" "lk_calls (snd (RecvFrame l)) = lk_calls l"
  by (simp_all add: RecvFrame_def split: list.splits)

lemma SendFrame_logs:
  "SendFrame f l = (r, l') \<Longrightarrow> lk_tx l' = (case r of Inl _ \<Rightarrow> lk_tx l | Inr _ \<Rightarrow> lk_tx l @ [f])"
  by (auto simp: SendFrame_def Let_def split: option.splits)

lemma SendFrame_ok:
  "lk_refuse l (lk_calls l) = None \<Longrightarrow>
   SendFrame f l = (Inr (), l\<lparr>lk_calls := Suc (lk_calls l), lk_tx := lk_tx l @ [f]\<rparr>)"
  by (simp add: SendFrame_def)

lemma RecvFrame_consumes:
  "RecvFrame l = (r, l') \<Longrightarrow> length (lk_rx l') = length (lk_rx l) - 1 \<and> lk_tx l' = lk_tx l"
  by (auto simp: RecvFrame_def split: list.splits)

end
