(* ===== verification/Arp.thy ===== *)
theory Arp
  imports Ethernet Link Ipv4 "HOL-Library.Sublist"
begin

text \<open>
  ARP for IPv4 over Ethernet, \<^verbatim>\<open>uefiboard/ministack/arp.go\<close>: the 28-byte packet, the cache, the
  handler of incoming ARP frames and the resolve flow with its inline receive loop. The waiter
  channel of a cache row is the number of times it has been closed (closing a channel twice
  panics in Go); the time stamp \<^verbatim>\<open>lastSeen\<close> is written and never read, and is left out.
\<close>

definition ARPPacketLen :: nat where "ARPPacketLen = 28"
definition arpHTYPEEthernet :: u16 where "arpHTYPEEthernet = 1"
definition arpPTYPEIPv4 :: u16 where "arpPTYPEIPv4 = 0x0800"
definition arpHLNEthernet :: u8 where "arpHLNEthernet = 6"
definition arpPLNIPv4 :: u8 where "arpPLNIPv4 = 4"
definition ARPOpRequest :: u16 where "ARPOpRequest = 1"
definition ARPOpReply :: u16 where "ARPOpReply = 2"

lemmas arp_consts [wire_simps] = ARPPacketLen_def arpHTYPEEthernet_def arpPTYPEIPv4_def
  arpHLNEthernet_def arpPLNIPv4_def ARPOpRequest_def ARPOpReply_def

record arpEntry =
  ae_mac :: mac
  ae_resolved :: bool
  ae_waiter_closes :: nat

type_synonym arpTable = "u32 \<rightharpoonup> arpEntry"

definition newARPTable :: arpTable where "newARPTable = Map.empty"

definition ipKey :: "ip \<Rightarrow> u32" where "ipKey a = u32_at a 0"

definition getLocked :: "arpTable \<Rightarrow> ip \<Rightarrow> arpEntry option" where
  "getLocked t a = t (ipKey a)"

definition ensureLocked :: "ip \<Rightarrow> arpTable \<Rightarrow> arpEntry \<times> arpTable" where
  "ensureLocked a t =
     (case t (ipKey a) of
        Some e \<Rightarrow> (e, t)
      | None \<Rightarrow>
          let e = \<lparr>ae_mac = [], ae_resolved = False, ae_waiter_closes = 0\<rparr>
          in (e, t(ipKey a \<mapsto> e)))"

definition updateLocked :: "ip \<Rightarrow> mac \<Rightarrow> arpTable \<Rightarrow> arpTable" where
  "updateLocked a m t =
     (let (e, t') = ensureLocked a t;
          e' = e\<lparr>ae_mac := m\<rparr>;
          e'' = (if \<not> ae_resolved e'
                 then e'\<lparr>ae_resolved := True, ae_waiter_closes := ae_waiter_closes e' + 1\<rparr>
                 else e')
      in t'(ipKey a \<mapsto> e''))"

definition buildARPPacket :: "u16 \<Rightarrow> mac \<Rightarrow> ip \<Rightarrow> mac \<Rightarrow> ip \<Rightarrow> bytes result" where
  "buildARPPacket oper sha spa tha tpa =
     (if length sha \<noteq> 6 \<or> length tha \<noteq> 6 then Inl ErrInvalidMAC
      else case (To4 spa, To4 tpa) of
        (Some spa4, Some tpa4) \<Rightarrow>
          Inr (put16 arpHTYPEEthernet @ put16 arpPTYPEIPv4 @ [arpHLNEthernet, arpPLNIPv4] @
               put16 oper @ sha @ spa4 @ tha @ tpa4)
      | _ \<Rightarrow> Inl ErrIPv4InvalidIP)"

record arpPacket =
  ap_op :: u16
  ap_sha :: mac
  ap_spa :: ip
  ap_tha :: mac
  ap_tpa :: ip

definition parseARP :: "bytes \<Rightarrow> arpPacket result" where
  "parseARP buf =
     (if length buf < ARPPacketLen then Inl ErrARPInvalidPacket
      else if u16_at buf 0 \<noteq> arpHTYPEEthernet then Inl ErrARPInvalidPacket
      else if u16_at buf 2 \<noteq> arpPTYPEIPv4 then Inl ErrARPInvalidPacket
      else if buf ! 4 \<noteq> arpHLNEthernet \<or> buf ! 5 \<noteq> arpPLNIPv4 then Inl ErrARPInvalidPacket
      else Inr \<lparr>ap_op = u16_at buf 6, ap_sha = slice buf 8 14, ap_spa = slice buf 14 18,
                ap_tha = slice buf 18 24, ap_tpa = slice buf 24 28\<rparr>)"

text \<open>A nil address argument is the empty slice for every function that only calls \<open>To4\<close>.\<close>

definition ip_or_nil :: "ip option \<Rightarrow> ip" where
  "ip_or_nil a = (case a of None \<Rightarrow> [] | Some b \<Rightarrow> b)"

definition handleARPFrame ::
  "mac \<Rightarrow> ip option \<Rightarrow> bytes \<Rightarrow> arpTable \<Rightarrow> link \<Rightarrow> unit result \<times> arpTable \<times> link" where
  "handleARPFrame ourMAC ourIP payload t l =
     (case parseARP payload of
        Inl e \<Rightarrow> (Inl e, t, l)
      | Inr p \<Rightarrow>
          let t' = updateLocked (ap_spa p) (ap_sha p) t in
          if ap_op p = ARPOpRequest \<and> (case ourIP of Some a \<Rightarrow> ip_equal (ap_tpa p) a | None \<Rightarrow> False)
          then (case buildARPPacket ARPOpReply ourMAC (ip_or_nil ourIP) (ap_sha p) (ap_spa p) of
                  Inl e \<Rightarrow> (Inl e, t', l)
                | Inr reply \<Rightarrow>
                    (case MarshalEthernet (ap_sha p) ourMAC EtherTypeARP reply of
                       Inl e \<Rightarrow> (Inl e, t', l)
                     | Inr frame \<Rightarrow> (let (r, l') = SendFrame frame l in (r, t', l'))))
          else (Inr (), t', l))"

text \<open>The test \<^verbatim>\<open>e != nil && e.resolved\<close> with its result, made before and inside the wait loop.\<close>

definition resolvedMAC :: "arpTable \<Rightarrow> ip \<Rightarrow> mac option" where
  "resolvedMAC t a =
     (case getLocked t a of
        Some e \<Rightarrow> if ae_resolved e then Some (ae_mac e) else None
      | None \<Rightarrow> None)"

text \<open>
  The part of the wait loop that pumps one frame, and the loop itself on the iterations the
  deadline checker has left.
\<close>

definition resolveARP_poll :: "mac \<Rightarrow> ip option \<Rightarrow> arpTable \<Rightarrow> link \<Rightarrow> arpTable \<times> link" where
  "resolveARP_poll srcMAC srcIP t l =
     (case RecvFrame l of
        (None, l') \<Rightarrow> (t, l')
      | (Some rx, l') \<Rightarrow>
          (case ParseEthernet rx of
             Inl _ \<Rightarrow> (t, l')
           | Inr eth \<Rightarrow>
               if eth_EtherType eth = EtherTypeARP
               then snd (handleARPFrame srcMAC srcIP (eth_Payload eth) t l')
               else (t, l')))"

primrec resolveARP_pump ::
  "nat \<Rightarrow> mac \<Rightarrow> ip option \<Rightarrow> ip \<Rightarrow> arpTable \<Rightarrow> link \<Rightarrow> mac result \<times> arpTable \<times> link" where
  "resolveARP_pump 0 srcMAC srcIP t4 t l = (Inl ErrARPTimeout, t, l)"
| "resolveARP_pump (Suc n) srcMAC srcIP t4 t l =
     (case resolvedMAC t t4 of
        Some m \<Rightarrow> (Inr m, t, l)
      | None \<Rightarrow>
          (let (t', l') = resolveARP_poll srcMAC srcIP t l
           in resolveARP_pump n srcMAC srcIP t4 t' l'))"

definition resolveARP ::
  "mac \<Rightarrow> ip option \<Rightarrow> ip \<Rightarrow> arpTable \<Rightarrow> link \<Rightarrow> mac result \<times> arpTable \<times> link" where
  "resolveARP srcMAC srcIP target t l =
     (case To4 target of
        None \<Rightarrow> (Inl ErrIPv4InvalidIP, t, l)
      | Some t4 \<Rightarrow>
          (case resolvedMAC t t4 of
             Some m \<Rightarrow> (Inr m, t, l)
           | None \<Rightarrow>
               let t' = snd (ensureLocked t4 t) in
               (case buildARPPacket ARPOpRequest srcMAC (ip_or_nil srcIP) [0, 0, 0, 0, 0, 0] t4 of
                  Inl e \<Rightarrow> (Inl e, t', l)
                | Inr pkt \<Rightarrow>
                    (case MarshalEthernet BroadcastMAC srcMAC EtherTypeARP pkt of
                       Inl e \<Rightarrow> (Inl e, t', l)
                     | Inr frame \<Rightarrow>
                         (case SendFrame frame l of
                            (Inl e, l') \<Rightarrow> (Inl e, t', l')
                          | (Inr _, l') \<Rightarrow>
                              resolveARP_pump (dc_stop newDeadlineChecker) srcMAC srcIP t4 t' l')))))"

section \<open>The packet as a codec\<close>

lemma buildARPPacket_Inr:
  assumes "buildARPPacket oper sha spa tha tpa = Inr b"
  obtains spa4 tpa4 where "To4 spa = Some spa4" "To4 tpa = Some tpa4" "length sha = 6"
    "length tha = 6" "length spa4 = 4" "length tpa4 = 4"
    "b = [0, 1, 8, 0, 6, 4] @ put16 oper @ sha @ spa4 @ tha @ tpa4"
proof -
  have "put16 1 = [0, 1]" "put16 0x0800 = [8, 0]"
    by (simp_all add: put16_def)
  then show ?thesis
    using assms that by (auto simp: buildARPPacket_def wire_simps To4_length split: if_splits option.splits)
qed

lemma parseARP_packet:
  assumes "length sha = 6" "length tha = 6" "length spa = 4" "length tpa = 4"
  shows "parseARP ([0, 1, 8, 0, 6, 4] @ put16 oper @ sha @ spa @ tha @ tpa @ pad) =
    Inr \<lparr>ap_op = oper, ap_sha = sha, ap_spa = spa, ap_tha = tha, ap_tpa = tpa\<rparr>"
proof -
  have "be16 0 1 = 1" "be16 8 0 = 0x0800"
    by (simp_all add: be16_def)
  then show ?thesis
    using assms by (simp add: parseARP_def wire_simps slice_def)
qed

definition arp_enc :: "u16 \<times> mac \<times> ip \<times> mac \<times> ip \<Rightarrow> bytes result" where
  "arp_enc = (\<lambda>(oper, sha, spa, tha, tpa). buildARPPacket oper sha spa tha tpa)"

definition arp_view :: "u16 \<times> mac \<times> ip \<times> mac \<times> ip \<Rightarrow> arpPacket" where
  "arp_view = (\<lambda>(oper, sha, spa, tha, tpa).
     \<lparr>ap_op = oper, ap_sha = sha, ap_spa = the (To4 spa), ap_tha = tha, ap_tpa = the (To4 tpa)\<rparr>)"

interpretation arp: wire_codec arp_enc parseARP arp_view
proof unfold_locales
  fix x b assume "arp_enc x = Inr b"
  then show "parseARP b = Inr (arp_view x)"
    using parseARP_packet [where pad = "[]"]
    by (auto simp: arp_enc_def arp_view_def elim!: buildARPPacket_Inr split: prod.splits)
qed

text \<open>ARP packets travel in Ethernet frames: the two codecs stack.\<close>

interpretation arp_eth: layered_codec arp_enc parseARP arp_view eth_enc ParseEthernet eth_view
  eth_Payload
  by unfold_locales (auto simp: eth_view_def)

lemma parseARP_lengths:
  "parseARP buf = Inr p \<Longrightarrow>
   length (ap_sha p) = 6 \<and> length (ap_spa p) = 4 \<and> length (ap_tha p) = 6 \<and> length (ap_tpa p) = 4"
  by (auto simp: parseARP_def wire_simps split: if_splits)

section \<open>The cache invariant\<close>

text \<open>
  A row is resolved exactly when its waiter channel has been closed, which happens at most
  once, and a resolved row holds a six-byte address.
\<close>

definition arp_row_ok :: "arpEntry \<Rightarrow> bool" where
  "arp_row_ok e =
     (ae_waiter_closes e = (if ae_resolved e then 1 else 0) \<and>
      (ae_resolved e \<longrightarrow> length (ae_mac e) = 6))"

definition arp_ok :: "arpTable \<Rightarrow> bool" where
  "arp_ok t = (\<forall>e \<in> ran t. arp_row_ok e)"

lemma arp_okD: "arp_ok t \<Longrightarrow> t k = Some e \<Longrightarrow> arp_row_ok e"
  by (auto simp: arp_ok_def ran_def)

lemma arp_ok_upd: "arp_ok t \<Longrightarrow> arp_row_ok e \<Longrightarrow> arp_ok (t(k \<mapsto> e))"
  by (auto simp: arp_ok_def ran_def)

lemma arp_ok_new: "arp_ok newARPTable"
  by (simp add: arp_ok_def newARPTable_def)

lemma arp_ok_ensure: "arp_ok t \<Longrightarrow> arp_ok (snd (ensureLocked a t))"
  by (auto simp: ensureLocked_def Let_def arp_row_ok_def intro: arp_ok_upd split: option.splits)

lemma arp_ok_update: "arp_ok t \<Longrightarrow> length m = 6 \<Longrightarrow> arp_ok (updateLocked a m t)"
  by (auto simp: updateLocked_def ensureLocked_def Let_def arp_row_ok_def
      intro!: arp_ok_upd dest: arp_okD split: option.splits)

lemma arp_ok_handle: "arp_ok t \<Longrightarrow> arp_ok (fst (snd (handleARPFrame om oi p t l)))"
  by (auto simp: handleARPFrame_def Let_def arp_ok_update parseARP_lengths
      split: sum.splits prod.splits)

lemma arp_ok_poll: "arp_ok t \<Longrightarrow> arp_ok (fst (resolveARP_poll om oi t l))"
  using arp_ok_handle
  by (auto simp: resolveARP_poll_def split: sum.splits prod.splits option.splits)

lemma arp_ok_pump: "arp_ok t \<Longrightarrow> arp_ok (fst (snd (resolveARP_pump n om oi t4 t l)))"
proof (induction n arbitrary: t l)
  case (Suc n)
  then show ?case
    using arp_ok_poll [of t om oi l] by (auto split: option.splits prod.splits)
qed simp

lemma arp_ok_resolve: "arp_ok t \<Longrightarrow> arp_ok (fst (snd (resolveARP om oi a t l)))"
  using arp_ok_ensure
  by (auto simp: resolveARP_def Let_def intro!: arp_ok_pump split: option.splits sum.splits prod.splits)

section \<open>Resolution\<close>

text \<open>What a frame teaches about an address: the sender hardware address of an ARP packet from it.\<close>

definition teaches :: "ip \<Rightarrow> bytes \<Rightarrow> mac option" where
  "teaches a frame =
     (case ParseEthernet frame of
        Inl _ \<Rightarrow> None
      | Inr eth \<Rightarrow>
          if eth_EtherType eth \<noteq> EtherTypeARP then None
          else (case parseARP (eth_Payload eth) of
                  Inl _ \<Rightarrow> None
                | Inr p \<Rightarrow> if ap_spa p = a then Some (ap_sha p) else None))"

lemma ipKey_inject: "length a = 4 \<Longrightarrow> length b = 4 \<Longrightarrow> ipKey a = ipKey b \<longleftrightarrow> a = b"
  by (auto simp: ipKey_def u32_at_def length_eq_4)

lemma resolvedMAC_update:
  assumes "length a = 4" "length b = 4"
  shows "resolvedMAC (updateLocked b m t) a = (if a = b then Some m else resolvedMAC t a)"
  using assms ipKey_inject [of a b]
  by (auto simp: resolvedMAC_def getLocked_def updateLocked_def ensureLocked_def Let_def
      split: option.splits)

lemma resolvedMAC_ensure [simp]: "resolvedMAC (snd (ensureLocked b t)) a = resolvedMAC t a"
  by (auto simp: resolvedMAC_def getLocked_def ensureLocked_def Let_def split: option.splits)

lemma handleARPFrame_table:
  "fst (snd (handleARPFrame om oi pl t l)) =
     (case parseARP pl of Inl _ \<Rightarrow> t | Inr p \<Rightarrow> updateLocked (ap_spa p) (ap_sha p) t)"
  by (auto simp: handleARPFrame_def Let_def split: sum.splits prod.splits)

lemma handleARPFrame_rx [simp]: "lk_rx (snd (snd (handleARPFrame om oi pl t l))) = lk_rx l"
  by (auto simp: handleARPFrame_def Let_def case_prod_beta split: sum.splits)

lemma poll_learns:
  assumes "length a = 4" "lk_rx l = r # rs"
  shows "resolvedMAC (fst (resolveARP_poll om oi t l)) a =
      (case Option.bind r (teaches a) of Some m \<Rightarrow> Some m | None \<Rightarrow> resolvedMAC t a)"
    and "lk_rx (snd (resolveARP_poll om oi t l)) = rs"
  using assms
  by (auto simp: resolveARP_poll_def RecvFrame_def teaches_def handleARPFrame_table resolvedMAC_update
      parseARP_lengths split: option.splits sum.splits)

lemma poll_empty: "lk_rx l = [] \<Longrightarrow> resolveARP_poll om oi t l = (t, l)"
  by (simp add: resolveARP_poll_def RecvFrame_def)

text \<open>
  The exact result of the wait loop: the address taught by the first informative frame, if it is
  among those polled before the last iteration, and a timeout otherwise.
\<close>

definition learned :: "ip \<Rightarrow> bytes option list \<Rightarrow> mac result" where
  "learned a rs =
     (case List.map_filter (\<lambda>r. Option.bind r (teaches a)) rs of
        [] \<Rightarrow> Inl ErrARPTimeout | m # _ \<Rightarrow> Inr m)"

lemma pump_cached: "resolvedMAC t a = Some m \<Longrightarrow> fst (resolveARP_pump n om oi a t l) =
    (case n of 0 \<Rightarrow> Inl ErrARPTimeout | Suc _ \<Rightarrow> Inr m)"
  by (cases n) simp_all

lemma pump_learned:
  assumes "length a = 4" "resolvedMAC t a = None"
  shows "fst (resolveARP_pump (Suc n) om oi a t l) = learned a (take n (lk_rx l))"
  using assms
proof (induction n arbitrary: t l)
  case 0
  then show ?case by (simp add: learned_def case_prod_beta map_filter_simps)
next
  case (Suc n)
  obtain t' l' where p: "resolveARP_poll om oi t l = (t', l')"
    by fastforce
  then have step: "resolveARP_pump (Suc (Suc n)) om oi a t l = resolveARP_pump (Suc n) om oi a t' l'"
    using Suc.prems by simp
  show ?case
  proof (cases "lk_rx l")
    case Nil
    then have "t' = t" "l' = l"
      using p poll_empty [OF Nil, of om oi t] by auto
    then show ?thesis
      using Suc Nil step by simp
  next
    case (Cons r rs)
    have r: "resolvedMAC t' a = Option.bind r (teaches a)" "lk_rx l' = rs"
      using p poll_learns [OF Suc.prems(1) Cons, of om oi t] Suc.prems(2) by (auto split: option.splits)
    show ?thesis
    proof (cases "Option.bind r (teaches a)")
      case None
      then show ?thesis
        using Suc.IH [of t' l'] Suc.prems r Cons step by (simp add: learned_def map_filter_simps)
    next
      case (Some m)
      then show ?thesis
        using r Cons step pump_cached [of t' a m "Suc n"] by (simp add: learned_def map_filter_simps)
    qed
  qed
qed

lemma buildARPPacket_request:
  "length sm = 6 \<Longrightarrow> length sip = 4 \<Longrightarrow> length a = 4 \<Longrightarrow>
   buildARPPacket ARPOpRequest sm sip [0, 0, 0, 0, 0, 0] a =
     Inr ([0, 1, 8, 0, 6, 4, 0, 1] @ sm @ sip @ [0, 0, 0, 0, 0, 0] @ a)"
  by (simp add: buildARPPacket_def wire_simps)

lemma resolveARP_sends:
  assumes "length sm = 6" "length sip = 4" "length a = 4" "resolvedMAC t a = None"
    and "lk_refuse l (lk_calls l) = None"
  shows "resolveARP sm (Some sip) a t l =
    resolveARP_pump maxPumpIters sm (Some sip) a (snd (ensureLocked a t))
      (l\<lparr>lk_calls := Suc (lk_calls l),
         lk_tx := lk_tx l @ [BroadcastMAC @ sm @ put16 EtherTypeARP @
           [0, 1, 8, 0, 6, 4, 0, 1] @ sm @ sip @ [0, 0, 0, 0, 0, 0] @ a]\<rparr>)"
  using assms
  by (simp add: resolveARP_def ip_or_nil_def buildARPPacket_request MarshalEthernet_ok SendFrame_ok
      newDeadlineChecker_def)

text \<open>What has been transmitted stays transmitted: the log only grows.\<close>

lemma SendFrame_grows: "prefix (lk_tx l) (lk_tx (snd (SendFrame f l)))"
  by (simp add: SendFrame_def Let_def split: option.splits)

lemma handleARPFrame_grows: "prefix (lk_tx l) (lk_tx (snd (snd (handleARPFrame om oi pl t l))))"
  by (simp add: handleARPFrame_def Let_def case_prod_beta SendFrame_grows split: sum.splits)

lemma resolveARP_poll_grows: "prefix (lk_tx l) (lk_tx (snd (resolveARP_poll om oi t l)))"
  using handleARPFrame_grows [of "snd (RecvFrame l)"]
  by (simp add: resolveARP_poll_def case_prod_beta split: option.splits sum.splits)

lemma resolveARP_pump_grows: "prefix (lk_tx l) (lk_tx (snd (snd (resolveARP_pump n om oi a t l))))"
proof (induction n arbitrary: t l)
  case (Suc n)
  then show ?case
    using resolveARP_poll_grows [of l om oi t]
    by (auto simp: case_prod_beta split: option.splits intro: prefix_order.trans)
qed simp

section \<open>Properties\<close>



text \<open>
  An address in the cache is answered from the cache, without sending or receiving a frame.
\<close>

lemma resolveARP_cached:
  assumes "To4 a = Some a4" "resolvedMAC t a4 = Some m"
  shows "resolveARP sm sip a t l = (Inr m, t, l)"
  using assms by (simp add: resolveARP_def)

text \<open>
  Every frame that is not ARP and arrives while an address is being resolved is taken from the
  link and lost: the poll step leaves nothing of it behind for the caller that pumps later.
\<close>

lemma resolveARP_discards:
  assumes "lk_rx l = Some f # rs" "ParseEthernet f = Inr eth" "eth_EtherType eth \<noteq> EtherTypeARP"
  shows "resolveARP_poll sm sip t l = (t, l\<lparr>lk_rx := rs\<rparr>)"
  using assms by (simp add: resolveARP_poll_def RecvFrame_def)

end
