(* ===== verification/Ip_Output.thy ===== *)
theory Ip_Output
  imports Arp
begin

text \<open>
  The part of \<^verbatim>\<open>Stack\<close> (\<^verbatim>\<open>uefiboard/ministack/stack.go\<close>) that sending an IPv4 packet reads and
  writes: the link, the ARP cache, the route table, the packet counter and the closed flag. The full
  stack of the theory \<open>Net_Stack\<close> extends this record, so the operations here are stated for every
  extension of it. The mutexes guard sections that run to completion in the sequential model.
\<close>

record net =
  st_link :: link
  st_arpCache :: arpTable
  st_route :: RouteTable
  st_ipID :: u16
  st_closed :: bool

definition nextIPID :: "'a net_scheme \<Rightarrow> u16 \<times> 'a net_scheme" where
  "nextIPID s = (st_ipID s, s\<lparr>st_ipID := st_ipID s + 1\<rparr>)"

definition sendOnLink :: "bytes \<Rightarrow> 'a net_scheme \<Rightarrow> unit result \<times> 'a net_scheme" where
  "sendOnLink frame s = (let (r, l) = SendFrame frame (st_link s) in (r, s\<lparr>st_link := l\<rparr>))"

definition sendIPv4Frame :: "ip \<Rightarrow> bytes \<Rightarrow> 'a net_scheme \<Rightarrow> unit result \<times> 'a net_scheme" where
  "sendIPv4Frame finalDst ipPkt s =
     (if st_closed s then (Inl ErrStackClosed, s)
      else let srcMAC = lk_MAC (st_link s); srcIP = rt_Local (st_route s) in
      case Lookup (st_route s) finalDst of
        Inl e \<Rightarrow> (Inl e, s)
      | Inr nextHop \<Rightarrow>
          (case resolveARP srcMAC srcIP nextHop (st_arpCache s) (st_link s) of
             (Inl e, t, l) \<Rightarrow> (Inl e, s\<lparr>st_arpCache := t, st_link := l\<rparr>)
           | (Inr m, t, l) \<Rightarrow>
               let s' = s\<lparr>st_arpCache := t, st_link := l\<rparr> in
               (case MarshalEthernet m srcMAC EtherTypeIPv4 ipPkt of
                  Inl e \<Rightarrow> (Inl e, s')
                | Inr frame \<Rightarrow> sendOnLink frame s')))"

text \<open>What sending leaves alone, and the invariants it keeps.\<close>

definition net_ok :: "'a net_scheme \<Rightarrow> bool" where
  "net_ok s = (arp_ok (st_arpCache s) \<and> route_ok (st_route s) \<and> length (lk_MAC (st_link s)) = 6)"

lemma handleARPFrame_MAC [simp]: "lk_MAC (snd (snd (handleARPFrame om oi pl t l))) = lk_MAC l"
  by (auto simp: handleARPFrame_def Let_def case_prod_beta split: sum.splits)

lemma resolveARP_poll_MAC [simp]: "lk_MAC (snd (resolveARP_poll om oi t l)) = lk_MAC l"
  by (simp add: resolveARP_poll_def case_prod_beta split: option.splits sum.splits)

lemma resolveARP_pump_MAC [simp]: "lk_MAC (snd (snd (resolveARP_pump n om oi a t l))) = lk_MAC l"
  by (induction n arbitrary: t l) (auto simp: case_prod_beta split: option.splits)

lemma resolveARP_MAC [simp]: "lk_MAC (snd (snd (resolveARP om oi a t l))) = lk_MAC l"
  by (simp add: resolveARP_def Let_def case_prod_beta split: option.splits sum.splits)

lemma sendOnLink_frame [simp]:
  "st_arpCache (snd (sendOnLink f s)) = st_arpCache s" "st_route (snd (sendOnLink f s)) = st_route s"
  "st_ipID (snd (sendOnLink f s)) = st_ipID s" "st_closed (snd (sendOnLink f s)) = st_closed s"
  "lk_MAC (st_link (snd (sendOnLink f s))) = lk_MAC (st_link s)"
  "net.more (snd (sendOnLink f s)) = net.more s"
  by (simp_all add: sendOnLink_def case_prod_beta)

lemma nextIPID_frame [simp]:
  "st_arpCache (snd (nextIPID s)) = st_arpCache s" "st_route (snd (nextIPID s)) = st_route s"
  "st_link (snd (nextIPID s)) = st_link s" "st_closed (snd (nextIPID s)) = st_closed s"
  "net.more (snd (nextIPID s)) = net.more s" "fst (nextIPID s) = st_ipID s"
  by (simp_all add: nextIPID_def)

lemma sendIPv4Frame_frame [simp]:
  "st_route (snd (sendIPv4Frame d p s)) = st_route s"
  "st_ipID (snd (sendIPv4Frame d p s)) = st_ipID s"
  "st_closed (snd (sendIPv4Frame d p s)) = st_closed s"
  "net.more (snd (sendIPv4Frame d p s)) = net.more s"
  by (auto simp: sendIPv4Frame_def Let_def split: sum.splits prod.splits)

lemma net_ok_sendIPv4Frame:
  assumes "net_ok s"
  shows "net_ok (snd (sendIPv4Frame d p s))"
proof -
  have "arp_ok (st_arpCache (snd (sendIPv4Frame d p s)))"
    using assms arp_ok_resolve [of "st_arpCache s"]
    by (simp add: sendIPv4Frame_def Let_def net_ok_def case_prod_beta split: sum.splits)
  moreover have "lk_MAC (st_link (snd (sendIPv4Frame d p s))) = lk_MAC (st_link s)"
    by (simp add: sendIPv4Frame_def Let_def case_prod_beta split: sum.splits)
  ultimately show ?thesis
    using assms by (simp add: net_ok_def)
qed

lemma net_ok_nextIPID [simp]: "net_ok (snd (nextIPID s)) = net_ok s"
  by (simp add: net_ok_def)

lemma net_ok_sendOnLink [simp]: "net_ok (snd (sendOnLink f s)) = net_ok s"
  by (simp add: net_ok_def)

text \<open>With the next hop in the cache the packet leaves in one frame, addressed to that hop.\<close>

lemma sendIPv4Frame_cached:
  assumes "\<not> st_closed s" "Lookup (st_route s) d = Inr nh" "length nh = 4"
    and "resolvedMAC (st_arpCache s) nh = Some m" "length m = 6" "length (lk_MAC (st_link s)) = 6"
    and "length p \<le> 1500"
  shows "sendIPv4Frame d p s =
    sendOnLink (m @ lk_MAC (st_link s) @ put16 EtherTypeIPv4 @ p) s"
  using assms by (simp add: sendIPv4Frame_def resolveARP_def MarshalEthernet_ok Let_def)

end
