(* ===== verification/Tcp4.thy ===== *)
theory Tcp4
  imports Ip_Output
begin

text \<open>
  TCP over IPv4, the connection half of \<^verbatim>\<open>uefiboard/ministack/tcp4.go\<close>: the header with its
  pseudo-header checksum, the connection block, sequence-number comparison, the receive path with
  its reassembly queue, and the state machine driven by incoming segments. Sending goes through
  \<open>sendIPv4Frame\<close>. The calls that pump the receive path of the whole stack (\<^verbatim>\<open>Read\<close>, \<^verbatim>\<open>Write\<close>,
  \<^verbatim>\<open>Close\<close>, the dial) are in the theory \<open>Net_Stack\<close>.
\<close>

definition TCP4HeaderLen :: nat where "TCP4HeaderLen = 20"
definition TCP4DefaultMSS :: nat where "TCP4DefaultMSS = 1460"
definition TCP4DefaultWindow :: u16 where "TCP4DefaultWindow = 32768"
definition TCP4MaxRetransmits :: nat where "TCP4MaxRetransmits = 3"
definition TCP4ReassemblyDepth :: nat where "TCP4ReassemblyDepth = 8"

definition TCPFlagFIN :: u8 where "TCPFlagFIN = 0x01"
definition TCPFlagSYN :: u8 where "TCPFlagSYN = 0x02"
definition TCPFlagRST :: u8 where "TCPFlagRST = 0x04"
definition TCPFlagPSH :: u8 where "TCPFlagPSH = 0x08"
definition TCPFlagACK :: u8 where "TCPFlagACK = 0x10"
definition TCPFlagURG :: u8 where "TCPFlagURG = 0x20"

lemmas tcp_flag_defs = TCPFlagFIN_def TCPFlagSYN_def TCPFlagRST_def TCPFlagPSH_def TCPFlagACK_def

datatype tcp4State =
    tcpClosed | tcpSynSent | tcpEstablished | tcpFinWait1 | tcpFinWait2
  | tcpCloseWait | tcpClosing | tcpLastAck | tcpTimeWait

record TCP4Header =
  th_SrcPort :: u16
  th_DstPort :: u16
  th_Seq :: u32
  th_Ack :: u32
  th_DataOffset :: u8
  th_Flags :: u8
  th_Window :: u16
  th_Checksum :: u16
  th_Urgent :: u16

definition tcp4Checksum :: "ip \<Rightarrow> ip \<Rightarrow> bytes \<Rightarrow> u16" where
  "tcp4Checksum src dst tcp =
     (case (To4 src, To4 dst) of
        (Some s4, Some d4) \<Rightarrow>
          let pseudo = s4 @ d4 @ [0, IPProtoTCP] @ put16 (of_nat (length tcp))
          in InternetChecksum (pseudo @ tcp)
      | _ \<Rightarrow> 0)"

definition ParseTCP4 :: "ip \<Rightarrow> ip \<Rightarrow> bytes \<Rightarrow> (TCP4Header \<times> bytes) result" where
  "ParseTCP4 src dst pkt =
     (if length pkt < TCP4HeaderLen then Inl ErrTCP4HeaderTooShort
      else let dataOff = drop_bit 4 (pkt ! 12); hdrLen = unat dataOff * 4 in
      if hdrLen < TCP4HeaderLen \<or> hdrLen > length pkt then Inl ErrTCP4HeaderTooShort
      else let h = \<lparr>th_SrcPort = u16_at pkt 0, th_DstPort = u16_at pkt 2, th_Seq = u32_at pkt 4,
                    th_Ack = u32_at pkt 8, th_DataOffset = dataOff, th_Flags = pkt ! 13,
                    th_Window = u16_at pkt 14, th_Checksum = u16_at pkt 16,
                    th_Urgent = u16_at pkt 18\<rparr>;
               got = tcp4Checksum src dst (set16 pkt 16 0) in
      if got \<noteq> th_Checksum h then Inl ErrTCP4BadChecksum
      else Inr (h, drop hdrLen pkt))"

definition MarshalTCP4 ::
  "ip \<Rightarrow> ip \<Rightarrow> u16 \<Rightarrow> u16 \<Rightarrow> u32 \<Rightarrow> u32 \<Rightarrow> u8 \<Rightarrow> u16 \<Rightarrow> bytes \<Rightarrow> bytes result" where
  "MarshalTCP4 src dst srcPort dstPort seq ack flags window payload =
     (let buf = put16 srcPort @ put16 dstPort @ put32 seq @ put32 ack @ [0x50, flags] @
                put16 window @ [0, 0] @ put16 0 @ payload;
          cksum = tcp4Checksum src dst buf;
          cksum' = (if cksum = 0 then 0xFFFF else cksum)
      in Inr (set16 buf 16 cksum'))"

section \<open>The connection block\<close>

record tcp4ReassemblyEntry =
  re_seq :: u32
  re_payload :: bytes
  re_fin :: bool

record TCP4Conn =
  tc_localIP :: ip
  tc_localPort :: u16
  tc_remoteIP :: ip
  tc_remotePort :: u16
  tc_state :: tcp4State
  tc_sndUna :: u32
  tc_sndNxt :: u32
  tc_sndWnd :: u16
  tc_rcvNxt :: u32
  tc_rcvWnd :: u16
  tc_rxQueue :: bytes
  tc_reassembly :: "tcp4ReassemblyEntry list"
  tc_peerFinSeen :: bool
  tc_closed :: bool
  tc_readDeadline :: int
  tc_writeDeadline :: int

definition tcpSetDeadline :: "int \<Rightarrow> TCP4Conn \<Rightarrow> TCP4Conn" where
  "tcpSetDeadline d c = c\<lparr>tc_readDeadline := d, tc_writeDeadline := d\<rparr>"

definition tcpSetReadDeadline :: "int \<Rightarrow> TCP4Conn \<Rightarrow> TCP4Conn" where
  "tcpSetReadDeadline d c = c\<lparr>tc_readDeadline := d\<rparr>"

definition tcpSetWriteDeadline :: "int \<Rightarrow> TCP4Conn \<Rightarrow> TCP4Conn" where
  "tcpSetWriteDeadline d c = c\<lparr>tc_writeDeadline := d\<rparr>"

text \<open>Comparison in the 32-bit sequence space: the sign of the wrapped difference.\<close>

definition seqLT :: "u32 \<Rightarrow> u32 \<Rightarrow> bool" where "seqLT a b = (sint (a - b) < 0)"
definition seqGT :: "u32 \<Rightarrow> u32 \<Rightarrow> bool" where "seqGT a b = (sint (a - b) > 0)"

definition tcp4InitialSeq :: "mac \<Rightarrow> u16 \<Rightarrow> u32" where
  "tcp4InitialSeq m localPort =
     (if length m < 6 then ucast localPort XOR 0xCAFEBABE
      else u32_at m 0 XOR push_bit 16 (ucast (u16_at m 4)) XOR ucast localPort)"

definition sendSegment ::
  "u8 \<Rightarrow> u32 \<Rightarrow> u32 \<Rightarrow> bytes \<Rightarrow> TCP4Conn \<Rightarrow> 'a net_scheme \<Rightarrow> unit result \<times> 'a net_scheme" where
  "sendSegment flags seq ack payload c s =
     (case MarshalTCP4 (tc_localIP c) (tc_remoteIP c) (tc_localPort c) (tc_remotePort c) seq ack flags
             (tc_rcvWnd c) payload of
        Inl e \<Rightarrow> (Inl e, s)
      | Inr seg \<Rightarrow>
          (let (i, s') = nextIPID s in
           case MarshalIPv4 (tc_localIP c) (tc_remoteIP c) IPProtoTCP i seg of
             Inl e \<Rightarrow> (Inl e, s')
           | Inr ipPkt \<Rightarrow> sendIPv4Frame (tc_remoteIP c) ipPkt s'))"

section \<open>The receive path\<close>

text \<open>The inner scan of the drain loop: the first parked segment that starts at the given number.\<close>

primrec findSeq :: "u32 \<Rightarrow> tcp4ReassemblyEntry list \<Rightarrow> nat option" where
  "findSeq n [] = None"
| "findSeq n (e # es) = (if re_seq e = n then Some 0 else map_option Suc (findSeq n es))"

lemma findSeq_Some: "findSeq n es = Some i \<Longrightarrow> i < length es \<and> re_seq (es ! i) = n"
  by (induction es arbitrary: i) (auto split: if_splits)

text \<open>Appending one in-order segment to the stream, as both callers do.\<close>

definition appendSegment :: "bytes \<Rightarrow> bool \<Rightarrow> TCP4Conn \<Rightarrow> TCP4Conn" where
  "appendSegment payload fin c =
     (let c' = c\<lparr>tc_rxQueue := tc_rxQueue c @ payload,
                 tc_rcvNxt := tc_rcvNxt c + of_nat (length payload)\<rparr>
      in if fin then c'\<lparr>tc_peerFinSeen := True, tc_rcvNxt := tc_rcvNxt c' + 1\<rparr> else c')"

lemma appendSegment_reassembly [simp]: "tc_reassembly (appendSegment p f c) = tc_reassembly c"
  by (simp add: appendSegment_def Let_def)

function drainReassemblyLocked :: "TCP4Conn \<Rightarrow> TCP4Conn" where
  "drainReassemblyLocked c =
     (case findSeq (tc_rcvNxt c) (tc_reassembly c) of
        None \<Rightarrow> c
      | Some matched \<Rightarrow>
          let e = tc_reassembly c ! matched;
              c' = appendSegment (re_payload e) (re_fin e) c
          in drainReassemblyLocked
               (c'\<lparr>tc_reassembly := take matched (tc_reassembly c') @ drop (matched + 1) (tc_reassembly c')\<rparr>))"
  by pat_completeness auto
termination
  by (relation "measure (\<lambda>c. length (tc_reassembly c))") (auto dest!: findSeq_Some)

declare drainReassemblyLocked.simps [simp del]

definition acceptSegmentLocked ::
  "u32 \<Rightarrow> bytes \<Rightarrow> bool \<Rightarrow> TCP4Conn \<Rightarrow> 'a net_scheme \<Rightarrow> TCP4Conn \<times> 'a net_scheme" where
  "acceptSegmentLocked seq payload finFlag c s =
     (if seq = tc_rcvNxt c then
        let c' = drainReassemblyLocked (appendSegment payload finFlag c)
        in (c', snd (sendSegment TCPFlagACK (tc_sndNxt c') (tc_rcvNxt c') [] c' s))
      else if seqGT seq (tc_rcvNxt c) \<and> length (tc_reassembly c) < TCP4ReassemblyDepth then
        let c' = c\<lparr>tc_reassembly := tc_reassembly c @
                     [\<lparr>re_seq = seq, re_payload = payload, re_fin = finFlag\<rparr>]\<rparr>
        in (c', snd (sendSegment TCPFlagACK (tc_sndNxt c') (tc_rcvNxt c') [] c' s))
      else (c, snd (sendSegment TCPFlagACK (tc_sndNxt c) (tc_rcvNxt c) [] c s)))"

text \<open>The two transition blocks at the end of the data states.\<close>

definition finTransitions :: "TCP4Header \<Rightarrow> TCP4Conn \<Rightarrow> TCP4Conn" where
  "finTransitions h c =
     (let c' = (if tc_state c = tcpFinWait1 \<and> th_Ack h = tc_sndNxt c
                then c\<lparr>tc_state := tcpFinWait2\<rparr> else c)
      in if tc_peerFinSeen c' then
           (case tc_state c' of
              tcpEstablished \<Rightarrow> c'\<lparr>tc_state := tcpCloseWait\<rparr>
            | tcpFinWait1 \<Rightarrow>
                if th_Ack h = tc_sndNxt c' then c'\<lparr>tc_state := tcpTimeWait\<rparr>
                else c'\<lparr>tc_state := tcpClosing\<rparr>
            | tcpFinWait2 \<Rightarrow> c'\<lparr>tc_state := tcpTimeWait\<rparr>
            | _ \<Rightarrow> c')
         else c')"

definition deliverData ::
  "TCP4Header \<Rightarrow> bytes \<Rightarrow> TCP4Conn \<Rightarrow> 'a net_scheme \<Rightarrow> TCP4Conn \<times> 'a net_scheme" where
  "deliverData h payload c s =
     (if th_Flags h AND TCPFlagACK = 0 then (c, s)
      else
        let c1 = (if seqGT (th_Ack h) (tc_sndUna c) then c\<lparr>tc_sndUna := th_Ack h\<rparr> else c);
            fin = (th_Flags h AND TCPFlagFIN \<noteq> 0);
            (c2, s2) = (if length payload > 0 \<or> fin
                        then acceptSegmentLocked (th_Seq h) payload fin c1 s else (c1, s))
        in (finTransitions h c2, s2))"

definition deliverSegment ::
  "TCP4Header \<Rightarrow> bytes \<Rightarrow> TCP4Conn \<Rightarrow> 'a net_scheme \<Rightarrow> TCP4Conn \<times> 'a net_scheme" where
  "deliverSegment h payload c0 s =
     (if tc_closed c0 then (c0, s)
      else if th_Flags h AND TCPFlagRST \<noteq> 0
      then (c0\<lparr>tc_state := tcpClosed, tc_closed := True\<rparr>, s)
      else let c = c0\<lparr>tc_sndWnd := th_Window h\<rparr> in
      case tc_state c of
        tcpSynSent \<Rightarrow>
          if th_Flags h AND TCPFlagSYN = 0 \<or> th_Flags h AND TCPFlagACK = 0 then (c, s)
          else if th_Ack h \<noteq> tc_sndNxt c then (c, s)
          else let c' = c\<lparr>tc_rcvNxt := th_Seq h + 1, tc_sndUna := th_Ack h, tc_state := tcpEstablished\<rparr>
               in (c', snd (sendSegment TCPFlagACK (tc_sndNxt c') (tc_rcvNxt c') [] c' s))
      | tcpLastAck \<Rightarrow>
          (if th_Flags h AND TCPFlagACK \<noteq> 0 \<and> th_Ack h = tc_sndNxt c
           then c\<lparr>tc_state := tcpClosed\<rparr> else c, s)
      | tcpClosing \<Rightarrow>
          (if th_Flags h AND TCPFlagACK \<noteq> 0 \<and> th_Ack h = tc_sndNxt c
           then c\<lparr>tc_state := tcpTimeWait\<rparr> else c, s)
      | tcpTimeWait \<Rightarrow> (c, s)
      | tcpClosed \<Rightarrow> (c, s)
      | _ \<Rightarrow> deliverData h payload c s)"

section \<open>The segment as a codec\<close>

definition tcp_zeroed :: "u16 \<Rightarrow> u16 \<Rightarrow> u32 \<Rightarrow> u32 \<Rightarrow> u8 \<Rightarrow> u16 \<Rightarrow> bytes \<Rightarrow> bytes" where
  "tcp_zeroed sp dp seq ack fl w payload =
     put16 sp @ put16 dp @ put32 seq @ put32 ack @ [0x50, fl] @ put16 w @ [0, 0] @ put16 0 @ payload"

definition tcp_cksum :: "ip \<Rightarrow> ip \<Rightarrow> u16 \<Rightarrow> u16 \<Rightarrow> u32 \<Rightarrow> u32 \<Rightarrow> u8 \<Rightarrow> u16 \<Rightarrow> bytes \<Rightarrow> u16" where
  "tcp_cksum src dst sp dp seq ack fl w payload =
     tcp4Checksum src dst (tcp_zeroed sp dp seq ack fl w payload)"

definition tcp_segment :: "u16 \<Rightarrow> u16 \<Rightarrow> u32 \<Rightarrow> u32 \<Rightarrow> u8 \<Rightarrow> u16 \<Rightarrow> u16 \<Rightarrow> bytes \<Rightarrow> bytes" where
  "tcp_segment sp dp seq ack fl w ck payload =
     put16 sp @ put16 dp @ put32 seq @ put32 ack @ [0x50, fl] @ put16 w @ put16 ck @ put16 0 @ payload"

lemma MarshalTCP4_eq:
  "MarshalTCP4 src dst sp dp seq ack fl w payload =
     (let ck = tcp_cksum src dst sp dp seq ack fl w payload
      in Inr (tcp_segment sp dp seq ack fl w (if ck = 0 then 0xFFFF else ck) payload))"
  by (simp add: MarshalTCP4_def tcp_cksum_def tcp_segment_def tcp_zeroed_def Let_def set16_def put16_def
      put32_def)

lemma length_tcp_segment [simp]: "length (tcp_segment sp dp seq ack fl w ck payload) = 20 + length payload"
  by (simp add: tcp_segment_def)

lemma ParseTCP4_segment:
  "ParseTCP4 src dst (tcp_segment sp dp seq ack fl w ck payload) =
    (if tcp_cksum src dst sp dp seq ack fl w payload \<noteq> ck then Inl ErrTCP4BadChecksum
     else Inr (\<lparr>th_SrcPort = sp, th_DstPort = dp, th_Seq = seq, th_Ack = ack, th_DataOffset = 5,
                th_Flags = fl, th_Window = w, th_Checksum = ck, th_Urgent = 0\<rparr>, payload))"
proof -
  let ?g = "tcp_segment sp dp seq ack fl w ck payload"
  have "be16 0 0 = 0"
    by (simp add: be16_def)
  then have u: "u16_at ?g 0 = sp" "u16_at ?g 2 = dp" "u32_at ?g 4 = seq" "u32_at ?g 8 = ack"
      "u16_at ?g 14 = w" "u16_at ?g 16 = ck" "u16_at ?g 18 = 0" "?g ! 13 = fl" "?g ! 12 = 0x50"
    by (simp_all add: tcp_segment_def wire_simps)
  have z: "set16 ?g 16 0 = tcp_zeroed sp dp seq ack fl w payload"
    by (simp add: tcp_segment_def tcp_zeroed_def put16_def put32_def set16_def)
  have d: "drop 20 ?g = payload" "drop_bit 4 (0x50 :: u8) = 5"
    by (simp_all add: tcp_segment_def put16_def put32_def)
  show ?thesis
    by (simp add: ParseTCP4_def Let_def u z d TCP4HeaderLen_def tcp_cksum_def)
qed

section \<open>Properties\<close>

text \<open>
  A segment whose computed checksum is not zero is parsed back exactly, with data offset 5 and
  urgent pointer 0; one whose computed checksum is zero is sent as 0xFFFF and refused by the parser.
\<close>

lemma tcp4_roundtrip:
  "\<exists>w. MarshalTCP4 src dst sp dp seq ack fl win payload = Inr w \<and> length w = 20 + length payload \<and>
    ParseTCP4 src dst w =
      (if tcp_cksum src dst sp dp seq ack fl win payload = 0 then Inl ErrTCP4BadChecksum
       else Inr (\<lparr>th_SrcPort = sp, th_DstPort = dp, th_Seq = seq, th_Ack = ack, th_DataOffset = 5,
                  th_Flags = fl, th_Window = win,
                  th_Checksum = tcp_cksum src dst sp dp seq ack fl win payload, th_Urgent = 0\<rparr>, payload))"
  by (auto simp: MarshalTCP4_eq Let_def ParseTCP4_segment)

text \<open>
  The refused case occurs: there is a segment that the stack builds and its own parser rejects.
\<close>

lemma tcp4_own_segment_refused:
  "\<exists>payload w. MarshalTCP4 [10, 0, 2, 15] [10, 0, 2, 2] 49152 80 1 1 TCPFlagACK 32768 payload = Inr w \<and>
    ParseTCP4 [10, 0, 2, 15] [10, 0, 2, 2] w = Inl ErrTCP4BadChecksum"
proof -
  have "tcp_cksum [10, 0, 2, 15] [10, 0, 2, 2] 49152 80 1 1 TCPFlagACK 32768 [0x57, 0x6F] = 0"
    by code_simp
  then have "MarshalTCP4 [10, 0, 2, 15] [10, 0, 2, 2] 49152 80 1 1 TCPFlagACK 32768 [0x57, 0x6F] =
        Inr (tcp_segment 49152 80 1 1 TCPFlagACK 32768 0xFFFF [0x57, 0x6F])"
      "ParseTCP4 [10, 0, 2, 15] [10, 0, 2, 2] (tcp_segment 49152 80 1 1 TCPFlagACK 32768 0xFFFF [0x57, 0x6F]) =
        Inl ErrTCP4BadChecksum"
    by (simp_all add: MarshalTCP4_eq ParseTCP4_segment)
  then show ?thesis by blast
qed

end
