(* ===== verification/Tcp_Stream.thy ===== *)
theory Tcp_Stream
  imports Tcp4
begin

text \<open>
  What the receive path of a TCP connection promises: the bytes handed to the application are a
  prefix of what the peer sent, whatever the network does to the segments; the reassembly queue is
  bounded; and the connection state moves only along the edges of the state diagram.
\<close>

section \<open>Sequence numbers\<close>

lemma of_nat_u32_inject:
  "m < 4294967296 \<Longrightarrow> n < 4294967296 \<Longrightarrow> (of_nat m :: u32) = of_nat n \<longleftrightarrow> m = n"
  by (simp add: word_of_nat_eq_iff take_bit_nat_eq_self)

lemma sint_of_nat_small: "k < 2147483648 \<Longrightarrow> sint (of_nat k :: u32) = int k"
  by (simp add: signed_of_nat signed_take_bit_int_eq_self)

lemma sint_neg_of_nat_small: "k \<le> 2147483648 \<Longrightarrow> sint (- of_nat k :: u32) = - int k"
proof -
  assume "k \<le> 2147483648"
  moreover have "sint (- of_nat k :: u32) = signed_take_bit 31 (- int k)"
    using sint_sbintrunc' [where 'a = 32, of "- int k"] by simp
  ultimately show ?thesis
    by (simp add: signed_take_bit_int_eq_self)
qed

lemma seqGT_ahead: "0 < k \<Longrightarrow> k < 2147483648 \<Longrightarrow> seqGT (a + of_nat k) a"
  by (simp add: seqGT_def sint_of_nat_small)

lemma seqLT_behind: "0 < k \<Longrightarrow> k < 2147483648 \<Longrightarrow> seqLT a (a + of_nat k)"
  using sint_neg_of_nat_small [of k] by (simp add: seqLT_def)

lemma seqGT_asym: "seqGT a b \<Longrightarrow> \<not> seqGT b a"
proof -
  assume "seqGT a b"
  then have p: "0 < sint (a - b)" by (simp add: seqGT_def)
  define k where "k = nat (sint (a - b))"
  have "sint (a - b) < 2147483648"
    using sint_lt [of "a - b"] by simp
  then have k: "k < 2147483648" "sint (a - b) = int k" "0 < k"
    using p by (auto simp: k_def)
  have "a - b = of_nat k"
    using k(2) sint_of_nat_small [OF k(1)] by (intro signed_word_eqI [where 'a = int]) simp
  then have "b - a = - of_nat k" by (metis minus_diff_eq)
  then show "\<not> seqGT b a"
    using sint_neg_of_nat_small [of k] k(1,3) by (simp add: seqGT_def)
qed

section \<open>What the receive path leaves alone\<close>

lemma appendSegment_simps [simp]:
  "tc_rxQueue (appendSegment p f c) = tc_rxQueue c @ p"
  "tc_rcvNxt (appendSegment p f c) = tc_rcvNxt c + of_nat (length p) + (if f then 1 else 0)"
  "tc_peerFinSeen (appendSegment p f c) = (tc_peerFinSeen c \<or> f)"
  "tc_state (appendSegment p f c) = tc_state c"
  "tc_closed (appendSegment p f c) = tc_closed c"
  "tc_sndNxt (appendSegment p f c) = tc_sndNxt c"
  "tc_sndUna (appendSegment p f c) = tc_sndUna c"
  "tc_localPort (appendSegment p f c) = tc_localPort c"
  "tc_remotePort (appendSegment p f c) = tc_remotePort c"
  "tc_localIP (appendSegment p f c) = tc_localIP c"
  "tc_remoteIP (appendSegment p f c) = tc_remoteIP c"
  by (simp_all add: appendSegment_def Let_def)

text \<open>One round of the drain loop.\<close>

definition mergeEntry :: "nat \<Rightarrow> TCP4Conn \<Rightarrow> TCP4Conn" where
  "mergeEntry i c =
     (appendSegment (re_payload (tc_reassembly c ! i)) (re_fin (tc_reassembly c ! i)) c)
       \<lparr>tc_reassembly := take i (tc_reassembly c) @ drop (i + 1) (tc_reassembly c)\<rparr>"

lemma drain_unfold:
  "drainReassemblyLocked c =
     (case findSeq (tc_rcvNxt c) (tc_reassembly c) of
        None \<Rightarrow> c | Some i \<Rightarrow> drainReassemblyLocked (mergeEntry i c))"
  by (subst drainReassemblyLocked.simps) (simp add: mergeEntry_def Let_def split: option.splits)

text \<open>An invariant of the rounds is an invariant of the loop.\<close>

lemma drain_invariant:
  assumes "P c"
    and "\<And>c i. P c \<Longrightarrow> i < length (tc_reassembly c) \<Longrightarrow> re_seq (tc_reassembly c ! i) = tc_rcvNxt c \<Longrightarrow>
           P (mergeEntry i c)"
  shows "P (drainReassemblyLocked c)"
  using assms(1)
proof (induction c rule: drainReassemblyLocked.induct)
  case (1 c)
  show ?case
  proof (cases "findSeq (tc_rcvNxt c) (tc_reassembly c)")
    case None
    then show ?thesis using 1 drain_unfold [of c] by simp
  next
    case (Some i)
    then have "P (mergeEntry i c)"
      using 1 findSeq_Some assms(2) by blast
    moreover have "P (mergeEntry i c) \<Longrightarrow> P (drainReassemblyLocked (mergeEntry i c))"
      using 1(1) [OF Some refl refl] by (simp add: mergeEntry_def)
    ultimately show ?thesis using Some drain_unfold [of c] by simp
  qed
qed

lemma drain_keeps:
  "tc_state (drainReassemblyLocked c) = tc_state c \<and> tc_closed (drainReassemblyLocked c) = tc_closed c \<and>
   tc_sndNxt (drainReassemblyLocked c) = tc_sndNxt c \<and> tc_sndUna (drainReassemblyLocked c) = tc_sndUna c \<and>
   tc_localPort (drainReassemblyLocked c) = tc_localPort c \<and>
   tc_remotePort (drainReassemblyLocked c) = tc_remotePort c \<and>
   tc_localIP (drainReassemblyLocked c) = tc_localIP c \<and> tc_remoteIP (drainReassemblyLocked c) = tc_remoteIP c"
  by (rule drain_invariant [where P = "\<lambda>d. tc_state d = tc_state c \<and> tc_closed d = tc_closed c \<and>
      tc_sndNxt d = tc_sndNxt c \<and> tc_sndUna d = tc_sndUna c \<and> tc_localPort d = tc_localPort c \<and>
      tc_remotePort d = tc_remotePort c \<and> tc_localIP d = tc_localIP c \<and> tc_remoteIP d = tc_remoteIP c"])
    (auto simp: mergeEntry_def)

lemmas drain_simps [simp] = drain_keeps [THEN conjunct1] drain_keeps [THEN conjunct2, THEN conjunct1]
  drain_keeps [THEN conjunct2, THEN conjunct2, THEN conjunct1]
  drain_keeps [THEN conjunct2, THEN conjunct2, THEN conjunct2, THEN conjunct1]

text \<open>After the loop no parked segment starts at the next expected number.\<close>

lemma findSeq_None: "findSeq n es = None \<longleftrightarrow> (\<forall>e \<in> set es. re_seq e \<noteq> n)"
  by (induction es) auto

lemma drain_done:
  "\<forall>e \<in> set (tc_reassembly (drainReassemblyLocked c)). re_seq e \<noteq> tc_rcvNxt (drainReassemblyLocked c)"
proof (induction c rule: drainReassemblyLocked.induct)
  case (1 c)
  show ?case
  proof (cases "findSeq (tc_rcvNxt c) (tc_reassembly c)")
    case None
    then have "drainReassemblyLocked c = c" using drain_unfold [of c] by simp
    then show ?thesis using None by (simp add: findSeq_None)
  next
    case (Some i)
    with 1 [OF Some refl refl] show ?thesis
      using drain_unfold [of c] by (simp add: mergeEntry_def)
  qed
qed

lemma mergeEntry_length:
  "i < length (tc_reassembly c) \<Longrightarrow> length (tc_reassembly (mergeEntry i c)) < length (tc_reassembly c)"
  by (simp add: mergeEntry_def)

lemma mergeEntry_subset: "set (tc_reassembly (mergeEntry i c)) \<subseteq> set (tc_reassembly c)"
  using set_take_subset [of i "tc_reassembly c"] set_drop_subset [of "i + 1" "tc_reassembly c"]
  by (simp add: mergeEntry_def)

lemma drain_length: "length (tc_reassembly (drainReassemblyLocked c)) \<le> length (tc_reassembly c)"
  by (rule drain_invariant [where P = "\<lambda>d. length (tc_reassembly d) \<le> length (tc_reassembly c)"])
    (auto dest: mergeEntry_length)

section \<open>The reassembly bound\<close>

definition tcp_conn_ok :: "TCP4Conn \<Rightarrow> bool" where
  "tcp_conn_ok c = (length (tc_reassembly c) \<le> TCP4ReassemblyDepth)"

lemma finTransitions_frame [simp]:
  "tc_reassembly (finTransitions h c) = tc_reassembly c"
  "tc_rxQueue (finTransitions h c) = tc_rxQueue c"
  "tc_rcvNxt (finTransitions h c) = tc_rcvNxt c"
  "tc_peerFinSeen (finTransitions h c) = tc_peerFinSeen c"
  "tc_closed (finTransitions h c) = tc_closed c"
  "tc_sndUna (finTransitions h c) = tc_sndUna c"
  "tc_sndNxt (finTransitions h c) = tc_sndNxt c"
  by (simp_all add: finTransitions_def Let_def split: tcp4State.splits)

text \<open>The connection half of accepting a segment: everything but the acknowledgement it sends.\<close>

definition acceptCore :: "u32 \<Rightarrow> bytes \<Rightarrow> bool \<Rightarrow> TCP4Conn \<Rightarrow> TCP4Conn" where
  "acceptCore seq payload fin c =
     (if seq = tc_rcvNxt c then drainReassemblyLocked (appendSegment payload fin c)
      else if seqGT seq (tc_rcvNxt c) \<and> length (tc_reassembly c) < TCP4ReassemblyDepth
      then c\<lparr>tc_reassembly := tc_reassembly c @ [\<lparr>re_seq = seq, re_payload = payload, re_fin = fin\<rparr>]\<rparr>
      else c)"

lemma acceptSegmentLocked_fst [simp]:
  "fst (acceptSegmentLocked seq payload fin c s) = acceptCore seq payload fin c"
  by (simp add: acceptSegmentLocked_def acceptCore_def Let_def)

definition deliverCore :: "TCP4Header \<Rightarrow> bytes \<Rightarrow> TCP4Conn \<Rightarrow> TCP4Conn" where
  "deliverCore h payload c =
     (let fin = (th_Flags h AND TCPFlagFIN \<noteq> 0);
          c1 = (if seqGT (th_Ack h) (tc_sndUna c) then c\<lparr>tc_sndUna := th_Ack h\<rparr> else c)
      in finTransitions h (if payload \<noteq> [] \<or> fin then acceptCore (th_Seq h) payload fin c1 else c1))"

lemma deliverData_fst:
  "fst (deliverData h payload c s) =
     (if th_Flags h AND TCPFlagACK = 0 then c else deliverCore h payload c)"
  by (simp add: deliverData_def deliverCore_def Let_def case_prod_beta)

lemma acceptCore_bound: "tcp_conn_ok c \<Longrightarrow> tcp_conn_ok (acceptCore seq payload fin c)"
  using drain_length [of "appendSegment payload fin c"]
  by (auto simp: acceptCore_def tcp_conn_ok_def)

lemma deliverSegment_bound:
  assumes "tcp_conn_ok c"
  shows "tcp_conn_ok (fst (deliverSegment h payload c s))"
proof -
  have "tcp_conn_ok d \<Longrightarrow> tcp_conn_ok (deliverCore h payload d)" for d
    using acceptCore_bound [of "if seqGT (th_Ack h) (tc_sndUna d) then d\<lparr>tc_sndUna := th_Ack h\<rparr> else d"]
    by (auto simp: deliverCore_def Let_def tcp_conn_ok_def)
  then show ?thesis
    using assms by (auto simp: deliverSegment_def Let_def deliverData_fst tcp_conn_ok_def split: tcp4State.splits)
qed

section \<open>Stream integrity\<close>

text \<open>
  The peer sends the byte stream \<open>S\<close>, numbered from \<open>base\<close>, and a FIN after its last byte. A segment
  is \<open>genuine\<close> if it carries a piece of that stream at the number of its first byte; the network
  may lose, repeat, reorder and re-cut such segments at will.
\<close>

definition genuine :: "bytes \<Rightarrow> u32 \<Rightarrow> u32 \<Rightarrow> bytes \<Rightarrow> bool \<Rightarrow> bool" where
  "genuine S base seq payload fin =
     (\<exists>o1 \<le> length S. seq = base + of_nat o1 \<and> payload = take (length payload) (drop o1 S) \<and>
        (fin \<longrightarrow> o1 + length payload = length S))"

text \<open>
  The receiver has taken the first \<open>n\<close> bytes of the stream: \<open>got\<close> was read by the application, the
  rest waits in the queue.
\<close>

definition stream_at :: "bytes \<Rightarrow> u32 \<Rightarrow> bytes \<Rightarrow> nat \<Rightarrow> TCP4Conn \<Rightarrow> bool" where
  "stream_at S base got n c =
     (n \<le> length S \<and> got @ tc_rxQueue c = take n S \<and>
      tc_rcvNxt c = base + of_nat n + (if tc_peerFinSeen c then 1 else 0) \<and>
      (tc_peerFinSeen c \<longrightarrow> n = length S) \<and>
      (\<forall>e \<in> set (tc_reassembly c). genuine S base (re_seq e) (re_payload e) (re_fin e)))"

definition stream_ok :: "bytes \<Rightarrow> u32 \<Rightarrow> bytes \<Rightarrow> TCP4Conn \<Rightarrow> bool" where
  "stream_ok S base got c = (\<exists>n. stream_at S base got n c)"

lemma genuine_at_rcvNxt:
  assumes S: "length S < 4294967295" and st: "stream_at S base got n c"
    and g: "genuine S base (tc_rcvNxt c) payload fin"
  shows "\<not> tc_peerFinSeen c" "n + length payload \<le> length S" "payload = take (length payload) (drop n S)"
    "fin \<Longrightarrow> n + length payload = length S"
proof -
  obtain o1 where o1: "o1 \<le> length S" "tc_rcvNxt c = base + of_nat o1"
      "payload = take (length payload) (drop o1 S)" "fin \<longrightarrow> o1 + length payload = length S"
    using g by (auto simp: genuine_def)
  have n: "n \<le> length S" "tc_rcvNxt c = base + of_nat (n + (if tc_peerFinSeen c then 1 else 0))"
      "tc_peerFinSeen c \<longrightarrow> n = length S"
    using st by (auto simp: stream_at_def)
  have "(of_nat o1 :: u32) = of_nat (n + (if tc_peerFinSeen c then 1 else 0))"
    using o1(2) n(2) by simp
  then have eq: "o1 = n + (if tc_peerFinSeen c then 1 else 0)"
    using S o1(1) n(1) by (subst (asm) of_nat_u32_inject) auto
  show nf: "\<not> tc_peerFinSeen c"
    using eq o1(1) n(3) by auto
  then have "o1 = n" using eq by simp
  then show "payload = take (length payload) (drop n S)" "fin \<Longrightarrow> n + length payload = length S"
    using o1 by auto
  have "length payload \<le> length S - n"
    using o1(3) \<open>o1 = n\<close> by (metis length_drop length_take min.cobounded1)
  then show "n + length payload \<le> length S"
    using n(1) by simp
qed

lemma stream_append:
  assumes S: "length S < 4294967295" and st: "stream_at S base got n c"
    and g: "genuine S base (tc_rcvNxt c) payload fin"
  shows "stream_at S base got (n + length payload) (appendSegment payload fin c)"
proof -
  note a = genuine_at_rcvNxt [OF assms]
  have "take (n + length payload) S = take n S @ payload"
    using a(3) by (simp add: take_add)
  then show ?thesis
    using st a by (auto simp: stream_at_def)
qed

lemma stream_ok_merge:
  assumes "length S < 4294967295" "stream_ok S base got c" "i < length (tc_reassembly c)"
    and "re_seq (tc_reassembly c ! i) = tc_rcvNxt c"
  shows "stream_ok S base got (mergeEntry i c)"
proof -
  let ?e = "tc_reassembly c ! i"
  obtain n where st: "stream_at S base got n c"
    using assms by (auto simp: stream_ok_def)
  then have "genuine S base (tc_rcvNxt c) (re_payload ?e) (re_fin ?e)"
    using assms(3,4) by (metis nth_mem stream_at_def)
  from stream_append [OF assms(1) st this] have
    "stream_at S base got (n + length (re_payload ?e)) (mergeEntry i c)"
    using mergeEntry_subset [of i c] by (auto simp: stream_at_def mergeEntry_def)
  then show ?thesis by (auto simp: stream_ok_def)
qed

lemma stream_ok_drain:
  "length S < 4294967295 \<Longrightarrow> stream_ok S base got c \<Longrightarrow> stream_ok S base got (drainReassemblyLocked c)"
  by (erule drain_invariant) (rule stream_ok_merge)

lemma stream_ok_accept:
  assumes "length S < 4294967295" "stream_ok S base got c" "genuine S base seq payload fin"
  shows "stream_ok S base got (acceptCore seq payload fin c)"
proof (cases "seq = tc_rcvNxt c")
  case True
  obtain n where "stream_at S base got n c"
    using assms by (auto simp: stream_ok_def)
  then have "stream_ok S base got (appendSegment payload fin c)"
    using stream_append [of S base got n c payload fin] assms True by (auto simp: stream_ok_def)
  then show ?thesis
    using True assms(1) by (simp add: acceptCore_def stream_ok_drain)
next
  case False
  then show ?thesis
    using assms by (auto simp: acceptCore_def stream_ok_def stream_at_def)
qed

lemma stream_ok_cong:
  "tc_rxQueue d = tc_rxQueue c \<Longrightarrow> tc_rcvNxt d = tc_rcvNxt c \<Longrightarrow> tc_peerFinSeen d = tc_peerFinSeen c \<Longrightarrow>
   tc_reassembly d = tc_reassembly c \<Longrightarrow> stream_ok S base got d = stream_ok S base got c"
  by (simp add: stream_ok_def stream_at_def)

definition genuine_segment :: "bytes \<Rightarrow> u32 \<Rightarrow> TCP4Header \<Rightarrow> bytes \<Rightarrow> bool" where
  "genuine_segment S base h payload =
     (payload \<noteq> [] \<or> th_Flags h AND TCPFlagFIN \<noteq> 0 \<longrightarrow>
        genuine S base (th_Seq h) payload (th_Flags h AND TCPFlagFIN \<noteq> 0))"

lemma stream_ok_deliverCore:
  assumes "length S < 4294967295" "stream_ok S base got c" "genuine_segment S base h payload"
  shows "stream_ok S base got (deliverCore h payload c)"
proof -
  let ?c1 = "if seqGT (th_Ack h) (tc_sndUna c) then c\<lparr>tc_sndUna := th_Ack h\<rparr> else c"
  let ?c2 = "if payload \<noteq> [] \<or> th_Flags h AND TCPFlagFIN \<noteq> 0
             then acceptCore (th_Seq h) payload (th_Flags h AND TCPFlagFIN \<noteq> 0) ?c1 else ?c1"
  have "stream_ok S base got ?c1"
    using assms(2) by (subst stream_ok_cong [of _ c]) auto
  then have "stream_ok S base got ?c2"
    using assms stream_ok_accept [of S base got ?c1] by (auto simp: genuine_segment_def)
  moreover have "deliverCore h payload c = finTransitions h ?c2"
    by (simp add: deliverCore_def Let_def)
  ultimately show ?thesis
    by (simp only:) (subst stream_ok_cong [of _ ?c2], simp_all only: finTransitions_frame)
qed

lemma stream_ok_deliver:
  assumes "length S < 4294967295" "stream_ok S base got c" "genuine_segment S base h payload"
    and "tc_state c \<noteq> tcpSynSent"
  shows "stream_ok S base got (fst (deliverSegment h payload c s))"
proof -
  have u: "stream_ok S base got (d\<lparr>tc_sndWnd := w\<rparr>) = stream_ok S base got d"
    "stream_ok S base got (d\<lparr>tc_state := st\<rparr>) = stream_ok S base got d"
    "stream_ok S base got (d\<lparr>tc_closed := b\<rparr>) = stream_ok S base got d" for d w st b
    by (rule stream_ok_cong; simp)+
  show ?thesis
    using assms stream_ok_deliverCore [OF assms(1) _ assms(3)]
    by (simp add: deliverSegment_def Let_def deliverData_fst u split: tcp4State.splits)
qed

section \<open>The state diagram\<close>

text \<open>The edges a received segment may take; the edges of an active close are in \<open>Net_Stack\<close>.\<close>

inductive tcp_edge :: "tcp4State \<Rightarrow> tcp4State \<Rightarrow> bool" where
  stay: "tcp_edge s s"
| reset: "tcp_edge s tcpClosed"
| opened: "tcp_edge tcpSynSent tcpEstablished"
| peer_close: "tcp_edge tcpEstablished tcpCloseWait"
| fin_acked: "tcp_edge tcpFinWait1 tcpFinWait2"
| both_close: "tcp_edge tcpFinWait1 tcpClosing"
| fin_both: "tcp_edge tcpFinWait1 tcpTimeWait"
| peer_fin: "tcp_edge tcpFinWait2 tcpTimeWait"
| close_acked: "tcp_edge tcpClosing tcpTimeWait"

inductive_simps tcp_edge_simps: "tcp_edge a b"

lemma acceptCore_state [simp]:
  "tc_state (acceptCore seq payload fin c) = tc_state c" "tc_closed (acceptCore seq payload fin c) = tc_closed c"
  "tc_sndNxt (acceptCore seq payload fin c) = tc_sndNxt c"
  by (simp_all add: acceptCore_def)

lemma finTransitions_edge:
  "tc_state c \<in> {tcpEstablished, tcpFinWait1, tcpFinWait2, tcpCloseWait} \<Longrightarrow>
   tcp_edge (tc_state c) (tc_state (finTransitions h c))"
  by (auto simp: finTransitions_def Let_def tcp_edge_simps split: tcp4State.splits)

lemma deliverCore_edge:
  assumes "tc_state c \<in> {tcpEstablished, tcpFinWait1, tcpFinWait2, tcpCloseWait}"
  shows "tcp_edge (tc_state c) (tc_state (deliverCore h payload c))"
proof -
  let ?c1 = "if seqGT (th_Ack h) (tc_sndUna c) then c\<lparr>tc_sndUna := th_Ack h\<rparr> else c"
  let ?c2 = "if payload \<noteq> [] \<or> th_Flags h AND TCPFlagFIN \<noteq> 0
             then acceptCore (th_Seq h) payload (th_Flags h AND TCPFlagFIN \<noteq> 0) ?c1 else ?c1"
  have "tc_state ?c2 = tc_state c" by simp
  then show ?thesis
    using finTransitions_edge [of ?c2 h] assms by (simp add: deliverCore_def Let_def)
qed

lemma deliverSegment_edge:
  "tcp_edge (tc_state c) (tc_state (fst (deliverSegment h payload c s)))"
proof (cases "tc_closed c \<or> th_Flags h AND TCPFlagRST \<noteq> 0")
  case True
  then show ?thesis by (auto simp: deliverSegment_def intro: tcp_edge.intros)
next
  case False
  then show ?thesis
    using deliverCore_edge [of "c\<lparr>tc_sndWnd := th_Window h\<rparr>" h payload]
    by (cases "tc_state c")
      (simp_all add: deliverSegment_def Let_def deliverData_fst tcp_edge.intros)
qed

lemma tcp_edge_not_SynSent: "tcp_edge a b \<Longrightarrow> a \<noteq> tcpSynSent \<Longrightarrow> b \<noteq> tcpSynSent"
  by (auto simp: tcp_edge_simps)

text \<open>The handshake completes exactly on a SYN-ACK that acknowledges the SYN.\<close>

lemma synsent_establishes:
  assumes "tc_state c = tcpSynSent" "\<not> tc_closed c"
  shows "tc_state (fst (deliverSegment h payload c s)) = tcpEstablished \<longleftrightarrow>
    th_Flags h AND TCPFlagRST = 0 \<and> th_Flags h AND TCPFlagSYN \<noteq> 0 \<and> th_Flags h AND TCPFlagACK \<noteq> 0 \<and>
    th_Ack h = tc_sndNxt c"
  using assms by (auto simp: deliverSegment_def Let_def)

section \<open>Runs of a connection\<close>

text \<open>Taking at most \<open>k\<close> bytes from the queue, the step of \<^verbatim>\<open>Read\<close> when data is queued.\<close>

definition takeQueue :: "nat \<Rightarrow> TCP4Conn \<Rightarrow> bytes \<times> TCP4Conn" where
  "takeQueue k c = (take k (tc_rxQueue c), c\<lparr>tc_rxQueue := drop k (tc_rxQueue c)\<rparr>)"

text \<open>
  The histories of an open connection: segments of the stream arrive in any order and number,
  with the rest of the stack in any state, and the application reads between them.
\<close>

inductive tcp_run :: "bytes \<Rightarrow> u32 \<Rightarrow> bytes \<Rightarrow> TCP4Conn \<Rightarrow> bool" for S base where
  start: "tc_rcvNxt c = base \<Longrightarrow> tc_rxQueue c = [] \<Longrightarrow> tc_reassembly c = [] \<Longrightarrow>
    \<not> tc_peerFinSeen c \<Longrightarrow> tc_state c \<noteq> tcpSynSent \<Longrightarrow> tcp_run S base [] c"
| segment: "tcp_run S base got c \<Longrightarrow> genuine_segment S base h payload \<Longrightarrow>
    deliverSegment h payload c (s :: net) = (c', s') \<Longrightarrow> tcp_run S base got c'"
| read: "tcp_run S base got c \<Longrightarrow> takeQueue k c = (bs, c') \<Longrightarrow> tcp_run S base (got @ bs) c'"

lemma tcp_run_invariant:
  assumes "tcp_run S base got c" "length S < 4294967295"
  shows "stream_ok S base got c \<and> tc_state c \<noteq> tcpSynSent"
  using assms(1)
proof induction
  case (start c)
  then show ?case by (auto simp: stream_ok_def stream_at_def intro!: exI [of _ 0])
next
  case (segment got c h payload s c' s')
  then show ?case
    using stream_ok_deliver [OF assms(2), of base got c h payload s]
      deliverSegment_edge [of c h payload s] tcp_edge_not_SynSent by (metis fst_conv)
next
  case (read got c k bs c')
  then show ?case by (auto simp: takeQueue_def stream_ok_def stream_at_def)
qed

lemma stream_ok_prefix:
  assumes "stream_ok S base got c"
  shows "\<exists>n. got = take n S" "tc_peerFinSeen c \<Longrightarrow> got @ tc_rxQueue c = S"
proof -
  obtain n where n: "stream_at S base got n c" using assms by (auto simp: stream_ok_def)
  then have "got = take (length got) (take n S)"
    by (metis append_eq_conv_conj stream_at_def)
  then show "\<exists>n. got = take n S" by (metis take_take)
  show "tc_peerFinSeen c \<Longrightarrow> got @ tc_rxQueue c = S"
    using n by (auto simp: stream_at_def)
qed

section \<open>Properties\<close>

text \<open>
  C1. Whatever segments of the peer's stream arrive, in any order, repeated, lost or cut differently, and
  however the application reads between them, the bytes it has read are a prefix of the stream; once
  the peer's FIN is seen, what was read and what is queued is the whole stream.
\<close>

theorem tcp_stream_integrity:
  assumes "tcp_run S base got c" "length S < 4294967295"
  shows "(\<exists>n. got = take n S) \<and> (tc_peerFinSeen c \<longrightarrow> got @ tc_rxQueue c = S)"
  using stream_ok_prefix tcp_run_invariant [OF assms] by blast

theorem tcp_stream_integrity_witness:
  "\<exists>c. tcp_run [7, 8] 5 [] c \<and> (\<exists>n. [] = take n [7, 8 :: u8]) \<and> (tc_peerFinSeen c \<longrightarrow> [] @ tc_rxQueue c = [7, 8])"
proof -
  let ?c = "\<lparr>tc_localIP = [10, 0, 2, 15], tc_localPort = 49152, tc_remoteIP = [10, 0, 2, 2], tc_remotePort = 80,
    tc_state = tcpEstablished, tc_sndUna = 1, tc_sndNxt = 1, tc_sndWnd = 0, tc_rcvNxt = 5, tc_rcvWnd = 0,
    tc_rxQueue = [], tc_reassembly = [], tc_peerFinSeen = False, tc_closed = False, tc_readDeadline = 0,
    tc_writeDeadline = 0\<rparr>"
  have r: "tcp_run [7, 8] 5 [] ?c"
    by (rule tcp_run.start) simp_all
  show ?thesis
    using tcp_stream_integrity [OF r] r by (intro exI [of _ ?c]) simp
qed

text \<open>
  A received segment moves the connection only along the edges of the state diagram, and a RST closes
  it from every state.
\<close>

lemma tcp_state_diagram:
  "tcp_edge (tc_state c) (tc_state (fst (deliverSegment h payload c s))) \<and>
   (\<not> tc_closed c \<and> th_Flags h AND TCPFlagRST \<noteq> 0 \<longrightarrow>
      tc_state (fst (deliverSegment h payload c s)) = tcpClosed \<and> tc_closed (fst (deliverSegment h payload c s)))"
  by (rule conjI [OF deliverSegment_edge]) (simp add: deliverSegment_def)

text \<open>
  The out-of-order queue never holds more than eight segments.
\<close>

lemma tcp_reassembly_bounded:
  assumes "length (tc_reassembly c) \<le> 8"
  shows "length (tc_reassembly (fst (deliverSegment h payload c s))) \<le> 8"
  using deliverSegment_bound [of c h payload s] assms by (simp add: tcp_conn_ok_def TCP4ReassemblyDepth_def)

end
