(* ===== verification/Net_Stack.thy ===== *)
theory Net_Stack
  imports Icmp4 Udp4 Tcp_Stream
begin

text \<open>
  The top-level stack, \<^verbatim>\<open>uefiboard/ministack/stack.go\<close>, with the calls of \<^verbatim>\<open>udp4.go\<close> and \<^verbatim>\<open>tcp4.go\<close>
  that work on the whole stack. Objects that are shared through pointers (ping waiters, UDP and TCP
  connections) live in heaps, lists indexed by address; the demux tables map ports to addresses.
  Every operation takes the stack and returns it changed. The receive goroutine and the inline pump
  loops all consist of the same step, \<open>pumpOne\<close>; the stop channel is closed exactly when the stack
  is closed.
\<close>

record Stack = net +
  st_pings :: "u32 \<rightharpoonup> nat"
  st_waiters :: "ICMPEcho list list"
  st_udp4Conns :: "u16 \<rightharpoonup> nat"
  st_udps :: "UDP4Conn list"
  st_tcp4Conns :: "u16 \<rightharpoonup> nat"
  st_tcps :: "TCP4Conn list"
  st_tcp4PortRover :: u16
  st_started :: bool
  st_DefaultDialAttempts :: int
  st_DefaultDialBaseDelay :: int

definition NewStack :: "link \<Rightarrow> Stack" where
  "NewStack l =
     \<lparr>st_link = l, st_arpCache = newARPTable, st_route = emptyRoute, st_ipID = 0, st_closed = False,
      st_pings = Map.empty, st_waiters = [], st_udp4Conns = Map.empty, st_udps = [],
      st_tcp4Conns = Map.empty, st_tcps = [], st_tcp4PortRover = 0, st_started = False,
      st_DefaultDialAttempts = 0, st_DefaultDialBaseDelay = 0\<rparr>"

definition SetIPv4Address :: "ip \<Rightarrow> bytes \<Rightarrow> Stack \<Rightarrow> unit result \<times> Stack" where
  "SetIPv4Address addr msk s =
     (if st_closed s then (Inl ErrStackClosed, s)
      else case SetLocal addr msk (st_route s) of
        Inl e \<Rightarrow> (Inl e, s)
      | Inr r \<Rightarrow> (Inr (), s\<lparr>st_route := r\<rparr>))"

definition SetDefaultGateway :: "ip option \<Rightarrow> Stack \<Rightarrow> unit result \<times> Stack" where
  "SetDefaultGateway gw s =
     (if st_closed s then (Inl ErrStackClosed, s)
      else case SetGateway gw (st_route s) of
        Inl e \<Rightarrow> (Inl e, s)
      | Inr r \<Rightarrow> (Inr (), s\<lparr>st_route := r\<rparr>))"

definition LocalIPv4 :: "Stack \<Rightarrow> ip option" where
  "LocalIPv4 s = rt_Local (st_route s)"

definition Start :: "Stack \<Rightarrow> Stack" where
  "Start s = (if st_started s \<or> st_closed s then s else s\<lparr>st_started := True\<rparr>)"

definition CloseStack :: "Stack \<Rightarrow> Stack" where
  "CloseStack s = s\<lparr>st_closed := True\<rparr>"

section \<open>Dispatch\<close>

definition handleARP :: "bytes \<Rightarrow> Stack \<Rightarrow> unit result \<times> Stack" where
  "handleARP payload s =
     (let (r, t, l) = handleARPFrame (lk_MAC (st_link s)) (rt_Local (st_route s)) payload
                        (st_arpCache s) (st_link s)
      in (r, s\<lparr>st_arpCache := t, st_link := l\<rparr>))"

definition pingKey :: "u16 \<Rightarrow> u16 \<Rightarrow> u32" where
  "pingKey idn seq = push_bit 16 (ucast idn) OR ucast seq"

definition handleICMP :: "IPv4Header \<Rightarrow> bytes \<Rightarrow> Stack \<Rightarrow> unit result \<times> Stack" where
  "handleICMP h body s =
     (case ParseICMPEcho body of
        Inl e \<Rightarrow> (Inl e, s)
      | Inr msg \<Rightarrow>
          if ic_Type msg = ICMPTypeEchoReply then
            let key = pingKey (ic_Identifier msg) (ic_Sequence msg) in
            (case st_pings s key of
               None \<Rightarrow> (Inr (), s)
             | Some w \<Rightarrow>
                 let s' = s\<lparr>st_pings := (st_pings s)(key := None)\<rparr> in
                 (case chan_send 1 msg (st_waiters s' ! w) of
                    Some q \<Rightarrow> (Inr (), s'\<lparr>st_waiters := (st_waiters s')[w := q]\<rparr>)
                  | None \<Rightarrow> (Inr (), s')))
          else if ic_Type msg = ICMPTypeEchoRequest then
            let (i, s') = nextIPID s in
            (case buildEchoReplyPacket (ih_Dst h) (ih_Src h) i (ic_Identifier msg) (ic_Sequence msg)
                    (ic_Payload msg) of
               Inl e \<Rightarrow> (Inl e, s')
             | Inr reply \<Rightarrow> sendIPv4Frame (ih_Src h) reply s')
          else (Inr (), s))"

definition handleUDP4 :: "IPv4Header \<Rightarrow> bytes \<Rightarrow> Stack \<Rightarrow> unit result \<times> Stack" where
  "handleUDP4 h body s =
     (case ParseUDP4 (ih_Src h) (ih_Dst h) body of
        Inl e \<Rightarrow> (Inl e, s)
      | Inr (uh, payload) \<Rightarrow>
          (case st_udp4Conns s (uh_DstPort uh) of
             None \<Rightarrow> (Inr (), s)
           | Some a \<Rightarrow>
               let dg = \<lparr>dg_Src = \<lparr>ua_IP = (case To4 (ih_Src h) of Some b \<Rightarrow> b | None \<Rightarrow> []),
                                   ua_Port = uint (uh_SrcPort uh)\<rparr>,
                         dg_Payload = payload\<rparr>
               in (Inr (), s\<lparr>st_udps := (st_udps s)[a := deliver dg (st_udps s ! a)]\<rparr>)))"

definition handleTCP4 :: "IPv4Header \<Rightarrow> bytes \<Rightarrow> Stack \<Rightarrow> unit result \<times> Stack" where
  "handleTCP4 h body s =
     (let tcpLen = int (unat (ih_TotalLen h)) - int IPv4HeaderLen in
      if tcpLen < 0 then (Inr (), s)
      else if tcpLen > int (length body) then (Inr (), s)
      else case ParseTCP4 (ih_Src h) (ih_Dst h) (take (nat tcpLen) body) of
        Inl e \<Rightarrow> (Inl e, s)
      | Inr (th, payload) \<Rightarrow>
          (case st_tcp4Conns s (th_DstPort th) of
             None \<Rightarrow> (Inr (), s)
           | Some a \<Rightarrow>
               let conn = st_tcps s ! a in
               if \<not> ip_equal (tc_remoteIP conn) (ih_Src h) \<or> tc_remotePort conn \<noteq> th_SrcPort th
               then (Inr (), s)
               else let (c', s') = deliverSegment th payload conn s
                    in (Inr (), s'\<lparr>st_tcps := (st_tcps s')[a := c']\<rparr>)))"

definition handleIPv4 :: "bytes \<Rightarrow> Stack \<Rightarrow> unit result \<times> Stack" where
  "handleIPv4 payload s =
     (case ParseIPv4 payload of
        Inl e \<Rightarrow> (Inl e, s)
      | Inr (h, body) \<Rightarrow>
          if ih_Protocol h = IPProtoICMP then handleICMP h body s
          else if ih_Protocol h = IPProtoUDP then handleUDP4 h body s
          else if ih_Protocol h = IPProtoTCP then handleTCP4 h body s
          else (Inr (), s))"

definition dispatch :: "bytes \<Rightarrow> Stack \<Rightarrow> unit result \<times> Stack" where
  "dispatch frame s =
     (case ParseEthernet frame of
        Inl e \<Rightarrow> (Inl e, s)
      | Inr eth \<Rightarrow>
          if eth_EtherType eth = EtherTypeARP then handleARP (eth_Payload eth) s
          else if eth_EtherType eth = EtherTypeIPv4 then handleIPv4 (eth_Payload eth) s
          else (Inr (), s))"

text \<open>Pumping one frame inline; also the body of the receive goroutine.\<close>

definition pumpOne :: "Stack \<Rightarrow> Stack" where
  "pumpOne s =
     (let (r, l) = RecvFrame (st_link s); s' = s\<lparr>st_link := l\<rparr> in
      case r of None \<Rightarrow> s' | Some rx \<Rightarrow> snd (dispatch rx s'))"

text \<open>
  The receive goroutine over a bounded number of turns: it stops when the stack is closed, and
  every turn takes one frame from the link.
\<close>

primrec rxLoop :: "nat \<Rightarrow> Stack \<Rightarrow> Stack" where
  "rxLoop 0 s = s"
| "rxLoop (Suc n) s = (if st_closed s then s else rxLoop n (pumpOne s))"

section \<open>UDP endpoints\<close>

definition OpenUDP4 :: "u16 \<Rightarrow> Stack \<Rightarrow> nat result \<times> Stack" where
  "OpenUDP4 localPort s =
     (if st_closed s then (Inl ErrStackClosed, s)
      else if st_udp4Conns s localPort \<noteq> None then (Inl ErrUDP4PortInUse, s)
      else let a = length (st_udps s);
               conn = \<lparr>uc_localPort = localPort, uc_queue = [], uc_closed = False, uc_readDeadline = 0\<rparr>
           in (Inr a, s\<lparr>st_udps := st_udps s @ [conn], st_udp4Conns := (st_udp4Conns s)(localPort \<mapsto> a)\<rparr>))"

definition releaseUDP4 :: "u16 \<Rightarrow> Stack \<Rightarrow> Stack" where
  "releaseUDP4 localPort s = s\<lparr>st_udp4Conns := (st_udp4Conns s)(localPort := None)\<rparr>"

definition isLimitedBroadcast :: "ip \<Rightarrow> bool" where
  "isLimitedBroadcast a =
     (if length a \<noteq> 4 then False
      else a ! 0 = 0xFF \<and> a ! 1 = 0xFF \<and> a ! 2 = 0xFF \<and> a ! 3 = 0xFF)"

definition sendUDP4 :: "u16 \<Rightarrow> u16 \<Rightarrow> ip \<Rightarrow> bytes \<Rightarrow> Stack \<Rightarrow> unit result \<times> Stack" where
  "sendUDP4 srcPort dstPort dst payload s =
     (case To4 dst of
        None \<Rightarrow> (Inl ErrIPv4InvalidIP, s)
      | Some d4 \<Rightarrow>
          if st_closed s then (Inl ErrStackClosed, s)
          else
            let src = (case rt_Local (st_route s) of Some a \<Rightarrow> a | None \<Rightarrow> [0, 0, 0, 0]);
                srcMAC = lk_MAC (st_link s) in
            (case MarshalUDP4 src d4 srcPort dstPort payload of
               Inl e \<Rightarrow> (Inl e, s)
             | Inr udpBytes \<Rightarrow>
                 (let (i, s') = nextIPID s in
                  case MarshalIPv4 src d4 IPProtoUDP i udpBytes of
                    Inl e \<Rightarrow> (Inl e, s')
                  | Inr ipPkt \<Rightarrow>
                      if isLimitedBroadcast d4 then
                        (case MarshalEthernet BroadcastMAC srcMAC EtherTypeIPv4 ipPkt of
                           Inl e \<Rightarrow> (Inl e, s')
                         | Inr frame \<Rightarrow> sendOnLink frame s')
                      else sendIPv4Frame d4 ipPkt s')))"

datatype netAddr = UDPAddrPtr UDPAddr | OtherAddr

definition udpWriteTo :: "nat \<Rightarrow> bytes \<Rightarrow> netAddr \<Rightarrow> Stack \<Rightarrow> unit result \<times> Stack" where
  "udpWriteTo a payload dst s =
     (case dst of
        OtherAddr \<Rightarrow> (Inl ErrUDP4InvalidAddr, s)
      | UDPAddrPtr udst \<Rightarrow>
          (case To4 (ua_IP udst) of
             None \<Rightarrow> (Inl ErrUDP4InvalidAddr, s)
           | Some d4 \<Rightarrow>
               let c = st_udps s ! a in
               if uc_closed c then (Inl ErrUDP4ConnClosed, s)
               else sendUDP4 (uc_localPort c) (word_of_int (ua_Port udst)) d4 payload s))"

text \<open>\<^verbatim>\<open>ReadFrom\<close> into a buffer of \<open>cap\<close> bytes: the copied bytes and the sender.\<close>

primrec udpReadLoop :: "nat \<Rightarrow> nat \<Rightarrow> nat \<Rightarrow> Stack \<Rightarrow> (bytes \<times> UDPAddr) result \<times> Stack" where
  "udpReadLoop 0 a cap s = (Inl ErrUDP4ReadTimeout, s)"
| "udpReadLoop (Suc n) a cap s =
     (case uc_queue (st_udps s ! a) of
        dg # q \<Rightarrow>
          (Inr (take cap (dg_Payload dg), dg_Src dg),
           s\<lparr>st_udps := (st_udps s)[a := (st_udps s ! a)\<lparr>uc_queue := q\<rparr>]\<rparr>)
      | [] \<Rightarrow>
          if uc_closed (st_udps s ! a) then (Inl ErrUDP4ConnClosed, s)
          else udpReadLoop n a cap (pumpOne s))"

definition udpReadFrom :: "nat \<Rightarrow> nat \<Rightarrow> Stack \<Rightarrow> (bytes \<times> UDPAddr) result \<times> Stack" where
  "udpReadFrom a cap s =
     (if uc_closed (st_udps s ! a) then (Inl ErrUDP4ConnClosed, s)
      else udpReadLoop (dc_stop newDeadlineChecker) a cap s)"

definition udpClose :: "nat \<Rightarrow> Stack \<Rightarrow> Stack" where
  "udpClose a s =
     (let c = st_udps s ! a in
      if uc_closed c then s
      else releaseUDP4 (uc_localPort c) (s\<lparr>st_udps := (st_udps s)[a := c\<lparr>uc_closed := True\<rparr>]\<rparr>))"

text \<open>The endpoint's setter, on the object in the heap.\<close>

definition udpSetReadDeadline :: "nat \<Rightarrow> int \<Rightarrow> Stack \<Rightarrow> Stack" where
  "udpSetReadDeadline a d s = s\<lparr>st_udps := (st_udps s)[a := SetReadDeadline d (st_udps s ! a)]\<rparr>"

section \<open>Ping\<close>

text \<open>The closure \<^verbatim>\<open>cleanup\<close> and the registration of a waiter, with the two counter values a ping takes.\<close>

definition pingCleanup :: "u32 \<Rightarrow> Stack \<Rightarrow> Stack" where
  "pingCleanup key s = s\<lparr>st_pings := (st_pings s)(key := None)\<rparr>"

definition registerPing :: "u32 \<Rightarrow> Stack \<Rightarrow> nat \<times> Stack" where
  "registerPing key s =
     (length (st_waiters s),
      s\<lparr>st_ipID := st_ipID s + 2, st_waiters := st_waiters s @ [[]],
        st_pings := (st_pings s)(key \<mapsto> length (st_waiters s))\<rparr>)"

primrec pingLoop :: "nat \<Rightarrow> u32 \<Rightarrow> nat \<Rightarrow> Stack \<Rightarrow> unit result \<times> Stack" where
  "pingLoop 0 key w s = (Inl ErrPingTimeout, pingCleanup key s)"
| "pingLoop (Suc n) key w s =
     (case st_waiters s ! w of
        _ # q \<Rightarrow> (Inr (), s\<lparr>st_waiters := (st_waiters s)[w := q]\<rparr>)
      | [] \<Rightarrow>
          if st_closed s then (Inl ErrStackClosed, pingCleanup key s)
          else pingLoop n key w (pumpOne s))"

definition pingIdent :: u16 where "pingIdent = 0x4D53"

definition PingOnce :: "ip \<Rightarrow> bytes \<Rightarrow> Stack \<Rightarrow> unit result \<times> Stack" where
  "PingOnce dst payload s =
     (case To4 dst of
        None \<Rightarrow> (Inl ErrIPv4InvalidIP, s)
      | Some dst4 \<Rightarrow>
          if st_closed s then (Inl ErrStackClosed, s)
          else case rt_Local (st_route s) of
            None \<Rightarrow> (Inl ErrNoLocalIPv4, s)
          | Some src \<Rightarrow>
              let seq = st_ipID s;
                  key = pingKey pingIdent seq;
                  ipID = st_ipID s + 1;
                  (w, s1) = registerPing key s in
              (case buildEchoRequestPacket src dst4 ipID pingIdent seq payload of
                 Inl e \<Rightarrow> (Inl e, pingCleanup key s1)
               | Inr pkt \<Rightarrow>
                   (case sendIPv4Frame dst4 pkt s1 of
                      (Inl e, s2) \<Rightarrow> (Inl e, pingCleanup key s2)
                    | (Inr _, s2) \<Rightarrow> pingLoop (dc_stop newDeadlineChecker) key w s2)))"

section \<open>TCP calls\<close>

definition allocTCP4Port :: "Stack \<Rightarrow> u16 result \<times> Stack" where
  "allocTCP4Port s =
     (if st_closed s then (Inl ErrStackClosed, s)
      else
        let cand = (\<lambda>i. 49152 + (st_tcp4PortRover s + i) mod (16383 - 1)) in
        (case find (\<lambda>i. st_tcp4Conns s (cand i) = None) (map of_nat [0..<1024]) of
           None \<Rightarrow> (Inl ErrTCP4PortInUse, s)
         | Some i \<Rightarrow>
             (Inr (cand i), s\<lparr>st_tcp4PortRover := (st_tcp4PortRover s + i + 1) mod 16383\<rparr>)))"

definition registerTCP4 :: "nat \<Rightarrow> Stack \<Rightarrow> Stack" where
  "registerTCP4 a s = s\<lparr>st_tcp4Conns := (st_tcp4Conns s)(tc_localPort (st_tcps s ! a) \<mapsto> a)\<rparr>"

definition releaseTCP4 :: "u16 \<Rightarrow> Stack \<Rightarrow> Stack" where
  "releaseTCP4 localPort s = s\<lparr>st_tcp4Conns := (st_tcp4Conns s)(localPort := None)\<rparr>"

definition sendSegmentExt ::
  "u8 \<Rightarrow> u32 \<Rightarrow> u32 \<Rightarrow> bytes \<Rightarrow> nat \<Rightarrow> Stack \<Rightarrow> unit result \<times> Stack" where
  "sendSegmentExt flags seq ack payload a s = sendSegment flags seq ack payload (st_tcps s ! a) s"

primrec tcpReadLoop :: "nat \<Rightarrow> nat \<Rightarrow> nat \<Rightarrow> Stack \<Rightarrow> bytes result \<times> Stack" where
  "tcpReadLoop 0 a cap s = (Inl ErrTCP4Timeout, s)"
| "tcpReadLoop (Suc n) a cap s =
     (let c = st_tcps s ! a in
      if length (tc_rxQueue c) > 0 then
        let (bs, c') = takeQueue cap c in (Inr bs, s\<lparr>st_tcps := (st_tcps s)[a := c']\<rparr>)
      else if tc_peerFinSeen c then (Inl ErrTCP4PeerClosed, s)
      else if tc_closed c then (Inl ErrTCP4ConnClosed, s)
      else tcpReadLoop n a cap (pumpOne s))"

definition tcpRead :: "nat \<Rightarrow> nat \<Rightarrow> Stack \<Rightarrow> bytes result \<times> Stack" where
  "tcpRead a cap s =
     (if tc_closed (st_tcps s ! a) then (Inl ErrTCP4ConnClosed, s)
      else tcpReadLoop (dc_stop newDeadlineChecker) a cap s)"

text \<open>
  The wait of \<^verbatim>\<open>sendAndAwaitAck\<close>: the first argument is what the overall checker has left, \<open>per\<close> what the
  per-attempt checker has left.
\<close>

primrec awaitAck ::
  "nat \<Rightarrow> nat \<Rightarrow> nat \<Rightarrow> nat \<Rightarrow> u8 \<Rightarrow> u32 \<Rightarrow> u32 \<Rightarrow> bytes \<Rightarrow> u32 \<Rightarrow> Stack \<Rightarrow> unit result \<times> Stack" where
  "awaitAck 0 per retransmits a flags seq ack segment wantAck s = (Inl ErrTCP4Timeout, s)"
| "awaitAck (Suc n) per retransmits a flags seq ack segment wantAck s =
     (let c = st_tcps s ! a in
      if tc_closed c then (Inl ErrTCP4ConnClosed, s)
      else if \<not> seqLT (tc_sndUna c) wantAck then (Inr (), s)
      else if per = 0 then
        (if retransmits + 1 > TCP4MaxRetransmits then (Inl ErrTCP4Timeout, s)
         else case sendSegmentExt flags seq ack segment a s of
           (Inl e, s') \<Rightarrow> (Inl e, s')
         | (Inr _, s') \<Rightarrow>
             awaitAck n (dc_stop newDeadlineChecker - 1) (retransmits + 1) a flags seq ack segment wantAck
               (pumpOne s'))
      else awaitAck n (per - 1) retransmits a flags seq ack segment wantAck (pumpOne s))"

definition sendAndAwaitAck :: "nat \<Rightarrow> bytes \<Rightarrow> Stack \<Rightarrow> unit result \<times> Stack" where
  "sendAndAwaitAck a segment s =
     (let c = st_tcps s ! a;
          seq = tc_sndNxt c;
          wantAck = tc_sndNxt c + of_nat (length segment);
          ack = tc_rcvNxt c;
          s1 = s\<lparr>st_tcps := (st_tcps s)[a := c\<lparr>tc_sndNxt := wantAck\<rparr>]\<rparr>;
          flags = TCPFlagACK OR TCPFlagPSH in
      case sendSegmentExt flags seq ack segment a s1 of
        (Inl e, s2) \<Rightarrow> (Inl e, s2)
      | (Inr _, s2) \<Rightarrow>
          awaitAck (dc_stop newDeadlineChecker) (dc_stop newDeadlineChecker) 0 a flags seq ack segment
            wantAck s2)"

text \<open>\<^verbatim>\<open>Write\<close> returns the number of bytes written and an error at once.\<close>

function tcpWriteLoop :: "nat \<Rightarrow> bytes \<Rightarrow> nat \<Rightarrow> Stack \<Rightarrow> (nat \<times> net_error option) \<times> Stack" where
  "tcpWriteLoop a p written s =
     (if written < length p then
        let upto = min (written + TCP4DefaultMSS) (length p);
            segment = slice p written upto in
        (case sendAndAwaitAck a segment s of
           (Inl e, s') \<Rightarrow> ((written, Some e), s')
         | (Inr _, s') \<Rightarrow> tcpWriteLoop a p upto s')
      else ((written, None), s))"
  by pat_completeness auto
termination
  by (relation "measure (\<lambda>(a, p, written, s). length p - written)") (auto simp: TCP4DefaultMSS_def)

declare tcpWriteLoop.simps [simp del]

definition tcpWrite :: "nat \<Rightarrow> bytes \<Rightarrow> Stack \<Rightarrow> (nat \<times> net_error option) \<times> Stack" where
  "tcpWrite a p s =
     (let c = st_tcps s ! a in
      if tc_closed c \<or> (tc_state c \<noteq> tcpEstablished \<and> tc_state c \<noteq> tcpCloseWait)
      then ((0, Some ErrTCP4ConnClosed), s)
      else tcpWriteLoop a p 0 s)"

primrec tcpCloseLoop :: "nat \<Rightarrow> nat \<Rightarrow> Stack \<Rightarrow> Stack" where
  "tcpCloseLoop 0 a s = s"
| "tcpCloseLoop (Suc n) a s =
     (let st = tc_state (st_tcps s ! a) in
      if st = tcpClosed \<or> st = tcpTimeWait then s else tcpCloseLoop n a (pumpOne s))"

definition tcpSendFin :: "tcp4State \<Rightarrow> nat \<Rightarrow> Stack \<Rightarrow> Stack" where
  "tcpSendFin newState a s =
     (let c = st_tcps s ! a;
          s1 = s\<lparr>st_tcps := (st_tcps s)[a := c\<lparr>tc_sndNxt := tc_sndNxt c + 1, tc_state := newState\<rparr>]\<rparr>
      in snd (sendSegmentExt (TCPFlagFIN OR TCPFlagACK) (tc_sndNxt c) (tc_rcvNxt c) [] a s1))"

definition tcpClose :: "nat \<Rightarrow> Stack \<Rightarrow> Stack" where
  "tcpClose a s =
     (if tc_closed (st_tcps s ! a) then s
      else
        let s1 = (case tc_state (st_tcps s ! a) of
                    tcpEstablished \<Rightarrow> tcpSendFin tcpFinWait1 a s
                  | tcpCloseWait \<Rightarrow> tcpSendFin tcpLastAck a s
                  | _ \<Rightarrow> s);
            s2 = tcpCloseLoop (dc_stop newDeadlineChecker) a s1;
            s3 = s2\<lparr>st_tcps := (st_tcps s2)[a := (st_tcps s2 ! a)\<lparr>tc_closed := True, tc_state := tcpClosed\<rparr>]\<rparr>
        in releaseTCP4 (tc_localPort (st_tcps s3 ! a)) s3)"

primrec dialLoop :: "nat \<Rightarrow> nat \<Rightarrow> u16 \<Rightarrow> Stack \<Rightarrow> nat result \<times> Stack" where
  "dialLoop 0 a localPort s = (Inl ErrTCP4Timeout, releaseTCP4 localPort s)"
| "dialLoop (Suc n) a localPort s =
     (let c = st_tcps s ! a in
      if tc_state c = tcpEstablished then (Inr a, s)
      else if tc_closed c then (Inl ErrTCP4ConnRefused, releaseTCP4 localPort s)
      else dialLoop n a localPort (pumpOne s))"

definition newTCB :: "ip \<Rightarrow> u16 \<Rightarrow> ip \<Rightarrow> u16 \<Rightarrow> u32 \<Rightarrow> TCP4Conn" where
  "newTCB localIP localPort remoteIP remotePort iss =
     \<lparr>tc_localIP = localIP, tc_localPort = localPort, tc_remoteIP = remoteIP, tc_remotePort = remotePort,
      tc_state = tcpSynSent, tc_sndUna = iss, tc_sndNxt = iss + 1, tc_sndWnd = 0, tc_rcvNxt = 0,
      tc_rcvWnd = TCP4DefaultWindow, tc_rxQueue = [], tc_reassembly = [], tc_peerFinSeen = False,
      tc_closed = False, tc_readDeadline = 0, tc_writeDeadline = 0\<rparr>"

definition dialTCP4Once :: "ip \<Rightarrow> u16 \<Rightarrow> Stack \<Rightarrow> nat result \<times> Stack" where
  "dialTCP4Once dst port s =
     (case To4 dst of
        None \<Rightarrow> (Inl ErrTCP4InvalidAddr, s)
      | Some d4 \<Rightarrow>
          if st_closed s then (Inl ErrStackClosed, s)
          else case rt_Local (st_route s) of
            None \<Rightarrow> (Inl ErrTCP4NoLocalAddr, s)
          | Some localIP \<Rightarrow>
              (case allocTCP4Port s of
                 (Inl e, s1) \<Rightarrow> (Inl e, s1)
               | (Inr localPort, s1) \<Rightarrow>
                   let iss = tcp4InitialSeq (lk_MAC (st_link s)) localPort;
                       a = length (st_tcps s1);
                       s2 = registerTCP4 a
                              (s1\<lparr>st_tcps := st_tcps s1 @ [newTCB localIP localPort d4 port iss]\<rparr>) in
                   (case sendSegmentExt TCPFlagSYN iss 0 [] a s2 of
                      (Inl e, s3) \<Rightarrow> (Inl e, releaseTCP4 localPort s3)
                    | (Inr _, s3) \<Rightarrow> dialLoop (dc_stop newDeadlineChecker) a localPort s3)))"

end
