(* ===== verification/Net_Invariant.thy ===== *)
theory Net_Invariant
  imports Net_Stack
begin

text \<open>
  The invariant of the whole stack and its preservation: the ARP cache, the route table, the two
  demux tables, the receive queues and the ping waiters stay consistent under every frame the link
  can deliver and every call of the interface.
\<close>

section \<open>Sending does not touch the tables\<close>

lemma Stack_more_fields:
  fixes s t :: Stack
  assumes "net.more t = net.more s"
  shows "st_pings t = st_pings s" "st_waiters t = st_waiters s" "st_udp4Conns t = st_udp4Conns s"
    "st_udps t = st_udps s" "st_tcp4Conns t = st_tcp4Conns s" "st_tcps t = st_tcps s"
    "st_tcp4PortRover t = st_tcp4PortRover s" "st_started t = st_started s"
  using assms by (cases s; cases t; simp)+

lemma sendSegment_frame [simp]:
  "st_route (snd (sendSegment f q a p c s)) = st_route s"
  "st_closed (snd (sendSegment f q a p c s)) = st_closed s"
  "net.more (snd (sendSegment f q a p c s)) = net.more s"
  by (simp_all add: sendSegment_def case_prod_beta split: sum.splits)

lemma net_ok_sendSegment: "net_ok s \<Longrightarrow> net_ok (snd (sendSegment f q a p c s))"
  by (simp add: sendSegment_def case_prod_beta net_ok_sendIPv4Frame split: sum.splits)

lemma acceptSegmentLocked_frame [simp]:
  "st_route (snd (acceptSegmentLocked q p f c s)) = st_route s"
  "st_closed (snd (acceptSegmentLocked q p f c s)) = st_closed s"
  "net.more (snd (acceptSegmentLocked q p f c s)) = net.more s"
  "net_ok s \<Longrightarrow> net_ok (snd (acceptSegmentLocked q p f c s))"
  by (simp_all add: acceptSegmentLocked_def Let_def net_ok_sendSegment)

lemma deliverSegment_frame [simp]:
  "st_route (snd (deliverSegment h p c s)) = st_route s"
  "st_closed (snd (deliverSegment h p c s)) = st_closed s"
  "net.more (snd (deliverSegment h p c s)) = net.more s"
  by (simp_all add: deliverSegment_def deliverData_def Let_def case_prod_beta split: tcp4State.splits)

lemma net_ok_deliverSegment: "net_ok s \<Longrightarrow> net_ok (snd (deliverSegment h p c s))"
  by (simp add: deliverSegment_def deliverData_def Let_def case_prod_beta net_ok_sendSegment
      split: tcp4State.splits)

lemmas sendOnLink_rest [simp] = Stack_more_fields [OF sendOnLink_frame(6)]
lemmas nextIPID_rest [simp] = Stack_more_fields [OF nextIPID_frame(5)]
lemmas sendIPv4Frame_rest [simp] = Stack_more_fields [OF sendIPv4Frame_frame(4)]
lemmas sendSegment_rest [simp] = Stack_more_fields [OF sendSegment_frame(3)]
lemmas deliverSegment_rest [simp] = Stack_more_fields [OF deliverSegment_frame(3)]

section \<open>The invariant\<close>

definition udp_ok :: "Stack \<Rightarrow> bool" where
  "udp_ok s =
     ((\<forall>p a. st_udp4Conns s p = Some a \<longrightarrow>
         a < length (st_udps s) \<and> uc_localPort (st_udps s ! a) = p \<and> \<not> uc_closed (st_udps s ! a)) \<and>
      (\<forall>c \<in> set (st_udps s). udp_conn_ok c) \<and>
      (\<forall>a < length (st_udps s). \<not> uc_closed (st_udps s ! a) \<longrightarrow>
         st_udp4Conns s (uc_localPort (st_udps s ! a)) = Some a))"

definition tcp_ok :: "Stack \<Rightarrow> bool" where
  "tcp_ok s =
     ((\<forall>p a. st_tcp4Conns s p = Some a \<longrightarrow> a < length (st_tcps s) \<and> tc_localPort (st_tcps s ! a) = p) \<and>
      (\<forall>c \<in> set (st_tcps s). tcp_conn_ok c))"

definition ping_ok :: "Stack \<Rightarrow> bool" where
  "ping_ok s =
     ((\<forall>k w. st_pings s k = Some w \<longrightarrow> w < length (st_waiters s) \<and> st_waiters s ! w = []) \<and>
      (\<forall>q \<in> set (st_waiters s). length q \<le> 1) \<and>
      (\<forall>k l w. st_pings s k = Some w \<longrightarrow> st_pings s l = Some w \<longrightarrow> k = l))"

definition stack_ok :: "Stack \<Rightarrow> bool" where
  "stack_ok s = (net_ok s \<and> udp_ok s \<and> tcp_ok s \<and> ping_ok s)"

lemma udp_ok_cong: "st_udp4Conns t = st_udp4Conns s \<Longrightarrow> st_udps t = st_udps s \<Longrightarrow> udp_ok t = udp_ok s"
  by (simp add: udp_ok_def)

lemma tcp_ok_cong: "st_tcp4Conns t = st_tcp4Conns s \<Longrightarrow> st_tcps t = st_tcps s \<Longrightarrow> tcp_ok t = tcp_ok s"
  by (simp add: tcp_ok_def)

lemma ping_ok_cong: "st_pings t = st_pings s \<Longrightarrow> st_waiters t = st_waiters s \<Longrightarrow> ping_ok t = ping_ok s"
  by (simp add: ping_ok_def)

text \<open>Operations that only change the network half keep the rest of the invariant.\<close>

lemma stack_ok_net:
  fixes s t :: Stack
  assumes "net.more t = net.more s" "net_ok t" "stack_ok s"
  shows "stack_ok t"
  using assms Stack_more_fields [OF assms(1)]
  by (simp add: stack_ok_def udp_ok_cong [of t s] tcp_ok_cong [of t s] ping_ok_cong [of t s])

lemma net_ok_cong:
  "st_arpCache t = st_arpCache s \<Longrightarrow> st_route t = st_route s \<Longrightarrow> st_link t = st_link s \<Longrightarrow> net_ok t = net_ok s"
  by (simp add: net_ok_def)

lemma stack_ok_New: "length (lk_MAC l) = 6 \<Longrightarrow> stack_ok (NewStack l)"
  by (simp add: stack_ok_def NewStack_def net_ok_def udp_ok_def tcp_ok_def ping_ok_def arp_ok_new route_ok_empty)

section \<open>Frames\<close>

lemma stack_ok_handleARP:
  assumes "stack_ok s"
  shows "stack_ok (snd (handleARP pl s))"
proof (rule stack_ok_net [OF _ _ assms])
  show "net.more (snd (handleARP pl s)) = net.more s"
    by (simp add: handleARP_def case_prod_beta)
  show "net_ok (snd (handleARP pl s))"
    using assms by (simp add: handleARP_def case_prod_beta stack_ok_def net_ok_def arp_ok_handle)
qed

lemma stack_ok_send: "stack_ok s \<Longrightarrow> stack_ok (snd (sendIPv4Frame d p s))"
  by (rule stack_ok_net [of _ s]) (simp_all add: net_ok_sendIPv4Frame stack_ok_def)

lemma stack_ok_nextIPID: "stack_ok s \<Longrightarrow> stack_ok (snd (nextIPID s))"
  by (rule stack_ok_net [of _ s]) (simp_all add: stack_ok_def)

lemma ping_ok_reply:
  assumes "ping_ok s" "st_pings s k = Some w"
  shows "ping_ok (s\<lparr>st_pings := (st_pings s)(k := None), st_waiters := (st_waiters s)[w := [m]]\<rparr>)"
proof -
  have w: "w < length (st_waiters s)" "\<And>l. l \<noteq> k \<Longrightarrow> st_pings s l \<noteq> Some w"
    using assms by (auto simp: ping_ok_def)
  have "length q \<le> 1" if "q \<in> set ((st_waiters s)[w := [m]])" for q
    using that assms(1) set_update_subset_insert [of "st_waiters s" w "[m]"] by (auto simp: ping_ok_def)
  then show ?thesis
    using assms w by (auto simp: ping_ok_def nth_list_update)
qed

lemma stack_ok_handleICMP:
  assumes "stack_ok s"
  shows "stack_ok (snd (handleICMP h body s))"
proof (cases "ParseICMPEcho body")
  case (Inl e)
  then show ?thesis using assms by (simp add: handleICMP_def)
next
  case (Inr msg)
  let ?k = "pingKey (ic_Identifier msg) (ic_Sequence msg)"
  show ?thesis
  proof (cases "ic_Type msg = ICMPTypeEchoReply \<and> st_pings s ?k \<noteq> None")
    case True
    then obtain w where w: "st_pings s ?k = Some w" by auto
    then have "st_waiters s ! w = []" using assms by (auto simp: stack_ok_def ping_ok_def)
    then have "snd (handleICMP h body s) =
        s\<lparr>st_pings := (st_pings s)(?k := None), st_waiters := (st_waiters s)[w := [msg]]\<rparr>"
      using Inr True w by (simp add: handleICMP_def Let_def chan_send_def)
    then show ?thesis
      using assms ping_ok_reply [OF _ w, of msg]
      by (simp add: stack_ok_def net_ok_def udp_ok_def tcp_ok_def)
  next
    case False
    then show ?thesis
      using Inr assms
      by (auto simp: handleICMP_def Let_def case_prod_beta stack_ok_send stack_ok_nextIPID
          split: sum.splits option.splits)
  qed
qed

lemma udp_ok_deliver:
  assumes "udp_ok s" "st_udp4Conns s p = Some a"
  shows "udp_ok (s\<lparr>st_udps := (st_udps s)[a := deliver dg (st_udps s ! a)]\<rparr>)"
proof -
  have a: "a < length (st_udps s)" using assms by (auto simp: udp_ok_def)
  then have "udp_conn_ok (deliver dg (st_udps s ! a))"
    using assms by (auto simp: udp_ok_def intro: udp_conn_ok_deliver)
  then show ?thesis
    using assms a set_update_subset_insert [of "st_udps s" a "deliver dg (st_udps s ! a)"]
    by (auto simp: udp_ok_def nth_list_update)
qed

lemma stack_ok_handleUDP4:
  assumes "stack_ok s"
  shows "stack_ok (snd (handleUDP4 h body s))"
  using assms udp_ok_deliver [of s]
  by (auto simp: handleUDP4_def Let_def stack_ok_def net_ok_def tcp_ok_def ping_ok_def
      split: sum.splits option.splits)

text \<open>Delivering a segment keeps the local port of the connection.\<close>

lemma acceptCore_port [simp]: "tc_localPort (acceptCore q p f c) = tc_localPort c"
  using drain_keeps [of "appendSegment p f c"] by (simp add: acceptCore_def)

lemma finTransitions_port [simp]: "tc_localPort (finTransitions h c) = tc_localPort c"
  by (simp add: finTransitions_def Let_def split: tcp4State.splits)

lemma deliverSegment_port [simp]: "tc_localPort (fst (deliverSegment h p c s)) = tc_localPort c"
  by (simp add: deliverSegment_def Let_def deliverData_fst deliverCore_def split: tcp4State.splits)

lemma tcp_ok_update:
  assumes "tcp_ok s" "tcp_conn_ok c'" "a < length (st_tcps s)"
    and "tc_localPort c' = tc_localPort (st_tcps s ! a)"
  shows "tcp_ok (s\<lparr>st_tcps := (st_tcps s)[a := c']\<rparr>)"
  using assms set_update_subset_insert [of "st_tcps s" a c']
  by (auto simp: tcp_ok_def nth_list_update)

lemma stack_ok_tcps:
  assumes "stack_ok s" "tcp_ok (s\<lparr>st_tcps := cs\<rparr>)"
  shows "stack_ok (s\<lparr>st_tcps := cs\<rparr>)"
  using assms by (simp add: stack_ok_def net_ok_def udp_ok_def ping_ok_def)

lemma tcp_okD: "tcp_ok s \<Longrightarrow> a < length (st_tcps s) \<Longrightarrow> tcp_conn_ok (st_tcps s ! a)"
  by (simp add: tcp_ok_def)

lemma stack_ok_deliver:
  assumes "stack_ok s" "a < length (st_tcps s)"
  shows "stack_ok ((snd (deliverSegment h p (st_tcps s ! a) s))
    \<lparr>st_tcps := (st_tcps s)[a := fst (deliverSegment h p (st_tcps s ! a) s)]\<rparr>)"
proof -
  let ?r = "deliverSegment h p (st_tcps s ! a) s"
  have ok: "stack_ok (snd ?r)"
    by (rule stack_ok_net [of _ s]) (use assms in \<open>simp_all add: net_ok_deliverSegment stack_ok_def\<close>)
  have "tcp_conn_ok (fst ?r)"
    using assms by (simp add: stack_ok_def tcp_okD deliverSegment_bound)
  then have "tcp_ok ((snd ?r)\<lparr>st_tcps := (st_tcps (snd ?r))[a := fst ?r]\<rparr>)"
    using ok assms(2) by (intro tcp_ok_update) (simp_all add: stack_ok_def)
  then show ?thesis
    using stack_ok_tcps [OF ok] by simp
qed

lemma stack_ok_handleTCP4:
  assumes "stack_ok s"
  shows "stack_ok (snd (handleTCP4 h body s))"
proof -
  have "a < length (st_tcps s)" if "st_tcp4Conns s p = Some a" for p a
    using assms that by (auto simp: stack_ok_def tcp_ok_def)
  then show ?thesis
    using assms stack_ok_deliver
    by (simp add: handleTCP4_def Let_def case_prod_beta split: sum.splits option.splits)
qed

lemma stack_ok_dispatch: "stack_ok s \<Longrightarrow> stack_ok (snd (dispatch f s))"
  by (auto simp: dispatch_def handleIPv4_def stack_ok_handleARP stack_ok_handleICMP stack_ok_handleUDP4
      stack_ok_handleTCP4 split: sum.splits)

lemma stack_ok_link: "stack_ok s \<Longrightarrow> lk_MAC l = lk_MAC (st_link s) \<Longrightarrow> stack_ok (s\<lparr>st_link := l\<rparr>)"
  by (simp add: stack_ok_def net_ok_def udp_ok_def tcp_ok_def ping_ok_def)

lemma stack_ok_pump: "stack_ok s \<Longrightarrow> stack_ok (pumpOne s)"
  by (simp add: pumpOne_def Let_def case_prod_beta stack_ok_link stack_ok_dispatch split: option.splits)

end
