(* ===== verification/Net_Reach.thy ===== *)
theory Net_Reach
  imports Net_Invariant
begin

text \<open>
  The states a program can bring the stack into, as a relation over the calls of its interface,
  and the invariant on all of them.
\<close>

section \<open>The calls keep the invariant\<close>

lemma stack_ok_sendUDP4: "stack_ok s \<Longrightarrow> stack_ok (snd (sendUDP4 sp dp d p s))"
proof -
  assume ok: "stack_ok s"
  have "stack_ok (snd (sendOnLink f (snd (nextIPID s))))" for f
    by (rule stack_ok_net [OF _ _ ok]) (use ok in \<open>simp_all add: stack_ok_def\<close>)
  then show ?thesis
    using ok by (simp add: sendUDP4_def Let_def case_prod_beta stack_ok_send stack_ok_nextIPID
        split: option.splits sum.splits)
qed

lemma stack_ok_WriteTo: "stack_ok s \<Longrightarrow> stack_ok (snd (udpWriteTo a p d s))"
  by (simp add: udpWriteTo_def Let_def stack_ok_sendUDP4 split: option.splits netAddr.splits)

lemma udp_ok_table:
  "udp_ok s \<Longrightarrow> st_udp4Conns s p = Some a \<Longrightarrow>
   a < length (st_udps s) \<and> uc_localPort (st_udps s ! a) = p \<and> \<not> uc_closed (st_udps s ! a)"
  by (simp add: udp_ok_def)

lemma udp_ok_bound: "udp_ok s \<Longrightarrow> c \<in> set (st_udps s) \<Longrightarrow> udp_conn_ok c"
  by (simp add: udp_ok_def)

lemma udp_ok_listed:
  "udp_ok s \<Longrightarrow> a < length (st_udps s) \<Longrightarrow> \<not> uc_closed (st_udps s ! a) \<Longrightarrow>
   st_udp4Conns s (uc_localPort (st_udps s ! a)) = Some a"
  by (simp add: udp_ok_def)

lemma udp_ok_open:
  assumes "udp_ok s" "st_udp4Conns s (uc_localPort c) = None" "udp_conn_ok c" "\<not> uc_closed c"
  shows "udp_ok (s\<lparr>st_udps := st_udps s @ [c],
      st_udp4Conns := (st_udp4Conns s)(uc_localPort c \<mapsto> length (st_udps s))\<rparr>)" (is "udp_ok ?t")
  unfolding udp_ok_def
proof (intro conjI)
  show "\<forall>p a. st_udp4Conns ?t p = Some a \<longrightarrow>
      a < length (st_udps ?t) \<and> uc_localPort (st_udps ?t ! a) = p \<and> \<not> uc_closed (st_udps ?t ! a)"
    using assms by (auto simp: nth_append split: if_splits dest: udp_ok_table)
  show "\<forall>c \<in> set (st_udps ?t). udp_conn_ok c"
    using assms by (auto dest: udp_ok_bound)
  show "\<forall>a < length (st_udps ?t). \<not> uc_closed (st_udps ?t ! a) \<longrightarrow>
      st_udp4Conns ?t (uc_localPort (st_udps ?t ! a)) = Some a"
    using assms by (auto simp: nth_append less_Suc_eq dest: udp_ok_listed)
qed

lemma stack_ok_OpenUDP4:
  assumes "stack_ok s"
  shows "stack_ok (snd (OpenUDP4 p s))"
proof -
  let ?c = "\<lparr>uc_localPort = p, uc_queue = [], uc_closed = False, uc_readDeadline = 0\<rparr>"
  show ?thesis
    using assms udp_ok_open [of s ?c]
    by (simp add: OpenUDP4_def Let_def stack_ok_def net_ok_def tcp_ok_def ping_ok_def udp_conn_ok_def)
qed

lemma udp_ok_pop:
  assumes "udp_ok s" "a < length (st_udps s)" "uc_queue (st_udps s ! a) = dg # q"
  shows "udp_ok (s\<lparr>st_udps := (st_udps s)[a := (st_udps s ! a)\<lparr>uc_queue := q\<rparr>]\<rparr>)"
proof -
  have "udp_conn_ok (st_udps s ! a)" using assms by (auto simp: udp_ok_def)
  then have "udp_conn_ok ((st_udps s ! a)\<lparr>uc_queue := q\<rparr>)" using assms(3) by (simp add: udp_conn_ok_def)
  then show ?thesis
    using assms set_update_subset_insert [of "st_udps s" a "(st_udps s ! a)\<lparr>uc_queue := q\<rparr>"]
    by (auto simp: udp_ok_def nth_list_update)
qed

lemma stack_ok_udps:
  "stack_ok s \<Longrightarrow> udp_ok (s\<lparr>st_udps := cs\<rparr>) \<Longrightarrow> stack_ok (s\<lparr>st_udps := cs\<rparr>)"
  by (simp add: stack_ok_def net_ok_def tcp_ok_def ping_ok_def)

lemma stack_ok_pop:
  "stack_ok s \<Longrightarrow> a < length (st_udps s) \<Longrightarrow> uc_queue (st_udps s ! a) = dg # q \<Longrightarrow>
   stack_ok (s\<lparr>st_udps := (st_udps s)[a := (st_udps s ! a)\<lparr>uc_queue := q\<rparr>]\<rparr>)"
  by (rule stack_ok_udps) (auto simp: stack_ok_def udp_ok_pop)

lemma stack_ok_udpSetReadDeadline:
  assumes "stack_ok s" "a < length (st_udps s)"
  shows "stack_ok (udpSetReadDeadline a d s)"
proof -
  have u: "udp_ok s" using assms(1) by (simp add: stack_ok_def)
  have "udp_conn_ok (SetReadDeadline d (st_udps s ! a))"
    using udp_ok_bound [OF u, of "st_udps s ! a"] assms(2) by (simp add: udp_conn_ok_def SetReadDeadline_def)
  then have "udp_ok (udpSetReadDeadline a d s)"
    using u assms(2) set_update_subset_insert [of "st_udps s" a "SetReadDeadline d (st_udps s ! a)"]
    by (auto simp: udp_ok_def udpSetReadDeadline_def SetReadDeadline_def nth_list_update)
  then show ?thesis
    using assms(1) by (simp add: udpSetReadDeadline_def stack_ok_udps)
qed

text \<open>The heaps only grow.\<close>

definition heap_sizes :: "Stack \<Rightarrow> nat \<times> nat \<times> nat" where
  "heap_sizes s = (length (st_udps s), length (st_tcps s), length (st_waiters s))"

lemma handleARP_heaps: "heap_sizes (snd (handleARP p s)) = heap_sizes s"
  by (simp add: handleARP_def case_prod_beta heap_sizes_def)

lemma handleICMP_heaps: "heap_sizes (snd (handleICMP h p s)) = heap_sizes s"
  by (simp add: handleICMP_def Let_def case_prod_beta heap_sizes_def split: sum.splits option.splits)

lemma handleUDP4_heaps: "heap_sizes (snd (handleUDP4 h p s)) = heap_sizes s"
  by (simp add: handleUDP4_def Let_def case_prod_beta heap_sizes_def split: sum.splits option.splits)

lemma handleTCP4_heaps: "heap_sizes (snd (handleTCP4 h p s)) = heap_sizes s"
  by (simp add: handleTCP4_def Let_def case_prod_beta heap_sizes_def split: sum.splits option.splits)

lemma dispatch_heaps: "heap_sizes (snd (dispatch f s)) = heap_sizes s"
  by (simp add: dispatch_def handleIPv4_def handleARP_heaps handleICMP_heaps handleUDP4_heaps handleTCP4_heaps
      case_prod_beta split: sum.splits)

lemma pumpOne_heaps: "heap_sizes (pumpOne s) = heap_sizes s"
  using dispatch_heaps [of _ "s\<lparr>st_link := snd (RecvFrame (st_link s))\<rparr>"]
  by (simp add: pumpOne_def Let_def case_prod_beta heap_sizes_def split: option.splits)

lemma pumpOne_lengths [simp]:
  "length (st_udps (pumpOne s)) = length (st_udps s)"
  "length (st_tcps (pumpOne s)) = length (st_tcps s)"
  "length (st_waiters (pumpOne s)) = length (st_waiters s)"
  using pumpOne_heaps [of s] by (simp_all add: heap_sizes_def)

lemma stack_ok_udpReadLoop:
  "stack_ok s \<Longrightarrow> a < length (st_udps s) \<Longrightarrow> stack_ok (snd (udpReadLoop n a cap s))"
proof (induction n arbitrary: s)
  case (Suc n)
  then show ?case
    by (auto simp: stack_ok_pump stack_ok_pop split: list.splits)
qed simp

lemma stack_ok_ReadFrom:
  "stack_ok s \<Longrightarrow> a < length (st_udps s) \<Longrightarrow> stack_ok (snd (udpReadFrom a cap s))"
  by (simp add: udpReadFrom_def stack_ok_udpReadLoop)

lemma udp_ok_other_port:
  "udp_ok s \<Longrightarrow> a < length (st_udps s) \<Longrightarrow> b < length (st_udps s) \<Longrightarrow> \<not> uc_closed (st_udps s ! a) \<Longrightarrow>
   \<not> uc_closed (st_udps s ! b) \<Longrightarrow> uc_localPort (st_udps s ! a) = uc_localPort (st_udps s ! b) \<Longrightarrow> a = b"
  by (metis option.inject udp_ok_listed)

lemma udp_ok_close:
  assumes u: "udp_ok s" and a: "a < length (st_udps s)" and o: "\<not> uc_closed (st_udps s ! a)"
  shows "udp_ok (s\<lparr>st_udps := (st_udps s)[a := (st_udps s ! a)\<lparr>uc_closed := True\<rparr>],
      st_udp4Conns := (st_udp4Conns s)(uc_localPort (st_udps s ! a) := None)\<rparr>)" (is "udp_ok ?t")
  unfolding udp_ok_def
proof (intro conjI)
  show "\<forall>p b. st_udp4Conns ?t p = Some b \<longrightarrow>
      b < length (st_udps ?t) \<and> uc_localPort (st_udps ?t ! b) = p \<and> \<not> uc_closed (st_udps ?t ! b)"
    using u a by (auto simp: nth_list_update split: if_splits dest: udp_ok_table)
  have "udp_conn_ok ((st_udps s ! a)\<lparr>uc_closed := True\<rparr>)"
    using udp_ok_bound [OF u, of "st_udps s ! a"] a by (simp add: udp_conn_ok_def)
  then show "\<forall>c \<in> set (st_udps ?t). udp_conn_ok c"
    using u set_update_subset_insert [of "st_udps s" a] by (auto dest: udp_ok_bound)
  show "\<forall>b < length (st_udps ?t). \<not> uc_closed (st_udps ?t ! b) \<longrightarrow>
      st_udp4Conns ?t (uc_localPort (st_udps ?t ! b)) = Some b"
    using u a udp_ok_other_port [OF u a _ o _ sym] by (auto simp: nth_list_update udp_ok_listed)
qed

lemma stack_ok_udpClose:
  assumes "stack_ok s" "a < length (st_udps s)"
  shows "stack_ok (udpClose a s)"
proof -
  have "udp_ok (udpClose a s)"
    using assms udp_ok_close [of s a] by (simp add: stack_ok_def udpClose_def releaseUDP4_def Let_def)
  then show ?thesis
    using assms
    by (simp add: stack_ok_def udpClose_def releaseUDP4_def Let_def net_ok_def tcp_ok_def ping_ok_def)
qed

lemma stack_ok_cleanup: "stack_ok s \<Longrightarrow> stack_ok (pingCleanup k s)"
proof -
  assume ok: "stack_ok s"
  then have "ping_ok (pingCleanup k s)"
    by (auto simp: stack_ok_def ping_ok_def pingCleanup_def)
  then show ?thesis
    using ok by (simp add: stack_ok_def net_ok_def tcp_ok_def udp_ok_def pingCleanup_def)
qed

lemma stack_ok_waiter:
  assumes "stack_ok s" "w < length (st_waiters s)" "st_waiters s ! w = m # q"
  shows "stack_ok (s\<lparr>st_waiters := (st_waiters s)[w := q]\<rparr>)"
proof -
  have "length (m # q) \<le> 1"
    using assms by (metis nth_mem ping_ok_def stack_ok_def)
  then have "q = []" by simp
  then have "ping_ok (s\<lparr>st_waiters := (st_waiters s)[w := q]\<rparr>)"
    using assms set_update_subset_insert [of "st_waiters s" w q]
    by (auto simp: ping_ok_def stack_ok_def nth_list_update)
  then show ?thesis
    using assms by (simp add: stack_ok_def net_ok_def tcp_ok_def udp_ok_def)
qed

lemma stack_ok_pingLoop:
  "stack_ok s \<Longrightarrow> w < length (st_waiters s) \<Longrightarrow> stack_ok (snd (pingLoop n k w s))"
  by (induction n arbitrary: s)
    (auto simp: stack_ok_cleanup stack_ok_pump intro: stack_ok_waiter split: list.splits)

lemma ping_ok_register: "ping_ok s \<Longrightarrow> ping_ok (snd (registerPing k s))"
  by (auto simp: registerPing_def ping_ok_def nth_append less_Suc_eq)

lemma stack_ok_register_ping: "stack_ok s \<Longrightarrow> stack_ok (snd (registerPing k s))"
  using ping_ok_register [of s k]
  by (simp add: stack_ok_def net_ok_def tcp_ok_def udp_ok_def registerPing_def)

lemma registerPing_waiter [simp]: "fst (registerPing k s) < length (st_waiters (snd (registerPing k s)))"
  by (simp add: registerPing_def)

lemma stack_ok_PingOnce: "stack_ok s \<Longrightarrow> stack_ok (snd (PingOnce d p s))"
  by (simp add: PingOnce_def Let_def case_prod_beta stack_ok_cleanup stack_ok_send stack_ok_pingLoop
      stack_ok_register_ping split: option.splits sum.splits)

section \<open>TCP calls\<close>

lemma stack_ok_conn:
  assumes "stack_ok s" "a < length (st_tcps s)" "tc_localPort c = tc_localPort (st_tcps s ! a)"
    and "length (tc_reassembly c) \<le> length (tc_reassembly (st_tcps s ! a))"
  shows "stack_ok (s\<lparr>st_tcps := (st_tcps s)[a := c]\<rparr>)"
proof (rule stack_ok_tcps [OF assms(1)])
  have "tcp_conn_ok c"
    using assms tcp_okD [of s a] by (simp add: tcp_conn_ok_def stack_ok_def)
  then show "tcp_ok (s\<lparr>st_tcps := (st_tcps s)[a := c]\<rparr>)"
    using assms by (intro tcp_ok_update) (simp_all add: stack_ok_def)
qed

lemma stack_ok_sendSegmentExt: "stack_ok s \<Longrightarrow> stack_ok (snd (sendSegmentExt f q k p a s))"
proof -
  assume ok: "stack_ok s"
  then have "net_ok (snd (sendSegmentExt f q k p a s))"
    by (simp add: sendSegmentExt_def net_ok_sendSegment stack_ok_def)
  then show ?thesis
    by (intro stack_ok_net [OF _ _ ok]) (simp_all add: sendSegmentExt_def)
qed

lemma sendSegmentExt_tcps [simp]: "st_tcps (snd (sendSegmentExt f q k p a s)) = st_tcps s"
  by (simp add: sendSegmentExt_def)

lemma stack_ok_tcpReadLoop:
  "stack_ok s \<Longrightarrow> a < length (st_tcps s) \<Longrightarrow> stack_ok (snd (tcpReadLoop n a cap s))"
  by (induction n arbitrary: s)
    (auto simp: Let_def takeQueue_def stack_ok_pump intro!: stack_ok_conn)

lemma stack_ok_Read: "stack_ok s \<Longrightarrow> a < length (st_tcps s) \<Longrightarrow> stack_ok (snd (tcpRead a cap s))"
  by (simp add: tcpRead_def stack_ok_tcpReadLoop)

lemma stack_ok_awaitAck:
  "stack_ok s \<Longrightarrow> stack_ok (snd (awaitAck n per r a f q k seg w s))"
  by (induction n arbitrary: s per r)
    (simp_all add: Let_def case_prod_beta stack_ok_pump stack_ok_sendSegmentExt split: sum.splits)

lemma awaitAck_heaps [simp]:
  "length (st_tcps (snd (awaitAck n per r a f q k seg w s))) = length (st_tcps s)"
  by (induction n arbitrary: s per r) (simp_all add: Let_def case_prod_beta split: sum.splits)

lemma stack_ok_sendAndAwaitAck:
  "stack_ok s \<Longrightarrow> a < length (st_tcps s) \<Longrightarrow> stack_ok (snd (sendAndAwaitAck a seg s))"
  by (simp add: sendAndAwaitAck_def Let_def case_prod_beta stack_ok_sendSegmentExt stack_ok_awaitAck
      stack_ok_conn split: sum.splits)

lemma sendAndAwaitAck_heaps [simp]:
  "length (st_tcps (snd (sendAndAwaitAck a seg s))) = length (st_tcps s)"
  by (simp add: sendAndAwaitAck_def Let_def case_prod_beta split: sum.splits)

lemma stack_ok_tcpWriteLoop:
  "stack_ok s \<Longrightarrow> a < length (st_tcps s) \<Longrightarrow> stack_ok (snd (tcpWriteLoop a p w s))"
proof (induction a p w s rule: tcpWriteLoop.induct)
  case (1 a p written s)
  obtain r s' where d: "sendAndAwaitAck a (slice p written (min (written + TCP4DefaultMSS) (length p))) s = (r, s')"
    by fastforce
  then have "stack_ok s'" "length (st_tcps s') = length (st_tcps s)"
    using 1(2,3) stack_ok_sendAndAwaitAck sendAndAwaitAck_heaps by (metis snd_conv)+
  then show ?case
    using 1 d by (subst tcpWriteLoop.simps) (auto simp: Let_def split: sum.splits)
qed

lemma stack_ok_Write: "stack_ok s \<Longrightarrow> a < length (st_tcps s) \<Longrightarrow> stack_ok (snd (tcpWrite a p s))"
  by (simp add: tcpWrite_def Let_def stack_ok_tcpWriteLoop)

lemma stack_ok_tcpCloseLoop: "stack_ok s \<Longrightarrow> stack_ok (tcpCloseLoop n a s)"
  by (induction n arbitrary: s) (simp_all add: Let_def stack_ok_pump)

lemma tcpCloseLoop_heaps [simp]: "length (st_tcps (tcpCloseLoop n a s)) = length (st_tcps s)"
  by (induction n arbitrary: s) (simp_all add: Let_def)

lemma stack_ok_tcpSendFin:
  "stack_ok s \<Longrightarrow> a < length (st_tcps s) \<Longrightarrow> stack_ok (tcpSendFin st a s)"
  by (simp add: tcpSendFin_def Let_def stack_ok_sendSegmentExt stack_ok_conn)

lemma tcpSendFin_heaps [simp]: "length (st_tcps (tcpSendFin st a s)) = length (st_tcps s)"
  by (simp add: tcpSendFin_def Let_def)

lemma stack_ok_releaseTCP4: "stack_ok s \<Longrightarrow> stack_ok (releaseTCP4 p s)"
  by (auto simp: releaseTCP4_def stack_ok_def net_ok_def udp_ok_def ping_ok_def tcp_ok_def)

lemma stack_ok_tcpClose:
  assumes "stack_ok s" "a < length (st_tcps s)"
  shows "stack_ok (tcpClose a s)"
proof -
  define s1 where "s1 = (case tc_state (st_tcps s ! a) of tcpEstablished \<Rightarrow> tcpSendFin tcpFinWait1 a s
      | tcpCloseWait \<Rightarrow> tcpSendFin tcpLastAck a s | _ \<Rightarrow> s)"
  have "stack_ok s1 \<and> a < length (st_tcps s1)"
    using assms by (simp add: s1_def stack_ok_tcpSendFin split: tcp4State.splits)
  then show ?thesis
    using assms stack_ok_tcpCloseLoop [of s1]
    by (simp add: tcpClose_def s1_def [symmetric] Let_def stack_ok_releaseTCP4 stack_ok_conn)
qed

lemma stack_ok_dialLoop: "stack_ok s \<Longrightarrow> stack_ok (snd (dialLoop n a p s))"
  by (induction n arbitrary: s) (simp_all add: Let_def stack_ok_pump stack_ok_releaseTCP4)

lemma tcp_ok_dial:
  assumes "tcp_ok s" "tc_reassembly c = []"
  shows "tcp_ok (registerTCP4 (length (st_tcps s)) (s\<lparr>st_tcps := st_tcps s @ [c]\<rparr>))"
proof -
  have "a < length (st_tcps s) \<and> tc_localPort (st_tcps s ! a) = p" if "st_tcp4Conns s p = Some a" for p a
    using assms(1) that by (simp add: tcp_ok_def)
  then show ?thesis
    using assms by (auto simp: tcp_ok_def registerTCP4_def nth_append tcp_conn_ok_def less_Suc_eq)
qed

lemma stack_ok_dial: 
  assumes "stack_ok s" "tc_reassembly c = []"
  shows "stack_ok (registerTCP4 (length (st_tcps s)) (s\<lparr>st_tcps := st_tcps s @ [c]\<rparr>))"
  using assms tcp_ok_dial [of s c]
  by (simp add: stack_ok_def registerTCP4_def net_ok_def udp_ok_def ping_ok_def)

lemma stack_ok_rover: "stack_ok s \<Longrightarrow> stack_ok (s\<lparr>st_tcp4PortRover := r\<rparr>)"
  by (simp add: stack_ok_def net_ok_def udp_ok_def ping_ok_def tcp_ok_def)

lemma stack_ok_alloc: "stack_ok s \<Longrightarrow> stack_ok (snd (allocTCP4Port s))"
  by (simp add: allocTCP4Port_def Let_def stack_ok_rover split: option.splits)

lemma stack_ok_dialTCP4Once: "stack_ok s \<Longrightarrow> stack_ok (snd (dialTCP4Once d p s))"
  by (simp add: dialTCP4Once_def Let_def case_prod_beta stack_ok_alloc stack_ok_dial newTCB_def
      stack_ok_sendSegmentExt stack_ok_releaseTCP4 stack_ok_dialLoop split: option.splits sum.splits)

section \<open>Configuration\<close>

lemma stack_ok_route: "stack_ok s \<Longrightarrow> route_ok r \<Longrightarrow> stack_ok (s\<lparr>st_route := r\<rparr>)"
  by (simp add: stack_ok_def net_ok_def udp_ok_def ping_ok_def tcp_ok_def)

lemma stack_ok_SetIPv4Address: "stack_ok s \<Longrightarrow> stack_ok (snd (SetIPv4Address a m s))"
  by (auto simp: SetIPv4Address_def stack_ok_def net_ok_def udp_ok_def ping_ok_def tcp_ok_def
      intro: route_ok_SetLocal split: sum.splits)

lemma stack_ok_SetDefaultGateway: "stack_ok s \<Longrightarrow> stack_ok (snd (SetDefaultGateway g s))"
  by (auto simp: SetDefaultGateway_def stack_ok_def net_ok_def udp_ok_def ping_ok_def tcp_ok_def
      intro: route_ok_SetGateway split: sum.splits)

lemma stack_ok_Start_Close: "stack_ok s \<Longrightarrow> stack_ok (Start s)" "stack_ok s \<Longrightarrow> stack_ok (CloseStack s)"
  by (simp_all add: Start_def CloseStack_def stack_ok_def net_ok_def udp_ok_def ping_ok_def tcp_ok_def)

section \<open>Executions\<close>

text \<open>
  One call of the interface, or one turn of the receive goroutine, or the link gaining frames
  that arrive from the network.
\<close>

inductive stack_step :: "Stack \<Rightarrow> Stack \<Rightarrow> bool" where
  arrive: "stack_step s (s\<lparr>st_link := (st_link s)\<lparr>lk_rx := lk_rx (st_link s) @ fs\<rparr>\<rparr>)"
| receive: "stack_step s (pumpOne s)"
| address: "stack_step s (snd (SetIPv4Address a m s))"
| gateway: "stack_step s (snd (SetDefaultGateway g s))"
| begin_rx: "stack_step s (Start s)"
| shutdown: "stack_step s (CloseStack s)"
| ping: "stack_step s (snd (PingOnce d p s))"
| udp_open: "stack_step s (snd (OpenUDP4 port s))"
| udp_write: "a < length (st_udps s) \<Longrightarrow> stack_step s (snd (udpWriteTo a p addr s))"
| udp_read: "a < length (st_udps s) \<Longrightarrow> stack_step s (snd (udpReadFrom a n s))"
| udp_deadline: "a < length (st_udps s) \<Longrightarrow> stack_step s (udpSetReadDeadline a deadline s)"
| udp_close: "a < length (st_udps s) \<Longrightarrow> stack_step s (udpClose a s)"
| tcp_dial: "stack_step s (snd (dialTCP4Once d port s))"
| tcp_read: "a < length (st_tcps s) \<Longrightarrow> stack_step s (snd (tcpRead a n s))"
| tcp_write: "a < length (st_tcps s) \<Longrightarrow> stack_step s (snd (tcpWrite a p s))"
| tcp_close: "a < length (st_tcps s) \<Longrightarrow> stack_step s (tcpClose a s)"

lemma stack_ok_step: "stack_step s t \<Longrightarrow> stack_ok s \<Longrightarrow> stack_ok t"
  by (induction rule: stack_step.induct)
    (simp_all add: stack_ok_link stack_ok_pump stack_ok_SetIPv4Address stack_ok_SetDefaultGateway
      stack_ok_Start_Close stack_ok_PingOnce stack_ok_OpenUDP4 stack_ok_WriteTo stack_ok_ReadFrom
      stack_ok_udpClose stack_ok_udpSetReadDeadline stack_ok_dialTCP4Once stack_ok_Read stack_ok_Write stack_ok_tcpClose)

inductive reachable :: "Stack \<Rightarrow> bool" where
  new: "length (lk_MAC l) = 6 \<Longrightarrow> reachable (NewStack l)"
| step: "reachable s \<Longrightarrow> stack_step s t \<Longrightarrow> reachable t"

lemma reachable_ok: "reachable s \<Longrightarrow> stack_ok s"
  by (induction rule: reachable.induct) (auto simp: stack_ok_New intro: stack_ok_step)

end
