(* ===== verification/Tcp_Reorder.thy ===== *)
theory Tcp_Reorder
  imports Tcp_Stream "HOL-Library.Multiset"
begin

text \<open>
  Completeness of the receive path: a stream cut into at most nine segments arrives whole,
  whatever the order of its segments. The queue has room for eight, and the one segment that is
  not parked is the next one expected.
\<close>

definition seg_off :: "bytes list \<Rightarrow> nat \<Rightarrow> nat" where
  "seg_off ps i = length (concat (take i ps))"

definition seg_entry :: "bytes list \<Rightarrow> u32 \<Rightarrow> nat \<Rightarrow> tcp4ReassemblyEntry" where
  "seg_entry ps base i =
     \<lparr>re_seq = base + of_nat (seg_off ps i), re_payload = ps ! i, re_fin = (Suc i = length ps)\<rparr>"

lemma seg_off_Suc: "i < length ps \<Longrightarrow> seg_off ps (Suc i) = seg_off ps i + length (ps ! i)"
  by (simp add: seg_off_def take_Suc_conv_app_nth)

lemma seg_off_mono: "i \<le> j \<Longrightarrow> seg_off ps i \<le> seg_off ps j"
proof -
  assume "i \<le> j"
  then have "take j ps = take i ps @ take (j - i) (drop i ps)"
    by (metis le_add_diff_inverse take_add)
  then show ?thesis by (simp add: seg_off_def)
qed

lemma seg_off_less:
  assumes "\<forall>p \<in> set ps. p \<noteq> []" "i < j" "j \<le> length ps"
  shows "seg_off ps i < seg_off ps j"
proof -
  have "seg_off ps i < seg_off ps (Suc i)"
    using assms by (simp add: seg_off_Suc)
  also have "\<dots> \<le> seg_off ps j"
    using assms by (intro seg_off_mono) simp
  finally show ?thesis .
qed

lemma seg_off_bound: "seg_off ps i \<le> length (concat ps)"
proof (cases "i \<le> length ps")
  case True
  then show ?thesis using seg_off_mono [of i "length ps" ps] by (simp add: seg_off_def)
qed (simp add: seg_off_def)

text \<open>
  The first \<open>k\<close> segments are in the stream and the later ones among the arrived set \<open>A\<close> are parked.
\<close>

definition parked :: "bytes list \<Rightarrow> u32 \<Rightarrow> nat set \<Rightarrow> nat \<Rightarrow> TCP4Conn \<Rightarrow> bool" where
  "parked ps base A k c =
     (k \<le> length ps \<and> {..<k} \<subseteq> A \<and> tc_rxQueue c = concat (take k ps) \<and>
      tc_rcvNxt c = base + of_nat (seg_off ps k) + (if k = length ps then 1 else 0) \<and>
      tc_peerFinSeen c = (k = length ps) \<and>
      mset (tc_reassembly c) = image_mset (seg_entry ps base) (mset_set {i \<in> A. k \<le> i}))"

lemma mset_remove_nth: "i < length xs \<Longrightarrow> mset (take i xs @ drop (Suc i) xs) = mset xs - {#xs ! i#}"
proof -
  assume "i < length xs"
  then have "mset xs = mset (take i xs @ xs ! i # drop (Suc i) xs)"
    by (simp add: id_take_nth_drop [symmetric])
  then show ?thesis by simp
qed

definition cut_ok :: "bytes list \<Rightarrow> nat set \<Rightarrow> bool" where
  "cut_ok ps A = ((\<forall>p \<in> set ps. p \<noteq> []) \<and> length (concat ps) < 2147483648 \<and> A \<subseteq> {..<length ps})"

lemma seg_seq_inject:
  assumes "cut_ok ps A" "i \<le> length ps" "j \<le> length ps"
  shows "base + of_nat (seg_off ps i) = (base :: u32) + of_nat (seg_off ps j) \<longleftrightarrow> i = j"
proof -
  have "seg_off ps i \<noteq> seg_off ps j" if "i \<noteq> j"
    using assms that seg_off_less [of ps i j] seg_off_less [of ps j i]
    by (cases i j rule: linorder_cases) (auto simp: cut_ok_def)
  moreover have "seg_off ps i < 4294967296" "seg_off ps j < 4294967296"
    using assms seg_off_bound [of ps i] seg_off_bound [of ps j] by (auto simp: cut_ok_def)
  ultimately show ?thesis
    by (auto simp: of_nat_u32_inject)
qed

lemma cut_ok_finite: "cut_ok ps A \<Longrightarrow> finite {i \<in> A. k \<le> i}"
  using finite_subset [of "{i \<in> A. k \<le> i}" "{..<length ps}"] by (auto simp: cut_ok_def)

lemma parked_set:
  assumes "cut_ok ps A" "parked ps base A k c"
  shows "set (tc_reassembly c) = seg_entry ps base ` {i \<in> A. k \<le> i}"
proof -
  have "set_mset (mset (tc_reassembly c)) = seg_entry ps base ` {i \<in> A. k \<le> i}"
    using assms cut_ok_finite [OF assms(1), of k] by (simp only: parked_def) simp
  then show ?thesis by simp
qed

lemma parked_append:
  assumes "parked ps base B k c" "k < length ps" "B \<subseteq> A" "k \<in> A"
    and "mset r = image_mset (seg_entry ps base) (mset_set {i \<in> A. Suc k \<le> i})"
  shows "parked ps base A (Suc k) ((appendSegment (ps ! k) (Suc k = length ps) c)\<lparr>tc_reassembly := r\<rparr>)"
  using assms by (auto simp: parked_def seg_off_Suc take_Suc_conv_app_nth lessThan_Suc)

lemma parked_merge:
  assumes cut: "cut_ok ps A" and p: "parked ps base A k c" and j: "j < length (tc_reassembly c)"
    and seq: "re_seq (tc_reassembly c ! j) = tc_rcvNxt c"
  shows "parked ps base A (Suc k) (mergeEntry j c)"
proof -
  let ?e = "tc_reassembly c ! j"
  have "?e \<in> set (tc_reassembly c)" using j by simp
  then obtain i where i: "i \<in> A" "k \<le> i" "?e = seg_entry ps base i"
    unfolding parked_set [OF cut p] by auto
  then have il: "i < length ps" "k < length ps"
    using cut by (auto simp: cut_ok_def)
  then have "base + of_nat (seg_off ps i) = base + of_nat (seg_off ps k)"
    using p seq i(3) by (simp add: parked_def seg_entry_def)
  then have ik: "i = k"
    using seg_seq_inject [OF cut, of i k base] il by simp
  have "{i \<in> A. k \<le> i} = insert k {i \<in> A. Suc k \<le> i}"
    using i ik by auto
  then have "mset (tc_reassembly c) - {#?e#} = image_mset (seg_entry ps base) (mset_set {i \<in> A. Suc k \<le> i})"
    using p i(3) ik cut_ok_finite [OF cut] by (simp add: parked_def)
  then have "parked ps base A (Suc k) ((appendSegment (ps ! k) (Suc k = length ps) c)
      \<lparr>tc_reassembly := take j (tc_reassembly c) @ drop (j + 1) (tc_reassembly c)\<rparr>)"
    using mset_remove_nth [OF j] i(1) ik il by (intro parked_append [OF p]) simp_all
  then show ?thesis
    by (simp add: mergeEntry_def i(3) ik seg_entry_def)
qed

lemma parked_drain:
  assumes cut: "cut_ok ps A" and "parked ps base A k c"
  shows "\<exists>k'. parked ps base A k' (drainReassemblyLocked c) \<and> k' \<notin> A"
proof -
  have "\<exists>k'. parked ps base A k' (drainReassemblyLocked c)"
    by (rule drain_invariant) (use assms parked_merge in blast)+
  then obtain k' where k': "parked ps base A k' (drainReassemblyLocked c)" by blast
  have "k' \<notin> A"
  proof
    assume k: "k' \<in> A"
    then have "seg_entry ps base k' \<in> set (tc_reassembly (drainReassemblyLocked c))"
      unfolding parked_set [OF cut k'] by simp
    moreover have "k' < length ps" using k cut by (auto simp: cut_ok_def)
    ultimately show False
      using drain_done [of c] k' by (auto simp: parked_def seg_entry_def)
  qed
  with k' show ?thesis by blast
qed

lemma parked_room:
  assumes cut: "cut_ok ps A" and p: "parked ps base A k c" and n: "length ps \<le> 9"
    and i: "i \<notin> A" "k < i" "i < length ps" "k \<notin> A"
  shows "length (tc_reassembly c) < TCP4ReassemblyDepth"
proof -
  have "size (mset (tc_reassembly c)) = card {i \<in> A. k \<le> i}"
    using p by (simp only: parked_def) simp
  then have "length (tc_reassembly c) = card {i \<in> A. k \<le> i}"
    by simp
  also have "\<dots> \<le> card ({..<length ps} - {k, i})"
    using cut i by (intro card_mono) (auto simp: cut_ok_def)
  also have "\<dots> < 8"
    using i n by (subst card_Diff_subset) auto
  finally show ?thesis by (simp add: TCP4ReassemblyDepth_def)
qed

text \<open>One more segment arrives: the in-order prefix grows or the segment is parked.\<close>

lemma parked_accept:
  assumes cut: "cut_ok ps (insert i A)" and p: "parked ps base A k c" and n: "length ps \<le> 9"
    and i: "i \<notin> A" and k: "k \<notin> A"
  shows "\<exists>k'. parked ps base (insert i A) k'
      (acceptCore (base + of_nat (seg_off ps i)) (ps ! i) (Suc i = length ps) c) \<and> k' \<notin> insert i A"
proof -
  have cutA: "cut_ok ps A" and il: "i < length ps"
    using cut by (auto simp: cut_ok_def)
  have ki: "k \<le> i" using p i by (auto simp: parked_def not_le)
  then have nxt: "tc_rcvNxt c = base + of_nat (seg_off ps k)" and kl: "k < length ps"
    using p il by (auto simp: parked_def)
  show ?thesis
  proof (cases "i = k")
    case True
    have "{j \<in> A. k \<le> j} = {j \<in> insert i A. Suc k \<le> j}"
      using i k True by (auto simp: Suc_le_eq le_less)
    then have "mset (tc_reassembly c) =
        image_mset (seg_entry ps base) (mset_set {j \<in> insert i A. Suc k \<le> j})"
      using p by (simp only: parked_def)
    then have "parked ps base (insert i A) (Suc k)
        ((appendSegment (ps ! k) (Suc k = length ps) c)\<lparr>tc_reassembly := tc_reassembly c\<rparr>)"
      using True by (intro parked_append [OF p kl]) auto
    moreover have "(appendSegment (ps ! k) (Suc k = length ps) c)\<lparr>tc_reassembly := tc_reassembly c\<rparr> =
        appendSegment (ps ! k) (Suc k = length ps) c"
      by (cases c) (simp add: appendSegment_def Let_def)
    ultimately have "parked ps base (insert i A) (Suc k) (appendSegment (ps ! k) (Suc k = length ps) c)"
      by simp
    from parked_drain [OF cut this] show ?thesis
      using True nxt by (simp add: acceptCore_def)
  next
    case False
    then have "k < i" using ki by simp
    have "seg_off ps k < seg_off ps i"
      using seg_off_less [of ps k i] cut il \<open>k < i\<close> by (simp add: cut_ok_def)
    moreover have "seg_off ps i < 2147483648"
      using seg_off_bound [of ps i] cut by (simp add: cut_ok_def)
    ultimately have "seqGT (tc_rcvNxt c + of_nat (seg_off ps i - seg_off ps k)) (tc_rcvNxt c)"
      by (intro seqGT_ahead) auto
    moreover have "tc_rcvNxt c + of_nat (seg_off ps i - seg_off ps k) = base + of_nat (seg_off ps i)"
      using \<open>seg_off ps k < seg_off ps i\<close> by (simp add: nxt of_nat_diff)
    ultimately have gt: "seqGT (base + of_nat (seg_off ps i)) (tc_rcvNxt c)" by simp
    have ne: "base + of_nat (seg_off ps i) \<noteq> tc_rcvNxt c"
      using seg_seq_inject [OF cut, of i k base] il kl False nxt by simp
    have "{j \<in> insert i A. k \<le> j} = insert i {j \<in> A. k \<le> j}"
      using ki by auto
    then have "parked ps base (insert i A) k
        (c\<lparr>tc_reassembly := tc_reassembly c @ [seg_entry ps base i]\<rparr>)"
      using p i cut_ok_finite [OF cutA] by (auto simp: parked_def)
    moreover have "acceptCore (base + of_nat (seg_off ps i)) (ps ! i) (Suc i = length ps) c =
        c\<lparr>tc_reassembly := tc_reassembly c @ [seg_entry ps base i]\<rparr>"
      using gt ne parked_room [OF cutA p n i \<open>k < i\<close> il k] by (simp add: acceptCore_def seg_entry_def)
    ultimately show ?thesis
      using k False by auto
  qed
qed

section \<open>Whole segments\<close>

text \<open>A header that announces segment \<open>i\<close> of the stream, and the delivery of a list of segments.\<close>

definition announces :: "bytes list \<Rightarrow> u32 \<Rightarrow> nat \<Rightarrow> TCP4Header \<Rightarrow> bool" where
  "announces ps base i h =
     (th_Seq h = base + of_nat (seg_off ps i) \<and> th_Flags h AND TCPFlagACK \<noteq> 0 \<and>
      th_Flags h AND TCPFlagRST = 0 \<and> (th_Flags h AND TCPFlagFIN \<noteq> 0 \<longleftrightarrow> Suc i = length ps))"

definition deliverAll :: "(TCP4Header \<times> bytes) list \<Rightarrow> TCP4Conn \<times> net \<Rightarrow> TCP4Conn \<times> net" where
  "deliverAll = fold (\<lambda>(h, p) (c, s). deliverSegment h p c s)"

definition receiving :: "bytes list \<Rightarrow> u32 \<Rightarrow> nat set \<Rightarrow> TCP4Conn \<Rightarrow> bool" where
  "receiving ps base A c =
     (\<not> tc_closed c \<and> (\<exists>k. k \<notin> A \<and> parked ps base A k c \<and>
        tc_state c = (if k = length ps then tcpCloseWait else tcpEstablished)))"

lemma parked_cong:
  "tc_rxQueue d = tc_rxQueue c \<Longrightarrow> tc_rcvNxt d = tc_rcvNxt c \<Longrightarrow> tc_peerFinSeen d = tc_peerFinSeen c \<Longrightarrow>
   tc_reassembly d = tc_reassembly c \<Longrightarrow> parked ps base A k d = parked ps base A k c"
  by (simp add: parked_def)

lemma receiving_step:
  assumes cut: "cut_ok ps (insert i A)" and n: "length ps \<le> 9" and i: "i \<notin> A"
    and r: "receiving ps base A c" and h: "announces ps base i h"
  shows "receiving ps base (insert i A) (fst (deliverSegment h (ps ! i) c s))"
proof -
  obtain k where k: "k \<notin> A" "parked ps base A k c" and cl: "\<not> tc_closed c"
    and st: "tc_state c = (if k = length ps then tcpCloseWait else tcpEstablished)"
    using r by (auto simp: receiving_def)
  have "k < length ps"
    using k cut i by (auto simp: parked_def cut_ok_def not_less dest: leD)
  then have est: "tc_state c = tcpEstablished" using st by simp
  let ?w = "c\<lparr>tc_sndWnd := th_Window h\<rparr>"
  define c1 where "c1 = (if seqGT (th_Ack h) (tc_sndUna ?w) then ?w\<lparr>tc_sndUna := th_Ack h\<rparr> else ?w)"
  define c2 where "c2 = acceptCore (base + of_nat (seg_off ps i)) (ps ! i) (Suc i = length ps) c1"
  have "parked ps base A k c1 = parked ps base A k c"
    by (rule parked_cong) (simp_all add: c1_def)
  then have c1: "parked ps base A k c1" "tc_state c1 = tcpEstablished" "\<not> tc_closed c1"
    using k(2) est cl by (simp_all add: c1_def)
  obtain k' where k': "parked ps base (insert i A) k' c2" "k' \<notin> insert i A"
    using parked_accept [OF cut c1(1) n i k(1)] by (auto simp: c2_def)
  have ne: "ps ! i \<noteq> []"
    using cut by (auto simp: cut_ok_def)
  have d: "fst (deliverSegment h (ps ! i) c s) = finTransitions h c2"
    using cl est h ne
    by (simp add: deliverSegment_def Let_def deliverData_fst deliverCore_def announces_def c1_def c2_def)
  have "tc_state c2 = tcpEstablished" "\<not> tc_closed c2"
    using c1 by (simp_all add: c2_def)
  then have "tc_state (finTransitions h c2) = (if k' = length ps then tcpCloseWait else tcpEstablished)"
    using k'(1) by (simp add: finTransitions_def parked_def)
  moreover have "parked ps base (insert i A) k' (finTransitions h c2)"
    using k'(1) parked_cong [of "finTransitions h c2" c2] by simp
  ultimately show ?thesis
    using k'(2) \<open>\<not> tc_closed c2\<close> by (auto simp: receiving_def d)
qed

lemma receiving_all:
  assumes "\<forall>p \<in> set ps. p \<noteq> []" "length (concat ps) < 2147483648" "length ps \<le> 9"
    and "\<forall>i < length ps. announces ps base i (hdr i)"
    and "receiving ps base A c" "distinct xs" "set xs \<inter> A = {}" "A \<union> set xs \<subseteq> {..<length ps}"
  shows "receiving ps base (A \<union> set xs) (fst (deliverAll (map (\<lambda>i. (hdr i, ps ! i)) xs) (c, s)))"
  using assms(5-8)
proof (induction xs arbitrary: A c s)
  case Nil
  then show ?case by (simp add: deliverAll_def)
next
  case (Cons i xs)
  obtain c' s' where d: "deliverSegment (hdr i) (ps ! i) c s = (c', s')" by fastforce
  have "receiving ps base (insert i A) c'"
    using receiving_step [of ps i A base c "hdr i" s] assms(1-4) Cons.prems d
    by (auto simp: cut_ok_def)
  then show ?case
    using Cons.IH [of "insert i A" c' s'] Cons.prems d by (auto simp: deliverAll_def)
qed

lemma receiving_complete:
  assumes "receiving ps base {..<length ps} c" "ps \<noteq> []"
  shows "tc_rxQueue c = concat ps" "tc_peerFinSeen c" "tc_state c = tcpCloseWait"
  using assms by (auto simp: receiving_def parked_def not_less)

section \<open>Properties\<close>

text \<open>
  C2. A stream cut into at most nine non-empty segments, the last carrying the FIN, is received whole and
  the connection enters CLOSE_WAIT, in whatever order the segments arrive.
\<close>

theorem tcp_reorder_complete:
  assumes "ps \<noteq> []" "\<forall>p \<in> set ps. p \<noteq> []" "length ps \<le> 9" "length (concat ps) < 2147483648"
    and "\<forall>i < length ps. announces ps base i (hdr i)"
    and "distinct order" "set order = {..<length ps}"
    and "tc_state c = tcpEstablished" "\<not> tc_closed c" "tc_rcvNxt c = base" "tc_rxQueue c = []"
      "tc_reassembly c = []" "\<not> tc_peerFinSeen c"
  shows "\<exists>c' s'. deliverAll (map (\<lambda>i. (hdr i, ps ! i)) order) (c, s) = (c', s') \<and>
    tc_rxQueue c' = concat ps \<and> tc_peerFinSeen c' \<and> tc_state c' = tcpCloseWait"
proof -
  obtain c' s' where d: "deliverAll (map (\<lambda>i. (hdr i, ps ! i)) order) (c, s) = (c', s')"
    by fastforce
  have "receiving ps base {} c"
    using assms by (auto simp: receiving_def parked_def seg_off_def intro!: exI [of _ 0])
  then have "receiving ps base ({} \<union> set order) c'"
    using receiving_all [OF assms(2,4,3,5), of "{}" c order s] assms(6,7) d by simp
  then have "receiving ps base {..<length ps} c'"
    using assms(7) by simp
  from receiving_complete [OF this assms(1)] d show ?thesis by blast
qed

theorem tcp_reorder_complete_witness:
  "\<exists>c' s'. deliverAll (map (\<lambda>i. (\<lparr>th_SrcPort = 80, th_DstPort = 49152,
        th_Seq = 5 + of_nat (seg_off [[1, 2], [3]] i), th_Ack = 1, th_DataOffset = 5,
        th_Flags = (if i = 1 then 0x11 else 0x10), th_Window = 0, th_Checksum = 0, th_Urgent = 0\<rparr>, [[1, 2], [3]] ! i)) [1, 0])
      (\<lparr>tc_localIP = [10, 0, 2, 15], tc_localPort = 49152, tc_remoteIP = [10, 0, 2, 2], tc_remotePort = 80,
        tc_state = tcpEstablished, tc_sndUna = 1, tc_sndNxt = 1, tc_sndWnd = 0, tc_rcvNxt = 5, tc_rcvWnd = 0,
        tc_rxQueue = [], tc_reassembly = [], tc_peerFinSeen = False, tc_closed = False, tc_readDeadline = 0,
        tc_writeDeadline = 0\<rparr>,
       \<lparr>st_link = \<lparr>lk_MAC = [], lk_rx = [], lk_tx = [], lk_calls = 0, lk_refuse = (\<lambda>_. None)\<rparr>,
        st_arpCache = newARPTable, st_route = emptyRoute, st_ipID = 0, st_closed = False\<rparr>) = (c', s') \<and>
    tc_rxQueue c' = concat [[1, 2], [3]] \<and> tc_peerFinSeen c' \<and> tc_state c' = tcpCloseWait"
  by (rule tcp_reorder_complete [where base = 5])
    (auto simp: announces_def tcp_flag_defs less_Suc_eq)

end
