(* ===== verification/Net_Props.thy ===== *)
theory Net_Props
  imports Net_Reach Tcp_Reorder
begin

text \<open>
  What the stack as a whole does with the frames it receives and with the calls of its interface.
\<close>

text \<open>A configured stack that knows its gateway, on which the properties are exercised.\<close>

definition exampleStack :: Stack where
  "exampleStack =
     (NewStack \<lparr>lk_MAC = [2, 0, 0, 0, 0, 1], lk_rx = [], lk_tx = [], lk_calls = 0, lk_refuse = (\<lambda>_. None)\<rparr>)
       \<lparr>st_route := \<lparr>rt_Local = Some [10, 0, 2, 15], rt_Mask = Some [255, 255, 255, 0],
                     rt_Gateway = Some [10, 0, 2, 2]\<rparr>,
        st_arpCache := updateLocked [10, 0, 2, 2] [2, 0, 0, 0, 0, 9] newARPTable\<rparr>"

lemma exampleStack_simps [simp]:
  "\<not> st_closed exampleStack" "st_udp4Conns exampleStack = Map.empty" "st_tcp4Conns exampleStack = Map.empty"
  "lk_MAC (st_link exampleStack) = [2, 0, 0, 0, 0, 1]"
  "resolvedMAC (st_arpCache exampleStack) [10, 0, 2, 2] = Some [2, 0, 0, 0, 0, 9]"
  "st_tcp4PortRover exampleStack = 0" "st_ipID exampleStack = 0"
  "Lookup (st_route exampleStack) [10, 0, 2, 2] = Inr [10, 0, 2, 2]"
  by (simp_all add: exampleStack_def NewStack_def)
    (subst resolvedMAC_update, simp_all add: Lookup_def subnetContains_def upt_conv_Cons)

section \<open>Frames built by a peer\<close>

lemma dispatch_ipv4:
  assumes "length em = 6" "length es = 6"
  shows "dispatch (em @ es @ put16 EtherTypeIPv4 @ pkt) s = handleIPv4 pkt s"
proof -
  have "EtherTypeIPv4 \<noteq> EtherTypeARP" by (simp add: EtherTypeIPv4_def EtherTypeARP_def)
  then show ?thesis
    using assms by (simp add: dispatch_def ParseEthernet_frame)
qed

text \<open>Zero padding after a message does not change its checksum.\<close>

lemma word_sum_zeros: "word_sum (replicate k 0) = 0"
proof (induction k rule: less_induct)
  case (less k)
  show ?case
  proof (cases "k < 2")
    case True
    then show ?thesis by (auto simp: less_2_cases_iff)
  next
    case False
    then obtain j where "k = Suc (Suc j)" by (metis Suc_1 add_2_eq_Suc' less_eqE not_less add.commute)
    then show ?thesis using less by simp
  qed
qed

lemma word_sum_pad: "word_sum (d @ replicate k 0) = word_sum d"
proof (induction d rule: word_sum.induct)
  case (2 a)
  show ?case by (cases k) (simp_all add: word_sum_zeros)
qed (simp_all add: word_sum_zeros)

lemma InternetChecksum_pad:
  "length d + k \<le> 131072 \<Longrightarrow> InternetChecksum (d @ replicate k 0) = InternetChecksum d"
  by (rule InternetChecksum_eqI) (simp_all add: word_sum_pad)

lemma ParseICMPEcho_pad:
  assumes "length payload + k \<le> 131000"
  shows "ParseICMPEcho (MarshalICMPEcho ty idn seq payload @ replicate k 0) =
    Inr \<lparr>ic_Type = ty, ic_Code = 0, ic_Checksum = icmp_cksum ty idn seq payload, ic_Identifier = idn,
        ic_Sequence = seq, ic_Payload = payload @ replicate k 0\<rparr>"
proof -
  let ?m = "MarshalICMPEcho ty idn seq payload @ replicate k 0"
  have "set16 ?m 2 0 = ([ty, 0] @ [0, 0] @ put16 idn @ put16 seq @ payload) @ replicate k 0"
    by (simp add: MarshalICMPEcho_eq set16_def put16_def)
  then have "InternetChecksum (set16 ?m 2 0) = icmp_cksum ty idn seq payload"
    using assms by (simp only: icmp_cksum_def InternetChecksum_pad) (subst InternetChecksum_pad, simp_all)
  moreover have "u16_at ?m 2 = icmp_cksum ty idn seq payload"
    by (simp add: MarshalICMPEcho_eq wire_simps)
  ultimately show ?thesis
    by (simp add: ParseICMPEcho_def ICMPHeaderLen_def) (simp add: MarshalICMPEcho_eq wire_simps)
qed

text \<open>
  C20. An echo request from a host whose next hop is in the ARP cache is answered with one frame to that hop,
  an echo reply with the identifier and sequence of the request, addressed back to its sender. The
  reply carries the request's payload followed by the padding of the received frame.
\<close>

theorem echo_request_answered:
  assumes "length em = 6" "length es = 6" "length src = 4" "length dst = 4" "length payload + k \<le> 1472"
    and "buildEchoRequestPacket src dst i idn seq payload = Inr pkt"
    and "\<not> st_closed s" "Lookup (st_route s) src = Inr nh" "length nh = 4"
    and "resolvedMAC (st_arpCache s) nh = Some m" "length m = 6" "length (lk_MAC (st_link s)) = 6"
  shows "\<exists>reply. buildEchoReplyPacket dst src (st_ipID s) idn seq (payload @ replicate k 0) = Inr reply \<and>
    dispatch (em @ es @ put16 EtherTypeIPv4 @ pkt @ replicate k 0) s =
      sendOnLink (m @ lk_MAC (st_link s) @ put16 EtherTypeIPv4 @ reply) (snd (nextIPID s))"
proof -
  let ?req = "MarshalICMPEcho ICMPTypeEchoRequest idn seq payload"
  let ?rep = "MarshalICMPEcho ICMPTypeEchoReply idn seq (payload @ replicate k 0)"
  obtain s4 d4 where "To4 src = Some s4" "To4 dst = Some d4"
    and pkt: "pkt = ipv4_header s4 d4 IPProtoICMP i (20 + length ?req)
        (ipv4_cksum s4 d4 IPProtoICMP i (20 + length ?req)) @ ?req"
    using assms(6) unfolding buildEchoRequestPacket_def by (rule MarshalIPv4_Inr)
  then have [simp]: "s4 = src" "d4 = dst"
    using assms by simp_all
  obtain reply where r: "MarshalIPv4 dst src IPProtoICMP (st_ipID s) ?rep = Inr reply"
    using MarshalIPv4_ok [of dst dst src src ?rep IPProtoICMP "st_ipID s"] assms by auto
  then have lr: "length reply \<le> 1500"
    using length_MarshalIPv4 [OF r] by simp
  have "handleIPv4 (pkt @ replicate k 0) s = sendIPv4Frame src reply (snd (nextIPID s))"
    using assms r by (simp add: handleIPv4_def pkt ParseIPv4_any handleICMP_def ParseICMPEcho_pad
        buildEchoReplyPacket_def nextIPID_def)
  also have "\<dots> = sendOnLink (m @ lk_MAC (st_link s) @ put16 EtherTypeIPv4 @ reply) (snd (nextIPID s))"
    using assms lr sendIPv4Frame_cached [of "snd (nextIPID s)" src nh m reply] by simp
  finally show ?thesis
    using dispatch_ipv4 [OF assms(1,2), of "pkt @ replicate k 0" s] r by (simp add: buildEchoReplyPacket_def)
qed

theorem echo_request_answered_witness:
  "\<exists>pkt reply. buildEchoReplyPacket [10, 0, 2, 15] [10, 0, 2, 2] (st_ipID exampleStack) 1 2 ([5, 6] @ replicate 2 0) = Inr reply \<and>
    dispatch ([2, 0, 0, 0, 0, 1] @ [2, 0, 0, 0, 0, 9] @ put16 EtherTypeIPv4 @ pkt @ replicate 2 0) exampleStack =
      sendOnLink ([2, 0, 0, 0, 0, 9] @ lk_MAC (st_link exampleStack) @ put16 EtherTypeIPv4 @ reply) (snd (nextIPID exampleStack))"
proof -
  obtain pkt where "buildEchoRequestPacket [10, 0, 2, 2] [10, 0, 2, 15] 7 1 2 [5, 6] = Inr pkt"
    using MarshalIPv4_ok [of "[10, 0, 2, 2]" _ "[10, 0, 2, 15]"] by (simp add: buildEchoRequestPacket_def)
  then show ?thesis
    by (intro exI [of _ pkt] echo_request_answered [where nh = "[10, 0, 2, 2]"]) simp_all
qed

text \<open>
  A datagram from a peer is delivered to the endpoint bound to its destination port and to no other;
  with no endpoint bound it is dropped, and nothing of the stack changes.
\<close>

lemma udp_demux:
  assumes "length em = 6" "length es = 6" "length src = 4" "length dst = 4"
    and "MarshalUDP4 src dst sp dp payload = Inr w" "udp_cksum src dst sp dp payload \<noteq> 0"
    and "MarshalIPv4 src dst IPProtoUDP i w = Inr pkt"
  shows "dispatch (em @ es @ put16 EtherTypeIPv4 @ pkt) s =
    (Inr (), case st_udp4Conns s dp of
       None \<Rightarrow> s
     | Some a \<Rightarrow> s\<lparr>st_udps := (st_udps s)[a :=
         deliver \<lparr>dg_Src = \<lparr>ua_IP = src, ua_Port = uint sp\<rparr>, dg_Payload = payload\<rparr> (st_udps s ! a)]\<rparr>)"
proof -
  obtain s4 d4 where "To4 src = Some s4" "To4 dst = Some d4"
    and pkt: "pkt = ipv4_header s4 d4 IPProtoUDP i (20 + length w) (ipv4_cksum s4 d4 IPProtoUDP i (20 + length w)) @ w"
    using assms(7) by (rule MarshalIPv4_Inr)
  then have [simp]: "s4 = src" "d4 = dst"
    using assms by simp_all
  have "length payload \<le> 1472"
    using assms(5) MarshalUDP4_too_long [of payload src dst sp dp] by fastforce
  then show ?thesis
    using dispatch_ipv4 [OF assms(1,2), of pkt s] ParseUDP4_MarshalUDP4 [OF _ assms(6,5)] assms(3,4)
    by (simp add: handleIPv4_def pkt ParseIPv4_any handleUDP4_def split: option.splits)
qed

text \<open>
  Ethernet padding behind a TCP packet has no effect: the frame with padding is handled exactly as the
  frame without.
\<close>

lemma tcp_padding_ignored:
  assumes "length em = 6" "length es = 6" "MarshalIPv4 src dst IPProtoTCP i seg = Inr pkt"
  shows "dispatch (em @ es @ put16 EtherTypeIPv4 @ pkt @ pad) s =
    dispatch (em @ es @ put16 EtherTypeIPv4 @ pkt) s"
proof -
  obtain s4 d4 where l: "length s4 = 4" "length d4 = 4" "length seg \<le> 1480"
    and pkt: "pkt = ipv4_header s4 d4 IPProtoTCP i (20 + length seg) (ipv4_cksum s4 d4 IPProtoTCP i (20 + length seg)) @ seg"
    using assms(3) by (rule MarshalIPv4_Inr)
  have u: "unat (of_nat (20 + length seg) :: u16) = 20 + length seg"
    using l(3) by (intro unat_of_nat_u16) simp
  have "handleTCP4 h (seg @ pad) s = handleTCP4 h seg s"
    if "ih_TotalLen h = of_nat (20 + length seg)" for h
    by (simp add: handleTCP4_def that u IPv4HeaderLen_def del: of_nat_add)
  then show ?thesis
    using l by (simp add: dispatch_ipv4 [OF assms(1,2)] handleIPv4_def pkt ParseIPv4_any)
qed

section \<open>Ports\<close>

lemma mod_shift_le:
  fixes n v w m :: nat
  assumes "(n + v) mod m = (n + w) mod m" "v \<le> w" "w < m"
  shows "v = w"
proof -
  have "m dvd (n + w) - (n + v)"
    using assms mod_eq_dvd_iff_nat [of "n + v" "n + w" m] by simp
  then have "m dvd w - v" by simp
  then show ?thesis
    using assms by (auto dest: dvd_imp_le)
qed

lemma mod_shift_inject:
  fixes n v w m :: nat
  assumes "(n + v) mod m = (n + w) mod m" "v < m" "w < m"
  shows "v = w"
  using mod_shift_le [of n v m w] mod_shift_le [of n w m v] assms by (cases "v \<le> w") auto

text \<open>The candidates the allocator probes, as numbers.\<close>

lemma port_candidate:
  assumes "unat r < 16383" "i < 1024"
  shows "unat (49152 + (r + of_nat i) mod (16383 - 1) :: u16) = 49152 + (unat r + i) mod 16382"
proof -
  have "unat (r + of_nat i) = unat r + i"
    using assms by (simp add: unat_word_ariths unat_of_nat take_bit_eq_mod)
  then have "unat ((r + of_nat i) mod (16383 - 1)) = (unat r + i) mod 16382"
    by (simp add: unat_mod)
  moreover have "(unat r + i) mod 16382 < 16382"
    by (rule mod_less_divisor) simp
  ultimately show ?thesis
    by (simp add: unat_word_ariths)
qed

lemma port_candidates_distinct:
  assumes "unat r < 16383"
  shows "inj_on (\<lambda>i. 49152 + (r + of_nat i) mod (16383 - 1) :: u16) {..<1024}"
proof (rule inj_onI)
  fix i j :: nat
  assume ij: "i \<in> {..<1024}" "j \<in> {..<1024}"
    and eq: "(49152 + (r + of_nat i) mod (16383 - 1) :: u16) = 49152 + (r + of_nat j) mod (16383 - 1)"
  have "49152 + (unat r + i) mod 16382 = 49152 + (unat r + j) mod 16382"
    using port_candidate [OF assms, of i] port_candidate [OF assms, of j] ij eq by simp
  then have "(unat r + i) mod 16382 = (unat r + j) mod 16382" by simp
  then show "i = j" by (rule mod_shift_inject) (use ij in simp_all)
qed

text \<open>
  The port allocator returns a port of the ephemeral range 49152..65533 that no connection holds, and it
  fails only when at least 1024 ports are held.
\<close>

lemma alloc_port_fresh:
  assumes "\<not> st_closed s" "unat (st_tcp4PortRover s) < 16383" "finite (dom (st_tcp4Conns s))"
    and "card (dom (st_tcp4Conns s)) < 1024"
  shows "\<exists>p s'. allocTCP4Port s = (Inr p, s') \<and> st_tcp4Conns s p = None \<and> 49152 \<le> unat p \<and> unat p \<le> 65533 \<and>
    unat (st_tcp4PortRover s') < 16383"
proof -
  let ?r = "st_tcp4PortRover s"
  let ?cand = "\<lambda>i. 49152 + (?r + i) mod (16383 - 1)" and ?is = "map of_nat [0..<1024]"
  let ?free = "\<lambda>i. st_tcp4Conns s (?cand i) = None"
  have "\<exists>i \<in> set ?is. ?free i"
  proof (rule ccontr)
    assume "\<not> (\<exists>i \<in> set ?is. ?free i)"
    then have "(\<lambda>i. ?cand (of_nat i)) ` {..<1024} \<subseteq> dom (st_tcp4Conns s)"
      by (auto simp: atLeast0LessThan)
    then have "card ((\<lambda>i. ?cand (of_nat i)) ` {..<1024}) \<le> card (dom (st_tcp4Conns s))"
      using assms(3) by (rule card_mono [rotated])
    then show False
      using assms(4) card_image [OF port_candidates_distinct [OF assms(2)]] by simp
  qed
  then obtain i where f: "find ?free ?is = Some i"
    by (cases "find ?free ?is") (auto simp: find_None_iff)
  then have "?free i" "i \<in> set ?is"
    by (auto simp: find_Some_iff)
  then obtain j where j: "i = of_nat j" "j < 1024" by auto
  have "unat ((?r + i + 1) mod 16383) < 16383"
    by (simp add: unat_mod)
  moreover have "(unat ?r + j) mod 16382 < 16382"
    by (rule mod_less_divisor) simp
  ultimately show ?thesis
    using assms(1) f \<open>?free i\<close> port_candidate [OF assms(2) j(2)] j
    by (simp add: allocTCP4Port_def)
qed

section \<open>Retransmission\<close>

text \<open>Waiting for an acknowledgement without ever sending anything.\<close>

primrec awaitOnly :: "nat \<Rightarrow> nat \<Rightarrow> u32 \<Rightarrow> Stack \<Rightarrow> unit result \<times> Stack" where
  "awaitOnly 0 a wantAck s = (Inl ErrTCP4Timeout, s)"
| "awaitOnly (Suc n) a wantAck s =
     (if tc_closed (st_tcps s ! a) then (Inl ErrTCP4ConnClosed, s)
      else if \<not> seqLT (tc_sndUna (st_tcps s ! a)) wantAck then (Inr (), s)
      else awaitOnly n a wantAck (pumpOne s))"

lemma awaitAck_awaitOnly:
  "n \<le> per \<Longrightarrow> awaitAck n per r a f q k seg w s = awaitOnly n a w s"
  by (induction n arbitrary: per s) (simp_all add: Let_def)

text \<open>
  C23. On the tamago build a data segment is sent exactly once: the per-attempt and the overall checker have the
  same iteration cap, so the overall wait ends before the first retransmission is due.
\<close>

theorem tcp_never_retransmits:
  "sendAndAwaitAck a seg s =
    (let c = st_tcps s ! a; wantAck = tc_sndNxt c + of_nat (length seg) in
     case sendSegmentExt (TCPFlagACK OR TCPFlagPSH) (tc_sndNxt c) (tc_rcvNxt c) seg a
            (s\<lparr>st_tcps := (st_tcps s)[a := c\<lparr>tc_sndNxt := wantAck\<rparr>]\<rparr>) of
       (Inl e, s2) \<Rightarrow> (Inl e, s2)
     | (Inr _, s2) \<Rightarrow> awaitOnly maxPumpIters a wantAck s2)"
  by (simp add: sendAndAwaitAck_def Let_def awaitAck_awaitOnly newDeadlineChecker_def case_prod_beta
      split: sum.splits)

text \<open>
  C24. Closing a connection that the peer has reset leaves its port in the demux table: the early return of
  Close skips the release.
\<close>

theorem tcp_reset_leaks_port:
  assumes "\<not> tc_closed (st_tcps s ! a)" "a < length (st_tcps s)" "th_Flags h AND TCPFlagRST \<noteq> 0"
    and "st_tcp4Conns s p = Some a"
  shows "st_tcp4Conns (tcpClose a (s\<lparr>st_tcps := (st_tcps s)[a := fst (deliverSegment h pl (st_tcps s ! a) s)]\<rparr>)) p = Some a"
  using assms by (simp add: tcpClose_def deliverSegment_def)

theorem tcp_reset_leaks_port_witness:
  "let s = exampleStack\<lparr>st_tcps := [newTCB [10, 0, 2, 15] 49152 [10, 0, 2, 2] 80 1], st_tcp4Conns := [49152 \<mapsto> 0]\<rparr>;
      h = \<lparr>th_SrcPort = 80, th_DstPort = 49152, th_Seq = 0, th_Ack = 2, th_DataOffset = 5, th_Flags = 4,
        th_Window = 0, th_Checksum = 0, th_Urgent = 0\<rparr>
   in st_tcp4Conns (tcpClose 0 (s\<lparr>st_tcps := (st_tcps s)[0 := fst (deliverSegment h [] (st_tcps s ! 0) s)]\<rparr>)) 49152 = Some 0"
  unfolding Let_def by (rule tcp_reset_leaks_port) (simp_all add: newTCB_def TCPFlagRST_def)

section \<open>Executions\<close>

text \<open>
  C4. Every state a program can reach through the interface of the stack, with any frames arriving, satisfies
  the stack invariant: resolved ARP rows have been signalled exactly once, route fields are four
  bytes, bound ports point to open endpoints of that port, receive queues and reassembly queues are
  within their bounds, and each pending ping has an empty waiter of its own.
\<close>

theorem stack_invariant:
  assumes "reachable s"
  shows "stack_ok s"
  by (rule reachable_ok [OF assms])

theorem stack_invariant_witness:
  "stack_ok (snd (OpenUDP4 68 (NewStack \<lparr>lk_MAC = [2, 0, 0, 0, 0, 1], lk_rx = [], lk_tx = [], lk_calls = 0,
      lk_refuse = (\<lambda>_. None)\<rparr>)))"
  by (rule stack_invariant) (rule reachable.step [OF reachable.new stack_step.udp_open], simp)

text \<open>
  In every reachable state two different open UDP endpoints are bound to different ports.
\<close>

lemma udp_ports_exclusive:
  assumes "reachable s" "a < length (st_udps s)" "b < length (st_udps s)" "a \<noteq> b"
    and "\<not> uc_closed (st_udps s ! a)" "\<not> uc_closed (st_udps s ! b)"
  shows "uc_localPort (st_udps s ! a) \<noteq> uc_localPort (st_udps s ! b)"
  using udp_ok_other_port [of s a b] reachable_ok [OF assms(1)] assms by (auto simp: stack_ok_def)

end
