(* ===== verification/Dial_Retry.thy ===== *)
theory Dial_Retry
  imports Net_Stack
begin

text \<open>
  Retry with exponential backoff, \<^verbatim>\<open>uefiboard/ministack/dial_retry.go\<close>. The two dial loops have the
  same text over a different single attempt, so the loop is one definition over the attempt; the
  TCP instance uses \<open>dialTCP4Once\<close>, and the TLS handshake (the Go standard library) is a parameter.
  Durations are 64-bit integers that wrap when doubled, and the delays that were slept are returned.
\<close>

type_synonym i64 = "64 word"

datatype dial_error = NetErr net_error | TLSNoServerName | CertInvalid | OtherErr string

datatype dial_failure = Raw dial_error | DialAttemptsExhausted int dial_error

definition DefaultDialAttemptsFallback :: int where "DefaultDialAttemptsFallback = 3"
definition DefaultDialBaseDelayFallback :: i64 where "DefaultDialBaseDelayFallback = 2000000000"

definition dialAttemptsOrDefault :: "Stack \<Rightarrow> int \<Rightarrow> int" where
  "dialAttemptsOrDefault s n =
     (if n \<le> 0 then
        (if st_DefaultDialAttempts s > 0 then st_DefaultDialAttempts s else DefaultDialAttemptsFallback)
      else n)"

definition dialBaseDelayOrDefault :: "Stack \<Rightarrow> i64 \<Rightarrow> i64" where
  "dialBaseDelayOrDefault s d =
     (if sint d \<le> 0 then
        (if st_DefaultDialBaseDelay s > 0 then word_of_int (st_DefaultDialBaseDelay s)
         else DefaultDialBaseDelayFallback)
      else d)"

fun isRetryableDialError :: "dial_error \<Rightarrow> bool" where
  "isRetryableDialError TLSNoServerName = False"
| "isRetryableDialError (NetErr ErrTCP4InvalidAddr) = False"
| "isRetryableDialError (NetErr ErrDNSInvalidServer) = False"
| "isRetryableDialError (NetErr ErrStackClosed) = False"
| "isRetryableDialError (NetErr ErrIPv4InvalidIP) = False"
| "isRetryableDialError (NetErr ErrTCP4NoLocalAddr) = False"
| "isRetryableDialError (NetErr ErrTCP4ConnRefused) = False"
| "isRetryableDialError CertInvalid = False"
| "isRetryableDialError _ = True"

text \<open>\<open>left\<close> counts the attempts that remain, so the last one is the one with a single attempt left.\<close>

fun retryLoop ::
  "('s \<Rightarrow> (dial_error + 'c) \<times> 's) \<Rightarrow> int \<Rightarrow> nat \<Rightarrow> i64 \<Rightarrow> dial_error option \<Rightarrow> 's \<Rightarrow>
   (dial_failure + 'c) \<times> 's \<times> i64 list" where
  "retryLoop once attempts 0 delay lastErr s =
     (Inl (case lastErr of
             None \<Rightarrow> DialAttemptsExhausted attempts (OtherErr [])
           | Some e \<Rightarrow> if attempts = 1 then Raw e else DialAttemptsExhausted attempts e), s, [])"
| "retryLoop once attempts (Suc left) delay lastErr s =
     (case once s of
        (Inr conn, s') \<Rightarrow> (Inr conn, s', [])
      | (Inl err, s') \<Rightarrow>
          if \<not> isRetryableDialError err then (Inl (Raw err), s', [])
          else if left = 0 then retryLoop once attempts 0 delay (Some err) s'
          else let (r, s'', ds) = retryLoop once attempts left (delay * 2) (Some err) s'
               in (r, s'', (if sint delay > 0 then delay # ds else ds)))"

definition DialTCP4WithRetry ::
  "ip \<Rightarrow> u16 \<Rightarrow> int \<Rightarrow> i64 \<Rightarrow> Stack \<Rightarrow> (dial_failure + nat) \<times> Stack \<times> i64 list" where
  "DialTCP4WithRetry dst port attempts baseDelay s =
     (let n = dialAttemptsOrDefault s attempts;
          d = dialBaseDelayOrDefault s baseDelay;
          once = (\<lambda>t. case dialTCP4Once dst port t of
                        (Inl e, t') \<Rightarrow> (Inl (NetErr e), t') | (Inr a, t') \<Rightarrow> (Inr a, t'))
      in retryLoop once n (nat n) d None s)"

definition DialTLSWithRetry ::
  "(Stack \<Rightarrow> (dial_error + 'c) \<times> Stack) \<Rightarrow> int \<Rightarrow> i64 \<Rightarrow> Stack \<Rightarrow> (dial_failure + 'c) \<times> Stack \<times> i64 list" where
  "DialTLSWithRetry dialTLSOnce attempts baseDelay s =
     (let n = dialAttemptsOrDefault s attempts; d = dialBaseDelayOrDefault s baseDelay
      in retryLoop dialTLSOnce n (nat n) d None s)"

definition DialTCP4 :: "ip \<Rightarrow> u16 \<Rightarrow> Stack \<Rightarrow> (dial_failure + nat) \<times> Stack \<times> i64 list" where
  "DialTCP4 dst port s =
     DialTCP4WithRetry dst port (st_DefaultDialAttempts s) (word_of_int (st_DefaultDialBaseDelay s)) s"

section \<open>The schedule\<close>

lemma sint_double:
  fixes d :: i64
  assumes "0 < sint d" "sint d * 2 < 9223372036854775808"
  shows "sint (d * 2) = sint d * 2"
proof -
  have "sint (d * 2) = signed_take_bit 63 (sint d * 2)"
    by (simp add: sint_word_ariths)
  also have "\<dots> = sint d * 2"
    by (rule signed_take_bit_int_eq_self) (use assms in simp_all)
  finally show ?thesis .
qed

lemma retryLoop_again:
  assumes "retryLoop once att (Suc (Suc n)) d le s = (r, s', ds)" "0 < sint d"
    and "once s = (Inl e, t)" "isRetryableDialError e"
  obtains ds' where "retryLoop once att (Suc n) (d * 2) (Some e) t = (r, s', ds')" "ds = d # ds'"
proof -
  obtain r1 s1 ds1 where i: "retryLoop once att (Suc n) (d * 2) (Some e) t = (r1, s1, ds1)"
    by (metis prod_cases3)
  then have "retryLoop once att (Suc (Suc n)) d le s = (r1, s1, d # ds1)"
    using assms(2-4) by (subst retryLoop.simps(2)) (simp del: retryLoop.simps(2))
  then show ?thesis
    using that [of ds1] i assms(1) by simp
qed

lemma doubled_small:
  fixes d :: i64
  assumes "0 < sint d" "sint d * 2 ^ Suc n < 9223372036854775808"
  shows "sint (d * 2) = sint d * 2" "sint (d * 2) * 2 ^ n < 9223372036854775808" "0 < sint (d * 2)"
proof -
  have b: "sint d * 2 * 2 ^ n < 9223372036854775808"
    using assms(2) by (simp add: mult.assoc)
  have "sint d * 2 * 1 \<le> sint d * 2 * 2 ^ n"
    using assms(1) by (intro mult_left_mono) auto
  then have "sint d * 2 < 9223372036854775808"
    using b by linarith
  then show "sint (d * 2) = sint d * 2"
    by (rule sint_double [OF assms(1)])
  then show "sint (d * 2) * 2 ^ n < 9223372036854775808" "0 < sint (d * 2)"
    using b assms(1) by simp_all
qed

lemma retryLoop_delays:
  assumes "retryLoop once att (Suc n) d le s = (r, s', ds)" "0 < sint d" "sint d * 2 ^ n < 9223372036854775808"
  shows "length ds \<le> n \<and> ds = map (\<lambda>k. d * 2 ^ k) [0..<length ds]"
  using assms
proof (induction n arbitrary: d le s ds)
  case 0
  then show ?case by (auto split: prod.splits sum.splits if_splits)
next
  case (Suc n)
  show ?case
  proof (cases "ds = []")
    case False
    obtain e t where o: "once s = (Inl e, t)" "isRetryableDialError e"
      using Suc.prems(1) False
      by (subst (asm) retryLoop.simps(2))
        (auto split: prod.splits sum.splits if_splits simp del: retryLoop.simps(2))
    obtain ds' where ds': "retryLoop once att (Suc n) (d * 2) (Some e) t = (r, s', ds')" "ds = d # ds'"
      by (rule retryLoop_again [OF Suc.prems(1,2) o])
    have "length ds' \<le> n \<and> ds' = map (\<lambda>k. d * 2 * 2 ^ k) [0..<length ds']"
      using Suc.IH [OF ds'(1)] doubled_small [OF Suc.prems(2,3)] by blast
    then show ?thesis
      unfolding ds'(2) by (auto simp: map_upt_Suc mult.assoc simp del: upt_Suc)
  qed simp
qed

lemma retryLoop_outcome:
  assumes "retryLoop once att (Suc n) d le s = (r, s', ds)" "0 < sint d" "sint d * 2 ^ n < 9223372036854775808"
  shows "case r of
      Inr _ \<Rightarrow> True
    | Inl (Raw e) \<Rightarrow> \<not> isRetryableDialError e \<or> att = 1
    | Inl (DialAttemptsExhausted m e) \<Rightarrow> m = att \<and> isRetryableDialError e \<and> length ds = n"
  using assms
proof (induction n arbitrary: d le s ds)
  case 0
  then show ?case by (auto split: prod.splits sum.splits if_splits)
next
  case (Suc n)
  show ?case
  proof (cases "\<exists>e t. once s = (Inl e, t) \<and> isRetryableDialError e")
    case True
    then obtain e t where o: "once s = (Inl e, t)" "isRetryableDialError e" by blast
    obtain ds' where ds': "retryLoop once att (Suc n) (d * 2) (Some e) t = (r, s', ds')" "ds = d # ds'"
      by (rule retryLoop_again [OF Suc.prems(1,2) o])
    show ?thesis
      using Suc.IH [OF ds'(1)] doubled_small [OF Suc.prems(2,3)] ds'(2)
      by (simp split: sum.splits dial_failure.splits)
  next
    case False
    then show ?thesis
      using Suc.prems(1)
      by (subst (asm) retryLoop.simps(2))
        (auto split: prod.splits sum.splits if_splits simp del: retryLoop.simps(2))
  qed
qed

section \<open>Properties\<close>

text \<open>
  A dial makes at most the configured number of attempts, sleeping the base delay, twice it, four times it
  and so on between them. An error comes back unwrapped only if it is deterministic or a single
  attempt was asked for; otherwise every attempt failed with a transient error.
\<close>

lemma dial_retry_schedule:
  assumes "retryLoop once att (nat att) d None s = (r, s', ds)" "0 < att"
    and "0 < sint d" "sint d * 2 ^ nat att < 9223372036854775808"
  shows "length ds < nat att \<and> ds = map (\<lambda>k. d * 2 ^ k) [0..<length ds] \<and>
    (case r of
       Inr _ \<Rightarrow> True
     | Inl (Raw e) \<Rightarrow> \<not> isRetryableDialError e \<or> att = 1
     | Inl (DialAttemptsExhausted m e) \<Rightarrow> m = att \<and> isRetryableDialError e \<and> length ds = nat att - 1)"
proof -
  obtain n where n: "nat att = Suc n"
    using assms(2) by (cases "nat att") auto
  have "sint d * 2 ^ n \<le> sint d * 2 ^ Suc n"
    using assms(3) by simp
  then have "sint d * 2 ^ n < 9223372036854775808"
    using assms(4) unfolding n by linarith
  with retryLoop_delays [of once att n d None s r s' ds] retryLoop_outcome [of once att n d None s r s' ds]
  show ?thesis
    using assms(1,3) unfolding n diff_Suc_1 by (simp del: retryLoop.simps(2))
qed

end
