(* ===== verification/Go_Strings.thy ===== *)
theory Go_Strings
  imports Prelude
begin

text \<open>
  Go strings are byte sequences; they are modelled as HOL strings, whose characters are the 256
  byte values. This theory holds the conversions to and from byte slices and the functions of the
  packages \<^verbatim>\<open>strings\<close>, \<^verbatim>\<open>strconv\<close> and \<^verbatim>\<open>bytes\<close> that the sources use.
\<close>

definition chars :: "bytes \<Rightarrow> string" where
  "chars bs = map (\<lambda>b. char_of (unat b)) bs"

definition unchars :: "string \<Rightarrow> bytes" where
  "unchars cs = map (\<lambda>c. of_nat (of_char c)) cs"

lemma length_chars [simp]: "length (chars bs) = length bs" "length (unchars cs) = length cs"
  by (simp_all add: chars_def unchars_def)

lemma of_nat_unat_byte: "of_nat (unat (b :: byte)) = b"
  by simp

lemma of_char_less: "of_char c < (256 :: nat)"
  by (metis char_of_mod_256 mod_less_divisor of_char_of zero_less_numeral of_char_mod_256)

lemma chars_unchars [simp]: "chars (unchars cs) = cs"
proof -
  have "unat (of_nat (of_char c) :: byte) = of_char c" for c :: char
    using of_char_less [of c] by (simp add: unat_of_nat take_bit_eq_mod)
  then show ?thesis by (simp add: chars_def unchars_def comp_def)
qed

lemma unchars_chars [simp]: "unchars (chars bs) = bs"
proof -
  have "(of_nat (of_char (char_of (unat b) :: char)) :: byte) = b" for b :: byte
    using unat_byte_less [of b] by simp
  then show ?thesis by (simp add: chars_def unchars_def comp_def)
qed

lemma chars_append: "chars (a @ b) = chars a @ chars b" "unchars (s @ t) = unchars s @ unchars t"
  by (simp_all add: chars_def unchars_def)

section \<open>Splitting and joining\<close>

text \<open>\<^verbatim>\<open>strings.Split\<close> on a separator of one byte.\<close>

fun Split :: "string \<Rightarrow> char \<Rightarrow> string list" where
  "Split [] c = [[]]"
| "Split (x # xs) c =
     (if x = c then [] # Split xs c
      else case Split xs c of
        [] \<Rightarrow> [[x]]
      | l # ls \<Rightarrow> (x # l) # ls)"

fun Join :: "string list \<Rightarrow> char \<Rightarrow> string" where
  "Join [] c = []"
| "Join [l] c = l"
| "Join (l # ls) c = l @ c # Join ls c"

lemma Split_nonempty [simp]: "Split s c \<noteq> []"
  by (induction s) (auto split: list.splits)

lemma Join_Cons: "ls \<noteq> [] \<Longrightarrow> Join (l # ls) c = l @ c # Join ls c"
  by (cases ls) auto

lemma Join_Split [simp]: "Join (Split s c) c = s"
proof (induction s)
  case (Cons x xs)
  then show ?case
  proof (cases "Split xs c")
    case (Cons l ls)
    then show ?thesis
      using Cons.IH by (cases ls) (auto simp: Join_Cons)
  qed simp
qed simp

lemma Split_no_sep: "l \<in> set (Split s c) \<Longrightarrow> c \<notin> set l"
proof (induction s arbitrary: l)
  case (Cons x xs)
  then show ?case by (cases "Split xs c") (auto split: if_splits)
qed simp

lemma Split_append: "c \<notin> set l \<Longrightarrow> Split (l @ c # s) c = l # Split s c"
  by (induction l) auto

lemma Split_whole: "c \<notin> set l \<Longrightarrow> Split l c = [l]"
  by (induction l) auto

lemma Split_Join: "ls \<noteq> [] \<Longrightarrow> \<forall>l \<in> set ls. c \<notin> set l \<Longrightarrow> Split (Join ls c) c = ls"
  by (induction ls c rule: Join.induct) (auto simp: Split_append Split_whole)

definition HasPrefix :: "'a list \<Rightarrow> 'a list \<Rightarrow> bool" where
  "HasPrefix s p = (take (length p) s = p)"

definition HasSuffix :: "string \<Rightarrow> string \<Rightarrow> bool" where
  "HasSuffix s p = (length p \<le> length s \<and> drop (length s - length p) s = p)"

definition TrimPrefix :: "string \<Rightarrow> string \<Rightarrow> string" where
  "TrimPrefix s p = (if HasPrefix s p then drop (length p) s else s)"

definition TrimSuffix :: "string \<Rightarrow> string \<Rightarrow> string" where
  "TrimSuffix s p = (if HasSuffix s p then take (length s - length p) s else s)"

text \<open>\<^verbatim>\<open>strings.Index\<close> and \<^verbatim>\<open>strings.IndexByte\<close>; \<open>None\<close> stands for -1.\<close>

fun Index :: "'a list \<Rightarrow> 'a list \<Rightarrow> nat option" where
  "Index [] p = (if p = [] then Some 0 else None)"
| "Index (x # xs) p = (if HasPrefix (x # xs) p then Some 0 else map_option Suc (Index xs p))"

fun IndexByte :: "string \<Rightarrow> char \<Rightarrow> nat option" where
  "IndexByte [] c = None"
| "IndexByte (x # xs) c = (if x = c then Some 0 else map_option Suc (IndexByte xs c))"

definition LastIndexByte :: "string \<Rightarrow> char \<Rightarrow> nat option" where
  "LastIndexByte s c = map_option (\<lambda>i. length s - 1 - i) (IndexByte (rev s) c)"

definition Contains :: "string \<Rightarrow> string \<Rightarrow> bool" where
  "Contains s p = (Index s p \<noteq> None)"

lemma IndexByte_Some:
  "IndexByte s c = Some i \<Longrightarrow> i < length s \<and> s = take i s @ c # drop (Suc i) s \<and> c \<notin> set (take i s)"
  by (induction s c arbitrary: i rule: IndexByte.induct) (auto split: if_splits)

lemma IndexByte_None: "IndexByte s c = None \<longleftrightarrow> c \<notin> set s"
  by (induction s c rule: IndexByte.induct) auto

lemma IndexByte_append: "c \<notin> set a \<Longrightarrow> IndexByte (a @ c # b) c = Some (length a)"
  by (induction a) auto

text \<open>ASCII case folding, and the white space \<^verbatim>\<open>TrimSpace\<close> removes from ASCII text.\<close>

definition lower_char :: "char \<Rightarrow> char" where
  "lower_char c =
     (let n = of_char c :: nat in if 65 \<le> n \<and> n \<le> 90 then char_of (n + 32) else c)"

definition ToLower :: "string \<Rightarrow> string" where
  "ToLower s = map lower_char s"

definition is_space :: "char \<Rightarrow> bool" where
  "is_space c = ((of_char c :: nat) \<in> {9, 10, 11, 12, 13, 32})"

definition TrimSpace :: "string \<Rightarrow> string" where
  "TrimSpace s = rev (dropWhile is_space (rev (dropWhile is_space s)))"

definition EqualFold :: "string \<Rightarrow> string \<Rightarrow> bool" where
  "EqualFold a b = (ToLower a = ToLower b)"

text \<open>\<^verbatim>\<open>strings.SplitN\<close> on one byte, and \<^verbatim>\<open>strings.Split\<close> on a line break.\<close>

primrec SplitN :: "string \<Rightarrow> char \<Rightarrow> nat \<Rightarrow> string list" where
  "SplitN s c 0 = []"
| "SplitN s c (Suc n) =
     (case IndexByte s c of
        None \<Rightarrow> [s]
      | Some i \<Rightarrow> if n = 0 then [s] else take i s # SplitN (drop (i + 1) s) c n)"

definition CR :: char where "CR = CHR 0x0D"
definition LF :: char where "LF = CHR 0x0A"

definition CRLF :: string where "CRLF = [CR, LF]"

fun SplitCRLF :: "string \<Rightarrow> string list" where
  "SplitCRLF [] = [[]]"
| "SplitCRLF (x # xs) =
     (if x = CR \<and> xs \<noteq> [] \<and> hd xs = LF then [] # SplitCRLF (tl xs)
      else case SplitCRLF xs of
        [] \<Rightarrow> [[x]]
      | l # ls \<Rightarrow> (x # l) # ls)"

lemma SplitCRLF_nonempty [simp]: "SplitCRLF s \<noteq> []"
  by (induction s rule: SplitCRLF.induct) (auto split: list.splits)

lemma SplitCRLF_line: "CR \<notin> set l \<Longrightarrow> SplitCRLF l = [l]"
  by (induction l) auto

lemma SplitCRLF_append: "CR \<notin> set l \<Longrightarrow> SplitCRLF (l @ CRLF @ s) = l # SplitCRLF s"
  by (induction l) (auto simp: CRLF_def LF_def CR_def)

lemma Index_first:
  assumes "p \<noteq> []" "\<forall>i < length a. \<not> HasPrefix (drop i (a @ p @ b)) p"
  shows "Index (a @ p @ b) p = Some (length a)"
  using assms(2)
proof (induction a)
  case Nil
  then show ?case using assms(1) by (cases p) (auto simp: HasPrefix_def)
next
  case (Cons x a)
  have "\<not> HasPrefix (x # a @ p @ b) p"
    using Cons.prems [rule_format, of 0] by simp
  moreover have "\<forall>i < length a. \<not> HasPrefix (drop i (a @ p @ b)) p"
    using Cons.prems by (metis Suc_less_eq append_Cons drop_Suc_Cons length_Cons)
  ultimately show ?case using Cons.IH by simp
qed

lemma Index_Some: "Index s p = Some i \<Longrightarrow> i + length p \<le> length s \<and> take (length p) (drop i s) = p"
proof (induction s arbitrary: i)
  case (Cons x xs)
  show ?case
  proof (cases "HasPrefix (x # xs) p")
    case True
    then have "i = 0" using Cons.prems by simp
    moreover have "length p \<le> length (x # xs)"
      using True unfolding HasPrefix_def by (metis length_take min.cobounded1 min.commute)
    ultimately show ?thesis using True by (simp add: HasPrefix_def)
  next
    case False
    then show ?thesis using Cons by auto
  qed
qed (auto split: if_splits)

section \<open>Numbers\<close>

definition digit_char :: "nat \<Rightarrow> char" where "digit_char d = char_of (48 + d)"

fun nat_to_string :: "nat \<Rightarrow> string" where
  "nat_to_string n =
     (if n < 10 then [digit_char n] else nat_to_string (n div 10) @ [digit_char (n mod 10)])"

declare nat_to_string.simps [simp del]

definition is_digit :: "char \<Rightarrow> bool" where
  "is_digit c = (48 \<le> (of_char c :: nat) \<and> of_char c \<le> (57 :: nat))"

definition digit_val :: "char \<Rightarrow> nat" where "digit_val c = of_char c - 48"

definition string_to_nat :: "string \<Rightarrow> nat option" where
  "string_to_nat s =
     (if s = [] \<or> \<not> list_all is_digit s then None
      else Some (fold (\<lambda>c n. 10 * n + digit_val c) s 0))"

lemma digit_char_props:
  "d < 10 \<Longrightarrow> is_digit (digit_char d) \<and> digit_val (digit_char d) = d"
  by (simp add: is_digit_def digit_val_def digit_char_def of_char_of)

lemma nat_to_string_digits: "list_all is_digit (nat_to_string n) \<and> nat_to_string n \<noteq> []"
proof (induction n rule: nat_to_string.induct)
  case (1 n)
  then show ?case
    by (subst (1 2) nat_to_string.simps) (auto simp: digit_char_props)
qed

lemma nat_to_string_value: "fold (\<lambda>c n. 10 * n + digit_val c) (nat_to_string n) 0 = n"
proof (induction n rule: nat_to_string.induct)
  case (1 n)
  then show ?case
    by (subst nat_to_string.simps) (auto simp: digit_char_props)
qed

text \<open>\<^verbatim>\<open>strconv.ParseUint(s, 10, bits)\<close> and \<^verbatim>\<open>strconv.Atoi\<close> on a 64-bit platform.\<close>

definition ParseUint10 :: "nat \<Rightarrow> string \<Rightarrow> nat option" where
  "ParseUint10 bits s = (case string_to_nat s of None \<Rightarrow> None | Some n \<Rightarrow> if n < 2 ^ bits then Some n else None)"

definition Atoi :: "string \<Rightarrow> int option" where
  "Atoi s =
     (let neg = (s \<noteq> [] \<and> hd s = CHR ''-'');
          body = (if s \<noteq> [] \<and> (hd s = CHR ''-'' \<or> hd s = CHR ''+'') then tl s else s) in
      case string_to_nat body of
        None \<Rightarrow> None
      | Some n \<Rightarrow>
          let v = (if neg then - int n else int n) in
          if - (2 ^ 63) \<le> v \<and> v < 2 ^ 63 then Some v else None)"

text \<open>\<^verbatim>\<open>strconv.ParseUint(s, 16, bits)\<close>.\<close>

definition hex_val :: "char \<Rightarrow> nat option" where
  "hex_val c =
     (let n = of_char c :: nat in
      if 48 \<le> n \<and> n \<le> 57 then Some (n - 48)
      else if 97 \<le> n \<and> n \<le> 102 then Some (n - 87)
      else if 65 \<le> n \<and> n \<le> 70 then Some (n - 55)
      else None)"

definition ParseUint16 :: "nat \<Rightarrow> string \<Rightarrow> nat option" where
  "ParseUint16 bits s =
     (if s = [] \<or> list_ex (\<lambda>c. hex_val c = None) s then None
      else let n = fold (\<lambda>c n. 16 * n + the (hex_val c)) s 0 in if n < 2 ^ bits then Some n else None)"

definition hex_char :: "nat \<Rightarrow> char" where
  "hex_char d = (if d < 10 then char_of (48 + d) else char_of (87 + d))"

fun nat_to_hex :: "nat \<Rightarrow> string" where
  "nat_to_hex n = (if n < 16 then [hex_char n] else nat_to_hex (n div 16) @ [hex_char (n mod 16)])"

declare nat_to_hex.simps [simp del]

lemma hex_val_char: "d < 16 \<Longrightarrow> hex_val (hex_char d) = Some d"
  by (simp add: hex_val_def hex_char_def of_char_of Let_def)

lemma nat_to_hex_value:
  "nat_to_hex n \<noteq> [] \<and> \<not> list_ex (\<lambda>c. hex_val c = None) (nat_to_hex n) \<and>
   fold (\<lambda>c n. 16 * n + the (hex_val c)) (nat_to_hex n) 0 = n"
proof (induction n rule: nat_to_hex.induct)
  case (1 n)
  then show ?case
    by (cases "n < 16") (simp_all add: nat_to_hex.simps [of n] hex_val_char)
qed

lemma ParseUint16_hex: "n < 2 ^ bits \<Longrightarrow> ParseUint16 bits (nat_to_hex n) = Some n"
  using nat_to_hex_value [of n] by (simp add: ParseUint16_def Let_def)

lemma string_to_nat_to_string [simp]: "string_to_nat (nat_to_string n) = Some n"
  using nat_to_string_digits [of n] by (simp add: string_to_nat_def nat_to_string_value)

end
