(* ===== verification/Dhcp4.thy ===== *)
theory Dhcp4
  imports Net_Stack Go_Strings
begin

text \<open>
  The DHCPv4 client, \<^verbatim>\<open>uefiboard/ministack/dhcp4.go\<close>: the option list, the BOOTP message, the lease and the
  four-message exchange over a UDP endpoint of the stack.
\<close>

definition dhcp4ClientPort :: u16 where "dhcp4ClientPort = 68"
definition dhcp4ServerPort :: u16 where "dhcp4ServerPort = 67"
definition dhcp4HeaderLen :: nat where "dhcp4HeaderLen = 240"
definition dhcp4MagicCookie :: u32 where "dhcp4MagicCookie = 0x63825363"
definition dhcp4FlagBroadcast :: u16 where "dhcp4FlagBroadcast = 0x8000"
definition dhcp4BootRequest :: u8 where "dhcp4BootRequest = 1"
definition dhcp4BootReply :: u8 where "dhcp4BootReply = 2"
definition dhcp4HTypeEthernet :: u8 where "dhcp4HTypeEthernet = 1"
definition dhcp4HLenEthernet :: u8 where "dhcp4HLenEthernet = 6"

definition dhcp4MsgDiscover :: u8 where "dhcp4MsgDiscover = 1"
definition dhcp4MsgOffer :: u8 where "dhcp4MsgOffer = 2"
definition dhcp4MsgRequest :: u8 where "dhcp4MsgRequest = 3"
definition dhcp4MsgAck :: u8 where "dhcp4MsgAck = 5"
definition dhcp4MsgNak :: u8 where "dhcp4MsgNak = 6"

definition dhcp4OptPad :: u8 where "dhcp4OptPad = 0"
definition dhcp4OptSubnetMask :: u8 where "dhcp4OptSubnetMask = 1"
definition dhcp4OptRouter :: u8 where "dhcp4OptRouter = 3"
definition dhcp4OptDNS :: u8 where "dhcp4OptDNS = 6"
definition dhcp4OptRequestedIP :: u8 where "dhcp4OptRequestedIP = 50"
definition dhcp4OptLeaseTime :: u8 where "dhcp4OptLeaseTime = 51"
definition dhcp4OptMessageType :: u8 where "dhcp4OptMessageType = 53"
definition dhcp4OptServerID :: u8 where "dhcp4OptServerID = 54"
definition dhcp4OptParameterList :: u8 where "dhcp4OptParameterList = 55"
definition dhcp4OptClientID :: u8 where "dhcp4OptClientID = 61"
definition dhcp4OptBootfileName :: u8 where "dhcp4OptBootfileName = 67"
definition dhcp4OptEnd :: u8 where "dhcp4OptEnd = 255"

lemmas dhcp4_consts = dhcp4ClientPort_def dhcp4ServerPort_def dhcp4HeaderLen_def dhcp4MagicCookie_def
  dhcp4FlagBroadcast_def dhcp4BootRequest_def dhcp4BootReply_def dhcp4HTypeEthernet_def
  dhcp4HLenEthernet_def dhcp4MsgDiscover_def dhcp4MsgOffer_def dhcp4MsgRequest_def dhcp4MsgAck_def
  dhcp4MsgNak_def dhcp4OptPad_def dhcp4OptSubnetMask_def dhcp4OptRouter_def dhcp4OptDNS_def
  dhcp4OptRequestedIP_def dhcp4OptLeaseTime_def dhcp4OptMessageType_def dhcp4OptServerID_def
  dhcp4OptParameterList_def dhcp4OptClientID_def dhcp4OptBootfileName_def dhcp4OptEnd_def

record DHCP4Lease =
  le_IP :: ip
  le_Mask :: "bytes option"
  le_Gateway :: "ip option"
  le_DNS :: "ip list"
  le_Server :: "ip option"
  le_Duration :: int
  le_BootfileName :: string

type_synonym dhcp4Options = "u8 \<rightharpoonup> bytes"

type_synonym dhcp4OptionEntry = "u8 \<times> bytes"

primrec marshalOptionList :: "dhcp4OptionEntry list \<Rightarrow> bytes" where
  "marshalOptionList [] = [dhcp4OptEnd]"
| "marshalOptionList (e # es) = [fst e, of_nat (length (snd e))] @ snd e @ marshalOptionList es"

definition marshalDHCP4Options :: "dhcp4OptionEntry list \<Rightarrow> bytes" where
  "marshalDHCP4Options entries = marshalOptionList entries"

function parseOptionList :: "bytes \<Rightarrow> dhcp4Options \<Rightarrow> dhcp4Options result" where
  "parseOptionList [] out = Inr out"
| "parseOptionList (tag # r) out =
     (if tag = dhcp4OptEnd then Inr out
      else if tag = dhcp4OptPad then parseOptionList r out
      else case r of
        [] \<Rightarrow> Inl ErrDHCP4BadFormat
      | l # r' \<Rightarrow>
          if unat l > length r' then Inl ErrDHCP4BadFormat
          else parseOptionList (drop (unat l) r') (out(tag \<mapsto> take (unat l) r')))"
  by pat_completeness auto
termination
  by (relation "measure (\<lambda>(bs, out). length bs)") auto

definition parseDHCP4Options :: "bytes \<Rightarrow> dhcp4Options result" where
  "parseDHCP4Options buf = parseOptionList buf Map.empty"

definition buildDHCP4Message :: "u32 \<Rightarrow> mac \<Rightarrow> bytes \<Rightarrow> bytes result" where
  "buildDHCP4Message xid m opts =
     (if length m \<noteq> 6 then Inl ErrInvalidMAC
      else Inr ([dhcp4BootRequest, dhcp4HTypeEthernet, dhcp4HLenEthernet, 0] @ put32 xid @ put16 0 @
                put16 dhcp4FlagBroadcast @ replicate 16 0 @ m @ replicate 10 0 @ replicate 192 0 @
                put32 dhcp4MagicCookie @ opts @ replicate 4 0))"

definition parseDHCP4Message :: "bytes \<Rightarrow> (u32 \<times> ip \<times> dhcp4Options) result" where
  "parseDHCP4Message buf =
     (if length buf < dhcp4HeaderLen + 4 then Inl ErrDHCP4BadFormat
      else if buf ! 0 \<noteq> dhcp4BootReply then Inl ErrDHCP4BadFormat
      else if u32_at buf 236 \<noteq> dhcp4MagicCookie then Inl ErrDHCP4BadFormat
      else case parseDHCP4Options (drop 240 buf) of
        Inl e \<Rightarrow> Inl e
      | Inr opts \<Rightarrow>
          let bf = takeWhile (\<lambda>b. b \<noteq> 0) (slice buf 108 236);
              opts' = (if opts dhcp4OptBootfileName = None \<and> length bf > 0
                       then opts(dhcp4OptBootfileName \<mapsto> bf) else opts)
          in Inr (u32_at buf 4, slice buf 16 20, opts'))"

definition dhcp4ClientIDFromMAC :: "mac \<Rightarrow> bytes" where
  "dhcp4ClientIDFromMAC m = 0x01 # take 6 (m @ replicate 6 0)"

definition dhcp4ParameterRequestList :: bytes where
  "dhcp4ParameterRequestList =
     [dhcp4OptSubnetMask, dhcp4OptRouter, dhcp4OptDNS, dhcp4OptLeaseTime, dhcp4OptBootfileName]"

definition dhcp4XIDFromMAC :: "mac \<Rightarrow> u32 \<Rightarrow> u32" where
  "dhcp4XIDFromMAC m seed =
     (if length m < 6 then seed
      else seed XOR u32_at m 2 XOR u32_at ([0, 0] @ slice m 0 2) 0)"

definition parseDHCP4MessageType :: "dhcp4Options \<Rightarrow> u8 result" where
  "parseDHCP4MessageType opts =
     (case opts dhcp4OptMessageType of
        None \<Rightarrow> Inl ErrDHCP4MissingOption
      | Some v \<Rightarrow> if length v \<noteq> 1 then Inl ErrDHCP4BadFormat else Inr (v ! 0))"

definition option_of_len :: "(nat \<Rightarrow> bool) \<Rightarrow> (bytes \<Rightarrow> 'a) \<Rightarrow> bytes option \<Rightarrow> 'a option" where
  "option_of_len ok f v = (case v of Some b \<Rightarrow> if ok (length b) then Some (f b) else None | None \<Rightarrow> None)"

definition dhcp4LeaseFromOptions :: "ip \<Rightarrow> dhcp4Options \<Rightarrow> DHCP4Lease" where
  "dhcp4LeaseFromOptions yiaddr opts =
     \<lparr>le_IP = yiaddr,
      le_Mask = option_of_len (\<lambda>n. n = 4) id (opts dhcp4OptSubnetMask),
      le_Gateway = option_of_len (\<lambda>n. n \<ge> 4) (take 4) (opts dhcp4OptRouter),
      le_DNS = (case opts dhcp4OptDNS of
                  None \<Rightarrow> []
                | Some d \<Rightarrow> map (\<lambda>i. slice d (i * 4) (i * 4 + 4)) [0..<min (length d div 4) 4]),
      le_Server = option_of_len (\<lambda>n. n = 4) id (opts dhcp4OptServerID),
      le_Duration = (case option_of_len (\<lambda>n. n = 4) (\<lambda>l. uint (u32_at l 0)) (opts dhcp4OptLeaseTime) of
                       None \<Rightarrow> 0 | Some secs \<Rightarrow> secs * 1000000000),
      le_BootfileName = (case opts dhcp4OptBootfileName of
                           None \<Rightarrow> []
                         | Some bf \<Rightarrow> chars (rev (dropWhile (\<lambda>b. b = 0) (rev bf))))\<rparr>"

section \<open>The exchange\<close>

text \<open>
  \<open>deadline\<close> is the absolute time the acquisition computes from its timeout; it is stored in the endpoint
  and read by nothing on this platform, where the checkers count iterations.
\<close>

primrec dhcp4WaitLoop ::
  "nat \<Rightarrow> nat \<Rightarrow> u32 \<Rightarrow> u8 \<Rightarrow> int \<Rightarrow> Stack \<Rightarrow> (ip \<times> dhcp4Options) result \<times> Stack" where
  "dhcp4WaitLoop 0 a wantXID wantType deadline s = (Inl ErrDHCP4Timeout, s)"
| "dhcp4WaitLoop (Suc n) a wantXID wantType deadline s =
     (case udpReadFrom a 1500 (udpSetReadDeadline a deadline s) of
        (Inl e, s') \<Rightarrow> (Inl (if e = ErrUDP4ReadTimeout then ErrDHCP4Timeout else e), s')
      | (Inr (msg, _), s') \<Rightarrow>
          (case parseDHCP4Message msg of
             Inl _ \<Rightarrow> dhcp4WaitLoop n a wantXID wantType deadline s'
           | Inr (gotXID, gotYI, gotOpts) \<Rightarrow>
               if gotXID \<noteq> wantXID then dhcp4WaitLoop n a wantXID wantType deadline s'
               else case parseDHCP4MessageType gotOpts of
                 Inl _ \<Rightarrow> dhcp4WaitLoop n a wantXID wantType deadline s'
               | Inr mtype \<Rightarrow>
                   if mtype = wantType then (Inr (gotYI, gotOpts), s')
                   else if mtype = dhcp4MsgNak then (Inl ErrDHCP4Nak, s')
                   else dhcp4WaitLoop n a wantXID wantType deadline s'))"

definition dhcp4WaitFor :: "nat \<Rightarrow> u32 \<Rightarrow> u8 \<Rightarrow> int \<Rightarrow> Stack \<Rightarrow> (ip \<times> dhcp4Options) result \<times> Stack" where
  "dhcp4WaitFor a wantXID wantType deadline s = dhcp4WaitLoop (dc_stop newDeadlineChecker) a wantXID wantType deadline s"

definition dhcp4XIDSeedDefault :: u32 where "dhcp4XIDSeedDefault = 0x4E455453"

definition dhcp4Broadcast :: netAddr where
  "dhcp4Broadcast =
     UDPAddrPtr \<lparr>ua_IP = replicate 10 0 @ [0xFF, 0xFF] @ [255, 255, 255, 255], ua_Port = uint dhcp4ServerPort\<rparr>"

definition discoverOptions :: "mac \<Rightarrow> dhcp4OptionEntry list" where
  "discoverOptions m =
     [(dhcp4OptMessageType, [dhcp4MsgDiscover]), (dhcp4OptClientID, dhcp4ClientIDFromMAC m),
      (dhcp4OptParameterList, dhcp4ParameterRequestList)]"

definition requestOptions :: "mac \<Rightarrow> ip \<Rightarrow> bytes \<Rightarrow> dhcp4OptionEntry list" where
  "requestOptions m offerYIAddr serverID =
     [(dhcp4OptMessageType, [dhcp4MsgRequest]), (dhcp4OptClientID, dhcp4ClientIDFromMAC m),
      (dhcp4OptRequestedIP, slice offerYIAddr 0 4), (dhcp4OptServerID, serverID),
      (dhcp4OptParameterList, dhcp4ParameterRequestList)]"

text \<open>The body between opening the endpoint and the deferred close.\<close>

definition dhcp4Exchange :: "nat \<Rightarrow> mac \<Rightarrow> u32 \<Rightarrow> int \<Rightarrow> Stack \<Rightarrow> DHCP4Lease result \<times> Stack" where
  "dhcp4Exchange a m xid deadline s =
     (case buildDHCP4Message xid m (marshalDHCP4Options (discoverOptions m)) of
        Inl e \<Rightarrow> (Inl e, s)
      | Inr discoverMsg \<Rightarrow>
          (case udpWriteTo a discoverMsg dhcp4Broadcast s of
             (Inl e, s1) \<Rightarrow> (Inl e, s1)
           | (Inr _, s1) \<Rightarrow>
               (case dhcp4WaitFor a xid dhcp4MsgOffer deadline s1 of
                  (Inl e, s2) \<Rightarrow> (Inl e, s2)
                | (Inr (offerYIAddr, offerOpts), s2) \<Rightarrow>
                    (case option_of_len (\<lambda>n. n = 4) id (offerOpts dhcp4OptServerID) of
                       None \<Rightarrow> (Inl ErrDHCP4MissingOption, s2)
                     | Some serverID \<Rightarrow>
                         (case buildDHCP4Message xid m
                                 (marshalDHCP4Options (requestOptions m offerYIAddr serverID)) of
                            Inl e \<Rightarrow> (Inl e, s2)
                          | Inr requestMsg \<Rightarrow>
                              (case udpWriteTo a requestMsg dhcp4Broadcast s2 of
                                 (Inl e, s3) \<Rightarrow> (Inl e, s3)
                               | (Inr _, s3) \<Rightarrow>
                                   (case dhcp4WaitFor a xid dhcp4MsgAck deadline s3 of
                                      (Inl e, s4) \<Rightarrow> (Inl e, s4)
                                    | (Inr (ackYIAddr, ackOpts), s4) \<Rightarrow>
                                        (Inr (dhcp4LeaseFromOptions ackYIAddr ackOpts), s4))))))))"

definition dhcp4Acquire :: "int \<Rightarrow> u32 \<Rightarrow> Stack \<Rightarrow> DHCP4Lease result \<times> Stack" where
  "dhcp4Acquire deadline xidSeed s =
     (let m = lk_MAC (st_link s); xid = dhcp4XIDFromMAC m xidSeed in
      case OpenUDP4 dhcp4ClientPort s of
        (Inl e, s1) \<Rightarrow> (Inl e, s1)
      | (Inr a, s1) \<Rightarrow> (let (r, s2) = dhcp4Exchange a m xid deadline s1 in (r, udpClose a s2)))"

definition DHCP4Acquire :: "int \<Rightarrow> Stack \<Rightarrow> DHCP4Lease result \<times> Stack" where
  "DHCP4Acquire deadline s = dhcp4Acquire deadline dhcp4XIDSeedDefault s"

section \<open>Options\<close>

lemma unat_of_nat_u8: "n < 256 \<Longrightarrow> unat (of_nat n :: u8) = n"
  by (simp add: unat_of_nat take_bit_eq_mod)

definition option_ok :: "dhcp4OptionEntry \<Rightarrow> bool" where
  "option_ok e = (fst e \<noteq> dhcp4OptPad \<and> fst e \<noteq> dhcp4OptEnd \<and> length (snd e) \<le> 255)"

definition addOption :: "dhcp4OptionEntry \<Rightarrow> dhcp4Options \<Rightarrow> dhcp4Options" where
  "addOption e m = m(fst e \<mapsto> snd e)"

lemma parseOptionList_marshal:
  "\<forall>e \<in> set es. option_ok e \<Longrightarrow>
   parseOptionList (marshalOptionList es @ rest) out = Inr (fold addOption es out)"
proof (induction es arbitrary: out)
  case Nil
  then show ?case by simp
next
  case (Cons e es)
  then have "unat (of_nat (length (snd e)) :: u8) = length (snd e)"
    by (intro unat_of_nat_u8) (auto simp: option_ok_def)
  with Cons show ?case
    by (simp add: option_ok_def addOption_def [of e out])
qed

lemma addOption_add: "addOption e m = m ++ map_of [e]"
  by (cases e) (simp add: addOption_def fun_eq_iff)

lemma fold_addOption: "fold addOption es m = m ++ map_of (rev es)"
proof (induction es arbitrary: m)
  case (Cons e es)
  then show ?case by (simp add: addOption_add del: map_add_upd)
qed simp

definition opts_enc :: "dhcp4OptionEntry list \<Rightarrow> bytes result" where
  "opts_enc es = (if \<forall>e \<in> set es. option_ok e then Inr (marshalDHCP4Options es) else Inl ErrDHCP4BadFormat)"

lemma parseDHCP4Options_marshal:
  "\<forall>e \<in> set es. option_ok e \<Longrightarrow> parseDHCP4Options (marshalDHCP4Options es @ rest) = Inr (map_of (rev es))"
  by (simp add: parseDHCP4Options_def marshalDHCP4Options_def parseOptionList_marshal fold_addOption)

interpretation dhcp_opts: wire_codec opts_enc parseDHCP4Options "\<lambda>es. map_of (rev es)"
  by unfold_locales (use parseDHCP4Options_marshal [where rest = "[]"] in \<open>auto simp: opts_enc_def split: if_splits\<close>)

section \<open>Messages\<close>

text \<open>The reply a server sends for an exchange, with every field the client reads.\<close>

definition bootReply :: "u32 \<Rightarrow> ip \<Rightarrow> dhcp4OptionEntry list \<Rightarrow> bytes" where
  "bootReply xid yiaddr es =
     [2, 1, 6, 0] @ put32 xid @ replicate 8 0 @ yiaddr @ replicate 88 0 @ replicate 128 0 @
     put32 dhcp4MagicCookie @ marshalDHCP4Options es"

lemma bootReply_fields:
  assumes "length yiaddr = 4"
  shows "bootReply xid yiaddr es ! 0 = 2" "u32_at (bootReply xid yiaddr es) 4 = xid"
    "slice (bootReply xid yiaddr es) 16 20 = yiaddr"
    "u32_at (bootReply xid yiaddr es) 236 = dhcp4MagicCookie"
    "drop 240 (bootReply xid yiaddr es) = marshalDHCP4Options es"
    "slice (bootReply xid yiaddr es) 108 236 = replicate 128 0"
proof -
  define pre where "pre = [2, 1, 6, 0] @ put32 xid @ replicate 8 0 @ yiaddr @ replicate 88 0"
  have l: "length pre = 108"
    using assms by (simp add: pre_def)
  have b: "bootReply xid yiaddr es = pre @ replicate 128 0 @ put32 dhcp4MagicCookie @ marshalDHCP4Options es"
    by (simp add: bootReply_def pre_def)
  show "bootReply xid yiaddr es ! 0 = 2"
    by (simp add: bootReply_def)
  show "u32_at (bootReply xid yiaddr es) 4 = xid"
    by (simp add: bootReply_def u32_at_def put32_def)
  show "slice (bootReply xid yiaddr es) 16 20 = yiaddr"
    using assms by (simp add: bootReply_def slice_def)
  show "slice (bootReply xid yiaddr es) 108 236 = replicate 128 0"
    using l by (simp add: b slice_def)
  show "drop 240 (bootReply xid yiaddr es) = marshalDHCP4Options es"
    using l by (simp add: b)
  show "u32_at (bootReply xid yiaddr es) 236 = dhcp4MagicCookie"
    using l by (simp add: b u32_at_def nth_append put32_def)
qed

lemma length_marshalOptionList: "length (marshalOptionList es) \<ge> 1 + 2 * length es"
  by (induction es) auto

lemma parse_bootReply:
  assumes "length yiaddr = 4" "\<forall>e \<in> set es. option_ok e" "length (marshalDHCP4Options es) \<ge> 4"
  shows "parseDHCP4Message (bootReply xid yiaddr es) = Inr (xid, yiaddr, map_of (rev es))"
proof -
  have "takeWhile (\<lambda>b. b \<noteq> 0) (replicate 128 (0 :: u8)) = []"
    by (subst takeWhile_replicate) simp
  moreover have "length (bootReply xid yiaddr es) \<ge> 244"
    using assms by (simp add: bootReply_def)
  ultimately show ?thesis
    using assms parseDHCP4Options_marshal [of es "[]"]
    by (simp add: parseDHCP4Message_def bootReply_fields dhcp4HeaderLen_def dhcp4BootReply_def)
qed

section \<open>Leases\<close>

lemma lease_shape:
  "length y = 4 \<Longrightarrow> (let l = dhcp4LeaseFromOptions y opts in
     length (le_IP l) = 4 \<and> pred_option (\<lambda>m. length m = 4) (le_Mask l) \<and>
     pred_option (\<lambda>g. length g = 4) (le_Gateway l) \<and> length (le_DNS l) \<le> 4 \<and>
     (\<forall>d \<in> set (le_DNS l). length d = 4))"
  by (auto simp: dhcp4LeaseFromOptions_def option_of_len_def Let_def split: option.splits)

text \<open>What a successful wait has seen.\<close>

lemma dhcp4WaitLoop_genuine:
  "dhcp4WaitLoop n a x ty deadline s = (Inr (yi, opts), s') \<Longrightarrow>
   \<exists>msg. parseDHCP4Message msg = Inr (x, yi, opts) \<and> parseDHCP4MessageType opts = Inr ty"
  by (induction n arbitrary: s) (auto split: prod.splits sum.splits if_splits)

lemma parseDHCP4Message_yiaddr: "parseDHCP4Message msg = Inr (x, yi, opts) \<Longrightarrow> length yi = 4"
  by (auto simp: parseDHCP4Message_def dhcp4HeaderLen_def Let_def split: if_splits sum.splits)

lemma dhcp4Exchange_lease:
  "dhcp4Exchange a m xid deadline s = (Inr lease, s') \<Longrightarrow>
   \<exists>msg yi opts. parseDHCP4Message msg = Inr (xid, yi, opts) \<and> parseDHCP4MessageType opts = Inr dhcp4MsgAck \<and>
     lease = dhcp4LeaseFromOptions yi opts"
  by (auto simp: dhcp4Exchange_def dhcp4WaitFor_def dest!: dhcp4WaitLoop_genuine
      split: sum.splits prod.splits option.splits)

section \<open>Properties\<close>

text \<open>
  Option lists survive the wire: any list of options with tags other than pad and end and values of at
  most 255 bytes is read back, whatever bytes follow, with the later of two options of one tag winning.
\<close>

lemma dhcp_options_roundtrip:
  assumes "\<forall>e \<in> set es. fst e \<noteq> 0 \<and> fst e \<noteq> 255 \<and> length (snd e) \<le> 255"
  shows "parseDHCP4Options (marshalDHCP4Options es @ rest) = Inr (map_of (rev es))"
  using parseDHCP4Options_marshal [of es rest] assms
  by (simp add: option_ok_def dhcp4OptPad_def dhcp4OptEnd_def)

end
