(* ===== verification/Net_Udp.thy ===== *)
theory Net_Udp
  imports Net_Props
begin

text \<open>
  A UDP exchange as an application sees it: a frame with a datagram for an open endpoint, waiting on
  the link, is what the next read of that endpoint returns.
\<close>

definition udp_bytes :: "ip \<Rightarrow> ip \<Rightarrow> u16 \<Rightarrow> u16 \<Rightarrow> bytes \<Rightarrow> bytes" where
  "udp_bytes src dst sp dp payload =
     put16 sp @ put16 dp @ put16 (of_nat (8 + length payload)) @ put16 (udp_wire_cksum src dst sp dp payload) @ payload"

definition udp_frame :: "mac \<Rightarrow> mac \<Rightarrow> ip \<Rightarrow> ip \<Rightarrow> u16 \<Rightarrow> u16 \<Rightarrow> u16 \<Rightarrow> bytes \<Rightarrow> bytes" where
  "udp_frame em es src dst sp dp i payload =
     (let w = udp_bytes src dst sp dp payload; n = 20 + length w in
      em @ es @ put16 EtherTypeIPv4 @ ipv4_header src dst IPProtoUDP i n (ipv4_cksum src dst IPProtoUDP i n) @ w)"

text \<open>The conditions under which such a frame reaches the port \<open>dp\<close>.\<close>

definition udp_frame_ok :: "mac \<Rightarrow> mac \<Rightarrow> ip \<Rightarrow> ip \<Rightarrow> u16 \<Rightarrow> u16 \<Rightarrow> bytes \<Rightarrow> bool" where
  "udp_frame_ok em es src dst sp dp payload =
     (length em = 6 \<and> length es = 6 \<and> length src = 4 \<and> length dst = 4 \<and> length payload \<le> 1472 \<and>
      udp_cksum src dst sp dp payload \<noteq> 0)"

lemma dispatch_udp_frame:
  assumes "udp_frame_ok em es src dst sp dp payload" "st_udp4Conns s dp = Some a"
  shows "dispatch (udp_frame em es src dst sp dp i payload) s =
    (Inr (), s\<lparr>st_udps := (st_udps s)[a :=
       deliver \<lparr>dg_Src = \<lparr>ua_IP = src, ua_Port = uint sp\<rparr>, dg_Payload = payload\<rparr> (st_udps s ! a)]\<rparr>)"
proof -
  have l: "length payload \<le> 1472" "length src = 4" "length dst = 4"
    and c: "udp_cksum src dst sp dp payload \<noteq> 0"
    using assms(1) by (simp_all add: udp_frame_ok_def)
  have "MarshalUDP4 src dst sp dp payload = Inr (udp_bytes src dst sp dp payload)"
    using MarshalUDP4_ok [OF l(1)] by (simp add: udp_bytes_def)
  from ParseUDP4_MarshalUDP4 [OF l(1) c this] show ?thesis
    using assms l
    by (simp add: udp_frame_def Let_def dispatch_ipv4 udp_frame_ok_def handleIPv4_def ParseIPv4_any handleUDP4_def)
qed

lemma pump_udp_frame:
  assumes "udp_frame_ok em es src dst sp dp payload" "st_udp4Conns s dp = Some a"
    and "lk_rx (st_link s) = Some (udp_frame em es src dst sp dp i payload) # rs"
  shows "pumpOne s = s\<lparr>st_link := (st_link s)\<lparr>lk_rx := rs\<rparr>, st_udps := (st_udps s)[a :=
       deliver \<lparr>dg_Src = \<lparr>ua_IP = src, ua_Port = uint sp\<rparr>, dg_Payload = payload\<rparr> (st_udps s ! a)]\<rparr>"
  using assms dispatch_udp_frame [OF assms(1), of "s\<lparr>st_link := (st_link s)\<lparr>lk_rx := rs\<rparr>\<rparr>" a i]
  by (simp add: pumpOne_def RecvFrame_def)

lemma read_udp_frame:
  assumes "udp_frame_ok em es src dst sp dp payload" "st_udp4Conns s dp = Some a"
    and "lk_rx (st_link s) = Some (udp_frame em es src dst sp dp i payload) # rs"
    and "a < length (st_udps s)" "uc_queue (st_udps s ! a) = []" "\<not> uc_closed (st_udps s ! a)"
  shows "udpReadFrom a cap s =
    (Inr (take cap payload, \<lparr>ua_IP = src, ua_Port = uint sp\<rparr>), s\<lparr>st_link := (st_link s)\<lparr>lk_rx := rs\<rparr>\<rparr>)"
proof -
  obtain N where N: "dc_stop newDeadlineChecker = Suc (Suc N)"
    by (simp add: newDeadlineChecker_def maxPumpIters_def)
  let ?c = "st_udps s ! a"
  have "(st_udps s)[a := ?c\<lparr>uc_queue := []\<rparr>] = st_udps s"
    using assms(4,5) by (metis UDP4Conn.surjective UDP4Conn.update_convs(2) list_update_id)
  then show ?thesis
    using assms pump_udp_frame [OF assms(1-3)]
    by (simp add: udpReadFrom_def N deliver_def chan_send_def udp4QueueDepth_def)
qed

text \<open>The stack after one read that consumed the first frame: only that frame and the deadline changed.\<close>

definition afterRead :: "nat \<Rightarrow> int \<Rightarrow> bytes option list \<Rightarrow> Stack \<Rightarrow> Stack" where
  "afterRead a deadline rs s =
     (let s' = udpSetReadDeadline a deadline s in s'\<lparr>st_link := (st_link s')\<lparr>lk_rx := rs\<rparr>\<rparr>)"

lemma read_with_deadline:
  assumes "udp_frame_ok em es src dst sp dp payload" "st_udp4Conns s dp = Some a"
    and "lk_rx (st_link s) = Some (udp_frame em es src dst sp dp i payload) # rs"
    and "a < length (st_udps s)" "uc_queue (st_udps s ! a) = []" "\<not> uc_closed (st_udps s ! a)"
  shows "udpReadFrom a cap (udpSetReadDeadline a deadline s) =
    (Inr (take cap payload, \<lparr>ua_IP = src, ua_Port = uint sp\<rparr>), afterRead a deadline rs s)"
  using assms(2-6) read_udp_frame [OF assms(1), of "udpSetReadDeadline a deadline s" a i rs cap]
  by (simp add: udpSetReadDeadline_def SetReadDeadline_def afterRead_def)

text \<open>Sending leaves the endpoints and the frames that wait on the link alone.\<close>

definition keeps :: "Stack \<Rightarrow> Stack \<Rightarrow> bool" where
  "keeps s t =
     (st_udps t = st_udps s \<and> st_udp4Conns t = st_udp4Conns s \<and> st_closed t = st_closed s \<and>
      st_route t = st_route s \<and> st_arpCache t = st_arpCache s \<and> lk_rx (st_link t) = lk_rx (st_link s) \<and>
      lk_MAC (st_link t) = lk_MAC (st_link s) \<and> lk_refuse (st_link t) = lk_refuse (st_link s))"

definition willing :: "Stack \<Rightarrow> bool" where
  "willing s = (\<not> st_closed s \<and> (\<forall>n. lk_refuse (st_link s) n = None) \<and> length (lk_MAC (st_link s)) = 6 \<and>
     route_ok (st_route s))"

lemma willing_keeps: "keeps s t \<Longrightarrow> willing s \<Longrightarrow> willing t"
  by (simp add: keeps_def willing_def)

lemma sendOnLink_keeps:
  "\<forall>n. lk_refuse (st_link s) n = None \<Longrightarrow> \<exists>t. sendOnLink f (snd (nextIPID s)) = (Inr (), t) \<and> keeps s t"
  by (simp add: sendOnLink_def nextIPID_def SendFrame_ok keeps_def)

lemma broadcast_sends:
  assumes "willing s" "length p \<le> 1472" "\<not> uc_closed (st_udps s ! a)"
    and "To4 (ua_IP addr) = Some [255, 255, 255, 255]"
  shows "\<exists>t. udpWriteTo a p (UDPAddrPtr addr) s = (Inr (), t) \<and> keeps s t"
proof -
  define src where "src = (case rt_Local (st_route s) of Some x \<Rightarrow> x | None \<Rightarrow> [0, 0, 0, 0])"
  have "length src = 4"
    using assms(1) by (auto simp: src_def willing_def route_ok_def split: option.splits)
  then have s4: "To4 src = Some src" by simp
  define w where "w = udp_bytes src [255, 255, 255, 255] (uc_localPort (st_udps s ! a)) (word_of_int (ua_Port addr)) p"
  have u: "MarshalUDP4 src [255, 255, 255, 255] (uc_localPort (st_udps s ! a)) (word_of_int (ua_Port addr)) p = Inr w"
    using MarshalUDP4_ok [OF assms(2)] by (simp add: w_def udp_bytes_def)
  have "length w \<le> 1480"
    using assms(2) by (simp add: w_def udp_bytes_def)
  then obtain pkt where pkt: "MarshalIPv4 src [255, 255, 255, 255] IPProtoUDP (st_ipID s) w = Inr pkt"
    using MarshalIPv4_ok [OF s4, of "[255, 255, 255, 255]"] by fastforce
  then have "MarshalEthernet BroadcastMAC (lk_MAC (st_link s)) EtherTypeIPv4 pkt =
      Inr (BroadcastMAC @ lk_MAC (st_link s) @ put16 EtherTypeIPv4 @ pkt)"
    using length_MarshalIPv4 [OF pkt] assms(1) by (intro MarshalEthernet_ok) (simp_all add: willing_def)
  then show ?thesis
    using assms u pkt sendOnLink_keeps [of s "BroadcastMAC @ lk_MAC (st_link s) @ put16 EtherTypeIPv4 @ pkt"]
    by (simp add: udpWriteTo_def sendUDP4_def src_def [symmetric] Let_def case_prod_beta isLimitedBroadcast_def
        willing_def)
qed

text \<open>Sending to a host whose next hop is in the cache.\<close>

lemma unicast_sends:
  assumes "willing s" "length p \<le> 1472" "\<not> uc_closed (st_udps s ! a)"
    and "To4 (ua_IP addr) = Some d4" "\<not> isLimitedBroadcast d4"
    and "Lookup (st_route s) d4 = Inr nh" "resolvedMAC (st_arpCache s) nh = Some m" "length m = 6"
  shows "\<exists>t. udpWriteTo a p (UDPAddrPtr addr) s = (Inr (), t) \<and> keeps s t"
proof -
  define src where "src = (case rt_Local (st_route s) of Some x \<Rightarrow> x | None \<Rightarrow> [0, 0, 0, 0])"
  have "length src = 4"
    using assms(1) by (auto simp: src_def willing_def route_ok_def split: option.splits)
  then have s4: "To4 src = Some src" by simp
  have d4: "To4 d4 = Some d4"
    using assms(4) To4_length by simp
  define w where "w = udp_bytes src d4 (uc_localPort (st_udps s ! a)) (word_of_int (ua_Port addr)) p"
  have u: "MarshalUDP4 src d4 (uc_localPort (st_udps s ! a)) (word_of_int (ua_Port addr)) p = Inr w"
    using MarshalUDP4_ok [OF assms(2)] by (simp add: w_def udp_bytes_def)
  have "length w \<le> 1480"
    using assms(2) by (simp add: w_def udp_bytes_def)
  then obtain pkt where pkt: "MarshalIPv4 src d4 IPProtoUDP (st_ipID s) w = Inr pkt"
    using MarshalIPv4_ok [OF s4 d4] by blast
  then have "sendIPv4Frame d4 pkt (snd (nextIPID s)) =
      sendOnLink (m @ lk_MAC (st_link s) @ put16 EtherTypeIPv4 @ pkt) (snd (nextIPID s))"
    using length_MarshalIPv4 [OF pkt] assms sendIPv4Frame_cached [of "snd (nextIPID s)" d4 nh m pkt]
    by (simp add: willing_def Lookup_length [of "st_route s" d4 nh])
  then show ?thesis
    using assms u pkt d4 sendOnLink_keeps [of s "m @ lk_MAC (st_link s) @ put16 EtherTypeIPv4 @ pkt"]
    by (simp add: udpWriteTo_def sendUDP4_def src_def [symmetric] Let_def case_prod_beta willing_def)
qed

end
