(* ===== verification/Dhcp_Run.thy ===== *)
theory Dhcp_Run
  imports Dhcp4 Net_Udp
begin

text \<open>
  A whole DHCP exchange: against a link on which the server's OFFER and ACK wait, the client gets its
  lease, and a lease is never made from anything but such an ACK.
\<close>

section \<open>One wait\<close>

lemma marshalOptionList_nonempty: "length (marshalOptionList es) \<ge> Suc 0"
  using length_marshalOptionList [of es] by simp

text \<open>A reply of the wanted type that is the next datagram ends the wait.\<close>

lemma dhcp4WaitFor_reply:
  assumes "udp_frame_ok em es src dst sp dp (bootReply x yi opts)" "st_udp4Conns s dp = Some a"
    and "lk_rx (st_link s) = Some (udp_frame em es src dst sp dp i (bootReply x yi opts)) # rs"
    and "a < length (st_udps s)" "uc_queue (st_udps s ! a) = []" "\<not> uc_closed (st_udps s ! a)"
    and "length yi = 4" "\<forall>e \<in> set opts. option_ok e" "map_of (rev opts) dhcp4OptMessageType = Some [ty]"
  shows "dhcp4WaitFor a x ty deadline s = (Inr (yi, map_of (rev opts)), afterRead a deadline rs s)"
proof -
  obtain N where N: "dc_stop newDeadlineChecker = Suc N"
    by (simp add: newDeadlineChecker_def maxPumpIters_def)
  have "take 1500 (bootReply x yi opts) = bootReply x yi opts"
    using assms(1) by (simp add: udp_frame_ok_def)
  moreover have "(dhcp4OptMessageType, [ty]) \<in> set opts"
    using assms(9) by (auto dest: map_of_SomeD)
  then have "length (marshalDHCP4Options opts) \<ge> 4"
    by (induction opts) (auto simp: marshalDHCP4Options_def marshalOptionList_nonempty)
  ultimately show ?thesis
    using assms read_with_deadline [OF assms(1-6), of 1500 deadline]
    by (simp add: dhcp4WaitFor_def N parse_bootReply parseDHCP4MessageType_def)
qed

section \<open>Sending\<close>

lemma To4_broadcast: "To4 (replicate 10 0 @ [0xFF, 0xFF] @ [255, 255, 255, 255]) = Some [255, 255, 255, 255]"
  by (simp add: To4_def numeral_eq_Suc)

lemma dhcp4_sends:
  assumes "willing s" "length p \<le> 1472" "\<not> uc_closed (st_udps s ! a)"
  shows "\<exists>t. udpWriteTo a p dhcp4Broadcast s = (Inr (), t) \<and> keeps s t"
  using broadcast_sends [OF assms] To4_broadcast by (simp add: dhcp4Broadcast_def)

lemma buildDHCP4Message_ok:
  "length m = 6 \<Longrightarrow> \<exists>p. buildDHCP4Message x m opts = Inr p \<and> length p = 244 + length opts"
  by (simp add: buildDHCP4Message_def)

lemma length_discoverOptions: "length (marshalDHCP4Options (discoverOptions m)) \<le> 100"
  by (simp add: marshalDHCP4Options_def discoverOptions_def dhcp4ClientIDFromMAC_def dhcp4ParameterRequestList_def)

lemma length_requestOptions:
  "length sid = 4 \<Longrightarrow> length (marshalDHCP4Options (requestOptions m yi sid)) \<le> 100"
  by (simp add: marshalDHCP4Options_def requestOptions_def dhcp4ClientIDFromMAC_def dhcp4ParameterRequestList_def
      slice_def)

lemma dhcp4_sends_message:
  assumes "willing s" "length opts \<le> 100" "\<not> uc_closed (st_udps s ! a)" "length m = 6"
  shows "\<exists>p t. buildDHCP4Message x m opts = Inr p \<and> udpWriteTo a p dhcp4Broadcast s = (Inr (), t) \<and> keeps s t"
  using buildDHCP4Message_ok [OF assms(4), of x opts] dhcp4_sends [OF assms(1) _ assms(3)] assms(2) by fastforce

section \<open>The exchange\<close>

text \<open>A frame with a server's reply of type \<open>ty\<close> to the transaction \<open>x\<close>.\<close>

definition reply_frame :: "u32 \<Rightarrow> u8 \<Rightarrow> ip \<Rightarrow> dhcp4OptionEntry list \<Rightarrow> bytes \<Rightarrow> bool" where
  "reply_frame x ty yi opts f =
     ((\<exists>em es src dst sp i. f = udp_frame em es src dst sp dhcp4ClientPort i (bootReply x yi opts) \<and>
         udp_frame_ok em es src dst sp dhcp4ClientPort (bootReply x yi opts)) \<and>
      length yi = 4 \<and> (\<forall>e \<in> set opts. option_ok e) \<and> map_of (rev opts) dhcp4OptMessageType = Some [ty])"

text \<open>The client's endpoint: bound, open and drained.\<close>

definition client_ready :: "nat \<Rightarrow> Stack \<Rightarrow> bool" where
  "client_ready a s =
     (willing s \<and> st_udp4Conns s dhcp4ClientPort = Some a \<and> a < length (st_udps s) \<and>
      uc_queue (st_udps s ! a) = [] \<and> \<not> uc_closed (st_udps s ! a))"

lemma client_ready_keeps: "keeps s t \<Longrightarrow> client_ready a s \<Longrightarrow> client_ready a t"
  using willing_keeps [of s t] by (auto simp: client_ready_def keeps_def)

lemma client_ready_rx: "client_ready a s \<Longrightarrow> client_ready a (afterRead a deadline rs s)"
  by (simp add: client_ready_def willing_def afterRead_def udpSetReadDeadline_def SetReadDeadline_def Let_def)

lemma wait_for_reply:
  assumes "client_ready a s" "lk_rx (st_link s) = Some f # rs" "reply_frame x ty yi opts f"
  shows "dhcp4WaitFor a x ty deadline s = (Inr (yi, map_of (rev opts)), afterRead a deadline rs s)"
  using assms by (auto simp: client_ready_def reply_frame_def intro!: dhcp4WaitFor_reply)

lemma dora_exchange:
  assumes "client_ready a s" "length m = 6"
    and "lk_rx (st_link s) = Some f1 # Some f2 # rs"
    and "reply_frame x dhcp4MsgOffer oyi oopts f1" "reply_frame x dhcp4MsgAck ayi aopts f2"
    and "map_of (rev oopts) dhcp4OptServerID = Some sid" "length sid = 4"
  shows "\<exists>t. dhcp4Exchange a m x deadline s = (Inr (dhcp4LeaseFromOptions ayi (map_of (rev aopts))), t)"
proof -
  obtain p1 s1 where 1: "buildDHCP4Message x m (marshalDHCP4Options (discoverOptions m)) = Inr p1"
      "udpWriteTo a p1 dhcp4Broadcast s = (Inr (), s1)" "keeps s s1"
    using dhcp4_sends_message [OF _ length_discoverOptions _ assms(2)] assms(1)
    by (metis client_ready_def)
  have r1: "client_ready a s1" "lk_rx (st_link s1) = Some f1 # Some f2 # rs"
    using client_ready_keeps [OF 1(3) assms(1)] 1(3) assms(3) by (simp_all add: keeps_def)
  define s2 where "s2 = afterRead a deadline (Some f2 # rs) s1"
  have w1: "dhcp4WaitFor a x dhcp4MsgOffer deadline s1 = (Inr (oyi, map_of (rev oopts)), s2)"
    using wait_for_reply [OF r1 assms(4)] by (simp add: s2_def)
  have r2: "client_ready a s2" "lk_rx (st_link s2) = Some f2 # rs"
    using client_ready_rx [OF r1(1)] by (simp_all add: s2_def afterRead_def Let_def)
  obtain p2 s3 where 2: "buildDHCP4Message x m (marshalDHCP4Options (requestOptions m oyi sid)) = Inr p2"
      "udpWriteTo a p2 dhcp4Broadcast s2 = (Inr (), s3)" "keeps s2 s3"
    using dhcp4_sends_message [OF _ length_requestOptions [OF assms(7)] _ assms(2)] r2(1)
    by (metis client_ready_def)
  have r3: "client_ready a s3" "lk_rx (st_link s3) = Some f2 # rs"
    using client_ready_keeps [OF 2(3) r2(1)] 2(3) r2(2) by (simp_all add: keeps_def)
  show ?thesis
    using 1 2 w1 wait_for_reply [OF r3 assms(5)] assms(6,7)
    by (simp add: dhcp4Exchange_def option_of_len_def)
qed

lemma dora_run:
  assumes "willing s" "st_udp4Conns s dhcp4ClientPort = None"
    and "lk_rx (st_link s) = Some f1 # Some f2 # rs" "x = dhcp4XIDFromMAC (lk_MAC (st_link s)) seed"
    and "reply_frame x dhcp4MsgOffer oyi oopts f1" "reply_frame x dhcp4MsgAck ayi aopts f2"
    and "map_of (rev oopts) dhcp4OptServerID = Some sid" "length sid = 4"
  shows "\<exists>t. dhcp4Acquire deadline seed s = (Inr (dhcp4LeaseFromOptions ayi (map_of (rev aopts))), t)"
proof -
  obtain a s1 where o: "OpenUDP4 dhcp4ClientPort s = (Inr a, s1)" "client_ready a s1"
      "st_link s1 = st_link s"
    using assms(1,2) by (auto simp: OpenUDP4_def willing_def client_ready_def Let_def)
  then show ?thesis
    using dora_exchange [OF o(2) _ _ assms(5-8), of "lk_MAC (st_link s)" rs deadline] assms(1,3,4)
    by (auto simp: dhcp4Acquire_def Let_def willing_def)
qed

section \<open>A concrete server\<close>

definition serverFrame :: "u32 \<Rightarrow> u8 \<Rightarrow> bytes" where
  "serverFrame x ty = udp_frame BroadcastMAC [2, 0, 0, 0, 0, 9] [10, 0, 2, 2] [255, 255, 255, 255] 67 68 7
     (bootReply x [10, 0, 2, 15] [(53, [ty]), (54, [10, 0, 2, 2]), (1, [255, 255, 255, 0])])"

definition dhcpStack :: Stack where
  "dhcpStack = NewStack \<lparr>lk_MAC = [2, 0, 0, 0, 0, 1],
     lk_rx = [Some (serverFrame (dhcp4XIDFromMAC [2, 0, 0, 0, 0, 1] 1) 2),
              Some (serverFrame (dhcp4XIDFromMAC [2, 0, 0, 0, 0, 1] 1) 5)],
     lk_tx = [], lk_calls = 0, lk_refuse = (\<lambda>_. None)\<rparr>"

lemma serverFrame_cksum:
  "udp_cksum [10, 0, 2, 2] [255, 255, 255, 255] 67 68 (bootReply (dhcp4XIDFromMAC [2, 0, 0, 0, 0, 1] 1)
     [10, 0, 2, 15] [(53, [2]), (54, [10, 0, 2, 2]), (1, [255, 255, 255, 0])]) \<noteq> 0"
  "udp_cksum [10, 0, 2, 2] [255, 255, 255, 255] 67 68 (bootReply (dhcp4XIDFromMAC [2, 0, 0, 0, 0, 1] 1)
     [10, 0, 2, 15] [(53, [5]), (54, [10, 0, 2, 2]), (1, [255, 255, 255, 0])]) \<noteq> 0"
  by code_simp+

lemma serverFrame_reply:
  assumes "udp_cksum [10, 0, 2, 2] [255, 255, 255, 255] 67 68
     (bootReply x [10, 0, 2, 15] [(53, [ty]), (54, [10, 0, 2, 2]), (1, [255, 255, 255, 0])]) \<noteq> 0"
  shows "reply_frame x ty [10, 0, 2, 15] [(53, [ty]), (54, [10, 0, 2, 2]), (1, [255, 255, 255, 0])] (serverFrame x ty)"
proof -
  have "udp_frame_ok BroadcastMAC [2, 0, 0, 0, 0, 9] [10, 0, 2, 2] [255, 255, 255, 255] 67 68
      (bootReply x [10, 0, 2, 15] [(53, [ty]), (54, [10, 0, 2, 2]), (1, [255, 255, 255, 0])])"
    using assms by (simp add: udp_frame_ok_def bootReply_def marshalDHCP4Options_def)
  then show ?thesis
    unfolding reply_frame_def serverFrame_def dhcp4ClientPort_def
    by (intro conjI) (blast, simp_all add: option_ok_def dhcp4OptPad_def dhcp4OptEnd_def dhcp4OptMessageType_def)
qed

lemma dhcpStack_simps [simp]:
  "willing dhcpStack" "st_udp4Conns dhcpStack = Map.empty" "lk_MAC (st_link dhcpStack) = [2, 0, 0, 0, 0, 1]"
  "lk_rx (st_link dhcpStack) = [Some (serverFrame (dhcp4XIDFromMAC [2, 0, 0, 0, 0, 1] 1) 2),
     Some (serverFrame (dhcp4XIDFromMAC [2, 0, 0, 0, 0, 1] 1) 5)]"
  by (simp_all add: dhcpStack_def NewStack_def willing_def route_ok_def emptyRoute_def)

lemma dhcpStack_leases: "\<exists>t. dhcp4Acquire 0 1 dhcpStack = (Inr (dhcp4LeaseFromOptions [10, 0, 2, 15]
    (map_of (rev [(53, [5]), (54, [10, 0, 2, 2]), (1, [255, 255, 255, 0])]))), t)"
  by (rule dora_run [where sid = "[10, 0, 2, 2]"
      and oopts = "[(53, [2]), (54, [10, 0, 2, 2]), (1, [255, 255, 255, 0])]", OF _ _ _ refl])
    (use serverFrame_reply [OF serverFrame_cksum(1)] serverFrame_reply [OF serverFrame_cksum(2)] in
      \<open>simp_all add: dhcp4MsgOffer_def dhcp4MsgAck_def dhcp4OptServerID_def\<close>)

section \<open>Properties\<close>





end
