(* ===== verification/Dns.thy ===== *)
theory Dns
  imports Net_Udp Go_Strings
begin

text \<open>
  The stub resolver of \<^verbatim>\<open>uefiboard/ministack/dns.go\<close>: names on the wire with compression pointers, the
  query, the walk over a reply, and \<^verbatim>\<open>ResolveA\<close>.
\<close>

definition dnsHeaderLen :: nat where "dnsHeaderLen = 12"
definition dnsTypeA :: u16 where "dnsTypeA = 1"
definition dnsTypeCNAME :: u16 where "dnsTypeCNAME = 5"
definition dnsClassIN :: u16 where "dnsClassIN = 1"
definition dnsFlagResponse :: u16 where "dnsFlagResponse = 0x8000"
definition dnsFlagRD :: u16 where "dnsFlagRD = 0x0100"
definition dnsRcodeMask :: u16 where "dnsRcodeMask = 0x000F"
definition dnsMaxLabelLen :: nat where "dnsMaxLabelLen = 63"
definition dnsMaxNameLen :: nat where "dnsMaxNameLen = 255"
definition dnsClientPortLow :: u16 where "dnsClientPortLow = 49152"
definition dnsQueryRoot :: u16 where "dnsQueryRoot = 0x4D53"

definition dnsIDFromMAC :: "mac \<Rightarrow> u16 \<Rightarrow> u16 \<Rightarrow> u16" where
  "dnsIDFromMAC m seed salt =
     (if length m < 6 then seed XOR salt
      else seed XOR salt XOR u16_at m 0 XOR u16_at m 4)"

section \<open>Names\<close>

definition wireLabel :: "string \<Rightarrow> bytes" where
  "wireLabel l = of_nat (length l) # unchars l"

definition encodeDNSName :: "string \<Rightarrow> bytes result" where
  "encodeDNSName name0 =
     (let name = TrimSuffix name0 ''.'' in
      if name = [] then Inr [0]
      else
        let labels = Split name (CHR ''.'');
            size = 1 + sum_list (map (\<lambda>l. 1 + length l) labels) in
        if list_ex (\<lambda>l. length l > dnsMaxLabelLen) labels then Inl ErrDNSLabelTooLong
        else if size > dnsMaxNameLen then Inl ErrDNSNameTooLong
        else Inr (concat (map wireLabel labels) @ [0]))"

definition buildDNSQuery :: "u16 \<Rightarrow> string \<Rightarrow> bytes result" where
  "buildDNSQuery i name =
     (case encodeDNSName name of
        Inl e \<Rightarrow> Inl e
      | Inr qname \<Rightarrow>
          Inr (put16 i @ put16 dnsFlagRD @ put16 1 @ replicate 6 0 @ qname @ put16 dnsTypeA @ put16 dnsClassIN))"

text \<open>
  The loop of \<^verbatim>\<open>parseDNSName\<close>: offset, the offset behind the first pointer (\<open>None\<close> for -1), the number
  of pointers followed and the labels so far. Each round either moves forward or uses up one of the
  sixteen pointers.
\<close>

function parseNameLoop ::
  "bytes \<Rightarrow> nat \<Rightarrow> nat option \<Rightarrow> nat \<Rightarrow> string list \<Rightarrow> (string \<times> nat) result" where
  "parseNameLoop pkt off postPointer chain labels =
     (if off \<ge> length pkt then Inl ErrDNSBadFormat
      else
        let b = pkt ! off in
        if b = 0 then
          Inr (Join labels (CHR ''.''), case postPointer of None \<Rightarrow> off + 1 | Some p \<Rightarrow> p)
        else if b AND 0xC0 = 0xC0 then
          (if off + 1 \<ge> length pkt then Inl ErrDNSBadFormat
           else if chain + 1 > 16 then Inl ErrDNSCompressLoop
           else parseNameLoop pkt (unat (u16_at pkt off AND 0x3FFF))
                  (case postPointer of None \<Rightarrow> Some (off + 2) | Some p \<Rightarrow> Some p) (chain + 1) labels)
        else if unat b + off + 1 > length pkt then Inl ErrDNSBadFormat
        else parseNameLoop pkt (off + 1 + unat b) postPointer chain
               (labels @ [chars (slice pkt (off + 1) (off + 1 + unat b))]))"
  by pat_completeness auto
termination
  by (relation "measures [\<lambda>(pkt, off, pp, chain, ls). 17 - chain, \<lambda>(pkt, off, pp, chain, ls). length pkt - off]") auto

declare parseNameLoop.simps [simp del]

definition parseDNSName :: "bytes \<Rightarrow> nat \<Rightarrow> (string \<times> nat) result" where
  "parseDNSName pkt start =
     (if start \<ge> length pkt then Inl ErrDNSBadFormat else parseNameLoop pkt start None 0 [])"

section \<open>Replies\<close>

primrec skipQuestions :: "nat \<Rightarrow> bytes \<Rightarrow> nat \<Rightarrow> nat result" where
  "skipQuestions 0 pkt off = Inr off"
| "skipQuestions (Suc n) pkt off =
     (case parseDNSName pkt off of
        Inl e \<Rightarrow> Inl e
      | Inr (_, next) \<Rightarrow>
          if next + 4 > length pkt then Inl ErrDNSBadFormat else skipQuestions n pkt (next + 4))"

primrec walkAnswers :: "nat \<Rightarrow> bytes \<Rightarrow> nat \<Rightarrow> ip result" where
  "walkAnswers 0 pkt off = Inl ErrDNSEmptyAnswer"
| "walkAnswers (Suc n) pkt off =
     (case parseDNSName pkt off of
        Inl e \<Rightarrow> Inl e
      | Inr (_, next) \<Rightarrow>
          if next + 10 > length pkt then Inl ErrDNSBadFormat
          else
            let rtype = u16_at pkt next;
                rclass = u16_at pkt (next + 2);
                rdlen = u16_at pkt (next + 8);
                body = next + 10 in
            if body + unat rdlen > length pkt then Inl ErrDNSBadFormat
            else if rtype = dnsTypeA \<and> rclass = dnsClassIN \<and> rdlen = 4 then Inr (slice pkt body (body + 4))
            else walkAnswers n pkt (body + unat rdlen))"

definition parseDNSAnswerForA :: "bytes \<Rightarrow> u16 \<Rightarrow> ip result" where
  "parseDNSAnswerForA pkt wantID =
     (if length pkt < dnsHeaderLen then Inl ErrDNSBadFormat
      else if u16_at pkt 0 \<noteq> wantID then Inl ErrDNSBadFormat
      else if u16_at pkt 2 AND dnsFlagResponse = 0 then Inl ErrDNSBadFormat
      else if u16_at pkt 2 AND dnsRcodeMask \<noteq> 0 then Inl ErrDNSRcode
      else case skipQuestions (unat (u16_at pkt 4)) pkt dnsHeaderLen of
        Inl e \<Rightarrow> Inl e
      | Inr off \<Rightarrow> walkAnswers (unat (u16_at pkt 6)) pkt off)"

section \<open>The resolver\<close>

text \<open>The scan for a free local port, from the given candidate on.\<close>

primrec openEphemeral :: "nat \<Rightarrow> u16 \<Rightarrow> Stack \<Rightarrow> (nat \<times> u16) result \<times> Stack" where
  "openEphemeral 0 candidate s = (Inl ErrUDP4PortInUse, s)"
| "openEphemeral (Suc n) candidate s =
     (case OpenUDP4 candidate s of
        (Inr c, s') \<Rightarrow> (Inr (c, candidate), s')
      | (Inl e, s') \<Rightarrow>
          if e \<noteq> ErrUDP4PortInUse then (Inl e, s') else openEphemeral n (candidate + 1) s')"

primrec awaitAnswer :: "nat \<Rightarrow> nat \<Rightarrow> u16 \<Rightarrow> int \<Rightarrow> Stack \<Rightarrow> ip result \<times> Stack" where
  "awaitAnswer 0 a i deadline s = (Inl ErrDNSTimeout, s)"
| "awaitAnswer (Suc n) a i deadline s =
     (case udpReadFrom a 1500 (udpSetReadDeadline a deadline s) of
        (Inl e, s') \<Rightarrow> (Inl (if e = ErrUDP4ReadTimeout then ErrDNSTimeout else e), s')
      | (Inr (msg, _), s') \<Rightarrow>
          (case parseDNSAnswerForA msg i of
             Inr answer \<Rightarrow> (Inr answer, s')
           | Inl e \<Rightarrow> if e = ErrDNSBadFormat then awaitAnswer n a i deadline s' else (Inl e, s')))"

definition queryServer :: "nat \<Rightarrow> u16 \<Rightarrow> string \<Rightarrow> ip \<Rightarrow> int \<Rightarrow> Stack \<Rightarrow> ip result \<times> Stack" where
  "queryServer a i name d4 deadline s =
     (case buildDNSQuery i name of
        Inl e \<Rightarrow> (Inl e, s)
      | Inr query \<Rightarrow>
          (case udpWriteTo a query (UDPAddrPtr \<lparr>ua_IP = d4, ua_Port = 53\<rparr>) s of
             (Inl e, s1) \<Rightarrow> (Inl e, s1)
           | (Inr _, s1) \<Rightarrow> awaitAnswer (dc_stop newDeadlineChecker) a i deadline s1))"

definition ResolveA :: "string \<Rightarrow> ip \<Rightarrow> int \<Rightarrow> Stack \<Rightarrow> ip result \<times> Stack" where
  "ResolveA name dnsServer deadline s =
     (case To4 dnsServer of
        None \<Rightarrow> (Inl ErrDNSInvalidServer, s)
      | Some d4 \<Rightarrow>
          if st_closed s then (Inl ErrStackClosed, s)
          else
            case openEphemeral 1024 dnsClientPortLow s of
              (Inl e, s1) \<Rightarrow> (Inl e, s1)
            | (Inr (a, localPort), s1) \<Rightarrow>
                let i = dnsIDFromMAC (lk_MAC (st_link s)) dnsQueryRoot localPort;
                    (r, s2) = queryServer a i name d4 deadline s1
                in (r, udpClose a s2))"

section \<open>Names read back\<close>

lemma label_length_byte:
  assumes "0 < n" "n < 64"
  shows "(of_nat n :: u8) \<noteq> 0" "(of_nat n :: u8) AND 0xC0 \<noteq> 0xC0" "unat (of_nat n :: u8) = n"
proof -
  show u: "unat (of_nat n :: u8) = n"
    using assms by (simp add: unat_of_nat take_bit_eq_mod)
  with assms show "(of_nat n :: u8) \<noteq> 0" by auto
  show "(of_nat n :: u8) AND 0xC0 \<noteq> 0xC0"
  proof
    assume "(of_nat n :: u8) AND 0xC0 = 0xC0"
    then have "(0xC0 :: u8) \<le> of_nat n"
      using word_and_le2 [of "of_nat n :: u8" "0xC0"] by metis
    then show False
      using assms u by (simp add: word_le_nat_alt)
  qed
qed

definition label_ok :: "string \<Rightarrow> bool" where
  "label_ok l = (0 < length l \<and> length l \<le> 63)"

lemma parseNameLoop_labels:
  assumes "\<forall>l \<in> set ls. label_ok l"
  shows "parseNameLoop (pre @ concat (map wireLabel ls) @ rest) (length pre) pp chain acc =
    parseNameLoop (pre @ concat (map wireLabel ls) @ rest) (length pre + length (concat (map wireLabel ls))) pp chain
      (acc @ ls)"
  using assms
proof (induction ls arbitrary: pre acc)
  case (Cons l ls)
  let ?pkt = "pre @ concat (map wireLabel (l # ls)) @ rest"
  have l: "0 < length l" "length l < 64"
    using Cons.prems by (auto simp: label_ok_def)
  have "parseNameLoop ?pkt (length pre) pp chain acc =
      parseNameLoop ?pkt (length pre + 1 + length l) pp chain (acc @ [l])"
    using label_length_byte [OF l]
    by (subst parseNameLoop.simps) (simp add: nth_append wireLabel_def [of l] slice_def Let_def)
  also have "\<dots> = parseNameLoop ?pkt (length pre + length (concat (map wireLabel (l # ls)))) pp chain (acc @ l # ls)"
    using Cons.IH [of "pre @ wireLabel l" "acc @ [l]"] Cons.prems by (simp add: wireLabel_def [of l] add_ac)
  finally show ?case .
qed simp

lemma parseNameLoop_name:
  assumes "\<forall>l \<in> set ls. label_ok l"
  shows "parseNameLoop (pre @ concat (map wireLabel ls) @ 0 # rest) (length pre) pp chain [] =
    Inr (Join ls (CHR ''.''),
      case pp of None \<Rightarrow> length pre + length (concat (map wireLabel ls)) + 1 | Some p \<Rightarrow> p)"
  using parseNameLoop_labels [OF assms, of pre "0 # rest" pp chain "[]"]
  by (simp, subst parseNameLoop.simps) (simp add: nth_append Let_def)

lemma parseDNSName_name:
  assumes "\<forall>l \<in> set ls. label_ok l"
  shows "parseDNSName (pre @ concat (map wireLabel ls) @ 0 # rest) (length pre) =
    Inr (Join ls (CHR ''.''), length pre + length (concat (map wireLabel ls)) + 1)"
  using parseNameLoop_name [OF assms, of pre rest None 0] by (simp add: parseDNSName_def)

text \<open>A pointer to a name gives that name, and parsing goes on behind the pointer.\<close>

lemma parseDNSName_pointer:
  assumes "\<forall>l \<in> set ls. label_ok l" "pkt = pre @ concat (map wireLabel ls) @ 0 # rest" "length pre = 12"
    and "off + 1 < length pkt" "pkt ! off = 0xC0" "pkt ! (off + 1) = 0x0C"
  shows "parseDNSName pkt off = Inr (Join ls (CHR ''.''), off + 2)"
proof -
  have "u16_at pkt off AND 0x3FFF = 12"
    using assms(5,6) by (simp add: u16_at_def be16_def)
  then have "parseNameLoop pkt off None 0 [] = parseNameLoop pkt 12 (Some (off + 2)) 1 []"
    using assms(4-6) by (subst parseNameLoop.simps) (simp add: Let_def)
  then show ?thesis
    using parseNameLoop_name [OF assms(1), of pre rest "Some (off + 2)" 1] assms(2-4)
    by (simp add: parseDNSName_def)
qed

lemma encodeDNSName_labels:
  assumes "encodeDNSName name = Inr w" "TrimSuffix name ''.'' \<noteq> []"
  shows "w = concat (map wireLabel (Split (TrimSuffix name ''.'') (CHR ''.''))) @ [0]"
    "\<forall>l \<in> set (Split (TrimSuffix name ''.'') (CHR ''.'')). length l \<le> 63"
  using assms by (auto simp: encodeDNSName_def Let_def list_ex_iff dnsMaxLabelLen_def split: if_splits)

section \<open>Replies read back\<close>

text \<open>A resource record as a server writes it, its owner a pointer to the question.\<close>

record dns_rr =
  rr_type :: u16
  rr_class :: u16
  rr_ttl :: u32
  rr_data :: bytes

definition rr_wire :: "dns_rr \<Rightarrow> bytes" where
  "rr_wire r = [0xC0, 0x0C] @ put16 (rr_type r) @ put16 (rr_class r) @ put32 (rr_ttl r) @
     put16 (of_nat (length (rr_data r))) @ rr_data r"

definition rr_is_A :: "dns_rr \<Rightarrow> bool" where
  "rr_is_A r = (rr_type r = 1 \<and> rr_class r = 1 \<and> length (rr_data r) = 4)"

lemma u16_at_append: "u16_at (pre @ xs) (length pre + k) = u16_at xs k"
  by (simp add: u16_at_def nth_append add.assoc)

lemma rr_fields:
  assumes "pkt = pre @ rr_wire r @ rest" "m = length pre + 2"
  shows "pkt ! length pre = 0xC0" "pkt ! (length pre + 1) = 0x0C"
    "u16_at pkt m = rr_type r" "u16_at pkt (m + 2) = rr_class r"
    "u16_at pkt (m + 8) = of_nat (length (rr_data r))"
    "slice pkt (m + 10) (m + 10 + length (rr_data r)) = rr_data r"
  by (simp_all only: assms add.assoc u16_at_append)
    (simp_all add: rr_wire_def nth_append slice_def u16_at_def put16_def put32_def)

lemma walkAnswers_step:
  assumes "parseDNSName pkt off = Inr (nm, m)" "length (rr_data r) < 65536" "m + 10 + length (rr_data r) \<le> length pkt"
    and "u16_at pkt m = rr_type r" "u16_at pkt (m + 2) = rr_class r"
    "u16_at pkt (m + 8) = of_nat (length (rr_data r))"
    "slice pkt (m + 10) (m + 10 + length (rr_data r)) = rr_data r"
  shows "walkAnswers (Suc n) pkt off =
    (if rr_is_A r then Inr (rr_data r) else walkAnswers n pkt (m + 10 + length (rr_data r)))"
proof -
  have rd: "unat (of_nat (length (rr_data r)) :: u16) = length (rr_data r)"
    using assms(2) by (simp add: unat_of_nat_u16)
  then have "(of_nat (length (rr_data r)) :: u16) = 4 \<longleftrightarrow> length (rr_data r) = 4"
    using unat_of_nat_u16 [of 4] by (auto dest: arg_cong [where f = unat])
  then show ?thesis
    using assms rd by (auto simp: rr_is_A_def dnsTypeA_def dnsClassIN_def Let_def)
qed

lemma walkAnswers_spec:
  assumes "\<forall>l \<in> set ls. label_ok l" "pkt = hdr @ concat (map wireLabel ls) @ 0 # rest" "length hdr = 12"
    and "pkt = pre @ concat (map rr_wire rrs)" "\<forall>r \<in> set rrs. length (rr_data r) < 65536"
  shows "walkAnswers (length rrs) pkt (length pre) =
    (case find rr_is_A rrs of None \<Rightarrow> Inl ErrDNSEmptyAnswer | Some r \<Rightarrow> Inr (rr_data r))"
  using assms(4,5)
proof (induction rrs arbitrary: pre)
  case (Cons r rrs)
  define m where "m = length pre + 2"
  have pk: "pkt = pre @ rr_wire r @ concat (map rr_wire rrs)" using Cons.prems by simp
  note f = rr_fields [OF pk m_def]
  have len: "length pkt = m + 10 + length (rr_data r) + length (concat (map rr_wire rrs))"
    using pk by (simp add: rr_wire_def m_def)
  have "parseDNSName pkt (length pre) = Inr (Join ls (CHR ''.''), m)"
    using parseDNSName_pointer [OF assms(1-3), of "length pre"] f(1,2) len by (simp add: m_def)
  then have "walkAnswers (Suc (length rrs)) pkt (length pre) =
      (if rr_is_A r then Inr (rr_data r) else walkAnswers (length rrs) pkt (m + 10 + length (rr_data r)))"
    using Cons.prems(2) len by (intro walkAnswers_step f) auto
  moreover have "length (pre @ rr_wire r) = m + 10 + length (rr_data r)"
    by (simp add: rr_wire_def m_def)
  with Cons.IH [of "pre @ rr_wire r"] pk Cons.prems(2)
  have "walkAnswers (length rrs) pkt (m + 10 + length (rr_data r)) =
      (case find rr_is_A rrs of None \<Rightarrow> Inl ErrDNSEmptyAnswer | Some r \<Rightarrow> Inr (rr_data r))"
    by (metis append.assoc list.set_intros(2))
  ultimately show ?case by simp
qed simp

text \<open>A whole reply: one question and any records.\<close>

definition dnsReply :: "u16 \<Rightarrow> u16 \<Rightarrow> string list \<Rightarrow> dns_rr list \<Rightarrow> bytes" where
  "dnsReply i flags ls rrs =
     put16 i @ put16 flags @ put16 1 @ put16 (of_nat (length rrs)) @ replicate 4 0 @
     concat (map wireLabel ls) @ 0 # put16 1 @ put16 1 @ concat (map rr_wire rrs)"

lemma dnsReply_header:
  "u16_at (dnsReply i flags ls rrs) 0 = i" "u16_at (dnsReply i flags ls rrs) 2 = flags"
  "u16_at (dnsReply i flags ls rrs) 4 = 1" "u16_at (dnsReply i flags ls rrs) 6 = of_nat (length rrs)"
  by (simp_all add: dnsReply_def u16_at_def put16_def) (simp add: be16_def)

lemma parse_dnsReply:
  assumes "\<forall>l \<in> set ls. label_ok l" "\<forall>r \<in> set rrs. length (rr_data r) < 65536" "length rrs < 65536"
    and "flags AND 0x8000 \<noteq> 0" "flags AND 0x000F = 0"
  shows "parseDNSAnswerForA (dnsReply i flags ls rrs) i =
    (case find rr_is_A rrs of None \<Rightarrow> Inl ErrDNSEmptyAnswer | Some r \<Rightarrow> Inr (rr_data r))"
proof -
  define hdr where "hdr = put16 i @ put16 flags @ put16 1 @ put16 (of_nat (length rrs)) @ replicate 4 0"
  define pre where "pre = hdr @ concat (map wireLabel ls) @ 0 # put16 1 @ put16 1"
  have h: "length hdr = 12" by (simp add: hdr_def)
  have p1: "dnsReply i flags ls rrs = hdr @ concat (map wireLabel ls) @ 0 # (put16 1 @ put16 1 @ concat (map rr_wire rrs))"
    by (simp add: dnsReply_def hdr_def)
  have p2: "dnsReply i flags ls rrs = pre @ concat (map rr_wire rrs)"
    by (simp add: dnsReply_def hdr_def pre_def)
  have "skipQuestions 1 (dnsReply i flags ls rrs) 12 = Inr (length pre)"
    using parseDNSName_name [OF assms(1), of hdr "put16 1 @ put16 1 @ concat (map rr_wire rrs)"] h
    by (simp add: p1 pre_def)
  then show ?thesis
    using walkAnswers_spec [OF assms(1) p1 h p2 assms(2)] assms(3-5) h
    by (simp add: parseDNSAnswerForA_def dnsReply_header dnsHeaderLen_def dnsFlagResponse_def dnsRcodeMask_def
        unat_of_nat_u16) (simp add: p1)
qed

section \<open>Resolving\<close>

lemma openEphemeral_first:
  "\<not> st_closed s \<Longrightarrow> st_udp4Conns s c = None \<Longrightarrow> openEphemeral (Suc n) c s =
     (Inr (length (st_udps s), c), snd (OpenUDP4 c s))"
  by (simp add: OpenUDP4_def Let_def)

lemma buildDNSQuery_ok:
  assumes "encodeDNSName name = Inr q"
  shows "\<exists>w. buildDNSQuery i name = Inr w \<and> length w \<le> 1472"
proof -
  have "length (concat (map wireLabel ls)) = sum_list (map (\<lambda>l. 1 + length l) ls)" for ls
    by (induction ls) (auto simp: wireLabel_def [of "_ :: string"])
  then have "length q \<le> 255"
    using assms by (auto simp: encodeDNSName_def Let_def dnsMaxNameLen_def split: if_splits)
  then show ?thesis
    using assms by (simp add: buildDNSQuery_def)
qed

lemma resolve_run:
  assumes "willing s" "st_udp4Conns s dnsClientPortLow = None" "To4 server = Some d4" "\<not> isLimitedBroadcast d4"
    and "Lookup (st_route s) d4 = Inr nh" "resolvedMAC (st_arpCache s) nh = Some m" "length m = 6"
    and "encodeDNSName name = Inr q"
    and "lk_rx (st_link s) = Some (udp_frame em es src dst sp dnsClientPortLow j reply) # rs"
    and "udp_frame_ok em es src dst sp dnsClientPortLow reply"
    and "parseDNSAnswerForA reply (dnsIDFromMAC (lk_MAC (st_link s)) dnsQueryRoot dnsClientPortLow) = Inr answer"
  shows "fst (ResolveA name server deadline s) = Inr answer"
proof -
  define a where "a = length (st_udps s)"
  define s1 where "s1 = snd (OpenUDP4 dnsClientPortLow s)"
  have o: "openEphemeral 1024 dnsClientPortLow s = (Inr (a, dnsClientPortLow), s1)"
    using openEphemeral_first [of s dnsClientPortLow 1023] assms(1,2) by (simp add: willing_def s1_def a_def)
  have s1: "willing s1" "st_udp4Conns s1 dnsClientPortLow = Some a" "a < length (st_udps s1)"
      "uc_queue (st_udps s1 ! a) = []" "\<not> uc_closed (st_udps s1 ! a)" "st_link s1 = st_link s"
      "st_route s1 = st_route s" "st_arpCache s1 = st_arpCache s"
    using assms(1,2) by (simp_all add: s1_def a_def OpenUDP4_def willing_def Let_def)
  obtain w where w: "buildDNSQuery (dnsIDFromMAC (lk_MAC (st_link s)) dnsQueryRoot dnsClientPortLow) name = Inr w"
      "length w \<le> 1472"
    using buildDNSQuery_ok [OF assms(8)] by blast
  have "To4 d4 = Some d4" using To4_length [OF assms(3)] by simp
  then obtain t where t: "udpWriteTo a w (UDPAddrPtr \<lparr>ua_IP = d4, ua_Port = 53\<rparr>) s1 = (Inr (), t)" "keeps s1 t"
    using unicast_sends [OF s1(1) w(2) s1(5), of "\<lparr>ua_IP = d4, ua_Port = 53\<rparr>" d4 nh m] assms(4-7) s1(7,8) by auto
  obtain N where N: "dc_stop newDeadlineChecker = Suc N"
    by (simp add: newDeadlineChecker_def maxPumpIters_def)
  have "udpReadFrom a 1500 (udpSetReadDeadline a deadline t) =
      (Inr (take 1500 reply, \<lparr>ua_IP = src, ua_Port = uint sp\<rparr>), afterRead a deadline rs t)"
    using t(2) s1(2-6) assms(9) by (intro read_with_deadline [OF assms(10)]) (simp_all add: keeps_def)
  moreover have "take 1500 reply = reply"
    using assms(10) by (simp add: udp_frame_ok_def)
  ultimately show ?thesis
    using assms(1,3,11) o w(1) t(1)
    by (simp add: ResolveA_def queryServer_def willing_def N Let_def case_prod_beta)
qed

section \<open>Properties\<close>

text \<open>
  A name of non-empty labels survives the wire: wherever its encoding stands in a packet, the parser
  returns the name without a trailing dot and the offset right behind the encoding.
\<close>

lemma dns_name_roundtrip:
  assumes "encodeDNSName name = Inr w" "\<forall>l \<in> set (Split (TrimSuffix name ''.'') (CHR ''.'')). l \<noteq> []"
  shows "parseDNSName (pre @ w @ rest) (length pre) = Inr (TrimSuffix name ''.'', length pre + length w)"
proof -
  have "TrimSuffix name ''.'' \<noteq> []" using assms(2) by auto
  note e = encodeDNSName_labels [OF assms(1) this]
  have "\<forall>l \<in> set (Split (TrimSuffix name ''.'') (CHR ''.'')). label_ok l"
    using assms(2) e(2) by (auto simp: label_ok_def)
  from parseDNSName_name [OF this, of pre rest] show ?thesis
    by (simp add: e(1))
qed

text \<open>
  A reply with our transaction id, the response bit and no error code, one question and any resource
  records whose owners point to the question, yields the data of the first A record of class IN with
  four bytes, or the empty-answer error when there is none.
\<close>

lemma dns_answer_first_A:
  assumes "\<forall>l \<in> set ls. 0 < length l \<and> length l \<le> 63"
    and "\<forall>r \<in> set rrs. length (rr_data r) < 65536" "length rrs < 65536"
    and "flags AND 0x8000 \<noteq> 0" "flags AND 0x000F = 0"
  shows "parseDNSAnswerForA (dnsReply i flags ls rrs) i =
    (case find (\<lambda>r. rr_type r = 1 \<and> rr_class r = 1 \<and> length (rr_data r) = 4) rrs of
       None \<Rightarrow> Inl ErrDNSEmptyAnswer | Some r \<Rightarrow> Inr (rr_data r))"
  using parse_dnsReply [of ls rrs flags i] assms by (simp add: label_ok_def rr_is_A_def [abs_def])


definition dnsExample :: Stack where
  "dnsExample = exampleStack\<lparr>st_link := (st_link exampleStack)\<lparr>lk_rx :=
     [Some (udp_frame [2, 0, 0, 0, 0, 1] [2, 0, 0, 0, 0, 9] [10, 0, 2, 2] [10, 0, 2, 15] 53 49152 7
        (dnsReply (dnsIDFromMAC [2, 0, 0, 0, 0, 1] dnsQueryRoot 49152) 0x8180 [''a'']
          [\<lparr>rr_type = 1, rr_class = 1, rr_ttl = 60, rr_data = [140, 82, 121, 33]\<rparr>]))]\<rparr>\<rparr>"


end
