(* ===== verification/Http_Text.thy ===== *)
theory Http_Text
  imports Dial_Retry Go_Strings
begin

text \<open>
  The text layer of \<^verbatim>\<open>uefiboard/ministack/http.go\<close>: URLs, the request, and the buffered decoding of a
  response with its header block and chunked or bounded body.
\<close>

text \<open>
  Errors of the HTTP client. \<open>NetError\<close> and \<open>DialFailure\<close> carry what the layers below return,
  \<open>ErrLineCap\<close> and \<open>ErrLineBuffer\<close> are the two anonymous errors of the line reader, \<open>SinkError\<close> is an
  error of the caller's writer.
\<close>

datatype http_error =
    ErrHTTPSchemeNotHTTP | ErrHTTPBadURL | ErrHTTPBadStatusLine | ErrHTTPBadHeader
  | ErrHTTPResponseTooBig | ErrHTTPBadChunk
  | ErrLineCap | ErrLineBuffer | ErrUnexpectedEOF | EOF
  | NetError net_error | DialFailure dial_failure | SinkError nat

definition HTTPMaxResponseBytes :: nat where "HTTPMaxResponseBytes = 1048576"

record HTTPResponse =
  hr_StatusCode :: int
  hr_StatusLine :: string
  hr_Headers :: "string \<rightharpoonup> string"
  hr_Body :: bytes

record parsedHTTPURL =
  pu_Host :: string
  pu_Port :: u16
  pu_Path :: string

section \<open>URLs\<close>

definition parseHTTPURL :: "string \<Rightarrow> http_error + parsedHTTPURL" where
  "parseHTTPURL url =
     (if \<not> HasPrefix url ''http://'' then Inl ErrHTTPSchemeNotHTTP
      else
        let rest0 = drop (length ''http://'') url;
            (path, rest) = (case IndexByte rest0 (CHR ''/'') of
                              None \<Rightarrow> (''/'', rest0)
                            | Some i \<Rightarrow> (drop i rest0, take i rest0)) in
        case (case LastIndexByte rest (CHR '':'') of
                None \<Rightarrow> Some (rest, 80)
              | Some i \<Rightarrow> map_option (\<lambda>p. (take i rest, of_nat p)) (ParseUint10 16 (drop (i + 1) rest))) of
          None \<Rightarrow> Inl ErrHTTPBadURL
        | Some (host, port) \<Rightarrow>
            if host = [] then Inl ErrHTTPBadURL
            else Inr \<lparr>pu_Host = host, pu_Port = port, pu_Path = path\<rparr>)"

definition buildHTTPRequest :: "parsedHTTPURL \<Rightarrow> string list \<Rightarrow> bytes" where
  "buildHTTPRequest u extraHeaders =
     unchars (''GET '' @ pu_Path u @ '' HTTP/1.1'' @ CRLF @
       ''Host: '' @ pu_Host u @ (if pu_Port u \<noteq> 80 then '':'' @ nat_to_string (unat (pu_Port u)) else []) @ CRLF @
       ''User-Agent: ministack/1.0'' @ CRLF @ ''Accept: */*'' @ CRLF @ ''Connection: close'' @ CRLF @
       concat (map (\<lambda>h. h @ CRLF) extraHeaders) @ CRLF)"

section \<open>Chunked bodies\<close>

definition chunkSize :: "nat \<Rightarrow> string \<Rightarrow> nat option" where
  "chunkSize bits line =
     (let sizeStr = (case IndexByte line (CHR '';'') of None \<Rightarrow> line | Some semi \<Rightarrow> take semi line)
      in ParseUint16 bits (TrimSpace sizeStr))"

text \<open>The loop of \<^verbatim>\<open>decodeChunked\<close> on what is left of the raw body.\<close>

function decodeChunks :: "bytes \<Rightarrow> bytes \<Rightarrow> http_error + bytes" where
  "decodeChunks raw out =
     (case Index raw [13, 10] of
        None \<Rightarrow> Inl ErrHTTPBadChunk
      | Some eol \<Rightarrow>
          (case chunkSize 32 (chars (take eol raw)) of
             None \<Rightarrow> Inl ErrHTTPBadChunk
           | Some n \<Rightarrow>
               let rest = drop (eol + 2) raw in
               if n = 0 then Inr out
               else if n + 2 > length rest then Inl ErrHTTPBadChunk
               else decodeChunks (drop (n + 2) rest) (out @ take n rest)))"
  by pat_completeness auto
termination
  by (relation "measure (\<lambda>(raw, out). length raw)") auto

declare decodeChunks.simps [simp del]

definition decodeChunked :: "bytes \<Rightarrow> http_error + bytes" where
  "decodeChunked raw = decodeChunks raw []"

section \<open>Responses\<close>

primrec parseHeaderLines :: "string list \<Rightarrow> (string \<rightharpoonup> string) \<Rightarrow> http_error + (string \<rightharpoonup> string)" where
  "parseHeaderLines [] headers = Inr headers"
| "parseHeaderLines (line # ls) headers =
     (if line = [] then parseHeaderLines ls headers
      else case IndexByte line (CHR '':'') of
        None \<Rightarrow> Inl ErrHTTPBadHeader
      | Some i \<Rightarrow>
          let k = ToLower (TrimSpace (take i line));
              v = TrimSpace (drop (i + 1) line) in
          parseHeaderLines ls
            (case headers k of
               Some existing \<Rightarrow> headers(k \<mapsto> existing @ '', '' @ v)
             | None \<Rightarrow> headers(k \<mapsto> v)))"

definition parseStatus :: "string \<Rightarrow> http_error + int" where
  "parseStatus line =
     (let parts = SplitN line (CHR '' '') 3 in
      if length parts < 2 \<or> \<not> HasPrefix (parts ! 0) ''HTTP/'' then Inl ErrHTTPBadStatusLine
      else case Atoi (parts ! 1) of
        None \<Rightarrow> Inl ErrHTTPBadStatusLine
      | Some statusCode \<Rightarrow> Inr statusCode)"

definition boundedBody :: "(string \<rightharpoonup> string) \<Rightarrow> bytes \<Rightarrow> http_error + bytes" where
  "boundedBody headers body =
     (case headers ''content-length'' of
        None \<Rightarrow> Inr body
      | Some cl \<Rightarrow>
          (case Atoi cl of
             None \<Rightarrow> Inl ErrHTTPBadHeader
           | Some n \<Rightarrow> if n < 0 then Inl ErrHTTPBadHeader else Inr (take (nat n) body)))"

definition decodeBody :: "(string \<rightharpoonup> string) \<Rightarrow> bytes \<Rightarrow> http_error + bytes" where
  "decodeBody headers body =
     (case headers ''transfer-encoding'' of
        Some te \<Rightarrow> if EqualFold te ''chunked'' then decodeChunked body else boundedBody headers body
      | None \<Rightarrow> boundedBody headers body)"

definition parseHTTPResponse :: "bytes \<Rightarrow> http_error + HTTPResponse" where
  "parseHTTPResponse raw =
     (case Index raw [13, 10, 13, 10] of
        None \<Rightarrow> Inl ErrHTTPBadStatusLine
      | Some idx \<Rightarrow>
          let headerBlock = take idx raw;
              body = drop (idx + 4) raw;
              lines = SplitCRLF (chars headerBlock) in
          if length (lines ! 0) = 0 then Inl ErrHTTPBadStatusLine
          else case parseStatus (lines ! 0) of
            Inl e \<Rightarrow> Inl e
          | Inr statusCode \<Rightarrow>
              (case parseHeaderLines (tl lines) Map.empty of
                 Inl e \<Rightarrow> Inl e
               | Inr headers \<Rightarrow>
                   (case decodeBody headers body of
                      Inl e \<Rightarrow> Inl e
                    | Inr dec \<Rightarrow>
                        Inr \<lparr>hr_StatusCode = statusCode, hr_StatusLine = lines ! 0, hr_Headers = headers,
                             hr_Body = dec\<rparr>)))"

section \<open>Searching for line ends\<close>

lemma Index_skip: "c \<notin> set l \<Longrightarrow> Index (l @ x) (c # p) = map_option (\<lambda>i. i + length l) (Index x (c # p))"
proof (induction l)
  case Nil
  show ?case by (cases "Index x (c # p)") simp_all
next
  case (Cons y l)
  then show ?case by (auto simp: HasPrefix_def map_option.compositionality comp_def)
qed

lemma Index_crlf: "13 \<notin> set l \<Longrightarrow> Index (l @ 13 # 10 # x) [13, 10 :: byte] = Some (length l)"
  by (simp add: Index_skip HasPrefix_def)

lemma char_of_13: "char_of (13 :: nat) = CR"
  by (simp add: char_of_def CR_def bit_0)

lemma unchars_CR: "CR \<notin> set s \<Longrightarrow> 13 \<notin> set (unchars s)"
proof
  assume "13 \<in> set (unchars s)" "CR \<notin> set s"
  then have "char_of (unat (13 :: byte)) \<in> set (chars (unchars s))"
    unfolding chars_def by (metis image_eqI list.set_map)
  with \<open>CR \<notin> set s\<close> show False by (simp add: char_of_13)
qed

lemma unchars_CRLF: "unchars CRLF = [13, 10]"
  by (simp add: unchars_def CRLF_def CR_def LF_def)

section \<open>Chunks read back\<close>

lemma hex_digit_char: "d < 16 \<Longrightarrow> hex_char d \<noteq> CHR '';'' \<and> hex_char d \<noteq> CR \<and> \<not> is_space (hex_char d)"
proof -
  assume "d < 16"
  then have "(of_char (hex_char d) :: nat) = (if d < 10 then 48 + d else 87 + d)"
    by (simp add: hex_char_def of_char_of)
  moreover have "(of_char (CHR '';'') :: nat) = 59" "(of_char CR :: nat) = 13"
    by (simp_all add: CR_def)
  ultimately show ?thesis
    using \<open>d < 16\<close> unfolding is_space_def by (auto split: if_splits)
qed

lemma nat_to_hex_chars: "c \<in> set (nat_to_hex n) \<Longrightarrow> c \<noteq> CHR '';'' \<and> c \<noteq> CR \<and> \<not> is_space c"
proof (induction n rule: nat_to_hex.induct)
  case (1 n)
  then show ?case
    by (cases "n < 16") (auto simp: nat_to_hex.simps [of n] hex_digit_char)
qed

lemma TrimSpace_no_space: "(\<And>c. c \<in> set s \<Longrightarrow> \<not> is_space c) \<Longrightarrow> TrimSpace s = s"
proof -
  have d: "dropWhile is_space t = t" if "\<And>c. c \<in> set t \<Longrightarrow> \<not> is_space c" for t
    using that by (cases t) auto
  assume n: "\<And>c. c \<in> set s \<Longrightarrow> \<not> is_space c"
  then show ?thesis
    using d [of s] d [of "rev s"] by (simp add: TrimSpace_def)
qed

lemma chunkSize_hex: "n < 2 ^ bits \<Longrightarrow> chunkSize bits (nat_to_hex n) = Some n"
proof -
  assume n: "n < 2 ^ bits"
  have "IndexByte (nat_to_hex n) (CHR '';'') = None"
    using nat_to_hex_chars by (auto simp: IndexByte_None)
  moreover have "TrimSpace (nat_to_hex n) = nat_to_hex n"
    using nat_to_hex_chars by (intro TrimSpace_no_space) blast
  ultimately show ?thesis
    using n by (simp add: chunkSize_def ParseUint16_hex)
qed

text \<open>A chunk as a server writes it.\<close>

definition chunk_wire :: "bytes \<Rightarrow> bytes" where
  "chunk_wire b = unchars (nat_to_hex (length b)) @ [13, 10] @ b @ [13, 10]"

definition chunk_ok :: "bytes \<Rightarrow> bool" where
  "chunk_ok b = (b \<noteq> [] \<and> length b < 4294967296)"

lemma decodeChunks_line:
  assumes "n < 4294967296"
  shows "decodeChunks (unchars (nat_to_hex n) @ [13, 10] @ rest) out =
    (if n = 0 then Inr out else if n + 2 > length rest then Inl ErrHTTPBadChunk
     else decodeChunks (drop (n + 2) rest) (out @ take n rest))"
proof -
  have "Index (unchars (nat_to_hex n) @ [13, 10] @ rest) [13, 10] = Some (length (nat_to_hex n))"
    using Index_crlf [OF unchars_CR] nat_to_hex_chars by fastforce
  then show ?thesis
    using assms by (subst decodeChunks.simps) (simp add: chunkSize_hex)
qed

lemma decodeChunks_chunk:
  "chunk_ok b \<Longrightarrow> decodeChunks (chunk_wire b @ rest) out = decodeChunks rest (out @ b)"
  using decodeChunks_line [of "length b" "b @ [13, 10] @ rest" out] by (auto simp: chunk_wire_def chunk_ok_def)

lemma decodeChunks_all:
  "\<forall>b \<in> set bs. chunk_ok b \<Longrightarrow> decodeChunks (concat (map chunk_wire bs) @ rest) out = decodeChunks rest (out @ concat bs)"
  by (induction bs arbitrary: out) (simp_all add: decodeChunks_chunk)

lemma decodeChunks_length: "decodeChunks raw out = Inr r \<Longrightarrow> length r \<le> length out + length raw"
proof (induction raw out rule: decodeChunks.induct)
  case (1 raw out)
  show ?case
  proof (rule ccontr)
    assume "\<not> ?thesis"
    with 1 show False
      by (subst (asm) (2) decodeChunks.simps) (fastforce simp: Let_def split: option.splits if_splits)
  qed
qed

lemma decodeBody_length: "decodeBody h body = Inr r \<Longrightarrow> length r \<le> length body"
  using decodeChunks_length [of body "[]" r]
  by (auto simp: decodeBody_def boundedBody_def decodeChunked_def split: option.splits if_splits)

lemma parseHTTPResponse_length: "parseHTTPResponse raw = Inr r \<Longrightarrow> length (hr_Body r) + 4 \<le> length raw"
  by (auto simp: parseHTTPResponse_def Let_def dest!: Index_Some decodeBody_length
      split: option.splits sum.splits if_splits)

section \<open>Responses read back\<close>

text \<open>A response as a server writes it: header lines, the blank line, the body.\<close>

definition header_line :: "string \<times> string \<Rightarrow> string" where
  "header_line kv = fst kv @ '': '' @ snd kv"

definition response_wire :: "nat \<Rightarrow> string \<Rightarrow> (string \<times> string) list \<Rightarrow> bytes \<Rightarrow> bytes" where
  "response_wire code reason hs body =
     unchars (''HTTP/1.1 '' @ nat_to_string code @ '' '' @ reason @
       concat (map (\<lambda>kv. CRLF @ header_line kv) hs)) @ [13, 10, 13, 10] @ body"

definition trimmed :: "string \<Rightarrow> bool" where "trimmed s = (TrimSpace s = s)"

definition header_ok :: "string \<times> string \<Rightarrow> bool" where
  "header_ok kv = (fst kv \<noteq> [] \<and> CHR '':'' \<notin> set (fst kv) \<and> CR \<notin> set (fst kv @ snd kv) \<and>
     trimmed (fst kv) \<and> trimmed (snd kv) \<and> ToLower (fst kv) = fst kv)"

lemma Index_crlfcrlf_lines:
  assumes "\<forall>l \<in> set ls. l \<noteq> [] \<and> 13 \<notin> set l"
  shows "Index (concat (map (\<lambda>l. [13, 10] @ l) ls) @ [13, 10, 13, 10] @ body) [13, 10, 13, 10 :: byte] =
    Some (length (concat (map (\<lambda>l. [13, 10] @ l) ls)))"
  using assms
proof (induction ls)
  case (Cons l ls)
  then obtain x l' where l: "l = x # l'" "x \<noteq> 13" "13 \<notin> set l'" by (cases l) auto
  let ?t = "concat (map (\<lambda>l. [13, 10] @ l) ls) @ [13, 10, 13, 10] @ body"
  have "Index (13 # 10 # x # l' @ ?t) [13, 10, 13, 10 :: byte] = map_option (\<lambda>i. i + 2) (Index (x # l' @ ?t) [13, 10, 13, 10])"
    using l by (simp add: HasPrefix_def map_option.compositionality comp_def)
  also have "Index (x # l' @ ?t) [13, 10, 13, 10] = map_option (\<lambda>i. i + length l) (Index ?t [13, 10, 13, 10])"
    using Index_skip [of 13 l ?t "[10, 13, 10]"] l by simp
  finally show ?case
    using Cons l by simp
qed (simp add: HasPrefix_def)

lemma SplitCRLF_lines:
  assumes "CR \<notin> set l" "\<forall>x \<in> set ls. CR \<notin> set x"
  shows "SplitCRLF (l @ concat (map (\<lambda>x. CRLF @ x) ls)) = l # ls"
  using assms
proof (induction ls arbitrary: l)
  case (Cons x ls)
  then show ?case using SplitCRLF_append [of l "x @ concat (map (\<lambda>x. CRLF @ x) ls)"] by simp
qed (simp add: SplitCRLF_line)

lemma header_line_parse:
  assumes "header_ok kv" "h (fst kv) = None"
  shows "parseHeaderLines (header_line kv # ls) h = parseHeaderLines ls (h(fst kv \<mapsto> snd kv))"
proof -
  have "is_space (CHR '' '')" by (simp add: is_space_def)
  then have "TrimSpace (CHR '' '' # v) = TrimSpace v" for v by (simp add: TrimSpace_def)
  moreover have "IndexByte (header_line kv) (CHR '':'') = Some (length (fst kv))"
    using assms(1) IndexByte_append [of "CHR '':''" "fst kv" "CHR '' '' # snd kv"]
    by (simp add: header_line_def header_ok_def)
  ultimately show ?thesis
    using assms by (simp add: header_line_def header_ok_def trimmed_def Let_def)
qed

lemma header_lines_parse:
  assumes "\<forall>kv \<in> set hs. header_ok kv" "distinct (map fst hs)" "dom h \<inter> fst ` set hs = {}"
  shows "parseHeaderLines (map header_line hs) h = Inr (h ++ map_of hs)"
  using assms
proof (induction hs arbitrary: h)
  case (Cons kv hs)
  have "h (fst kv) = None" using Cons.prems(3) by (auto simp: domIff)
  moreover have "map_of hs (fst kv) = None" using Cons.prems(2) by (auto simp: map_of_eq_None_iff)
  then have "h(fst kv \<mapsto> snd kv) ++ map_of hs = h ++ map_of (kv # hs)"
    by (cases kv) (auto simp: map_add_def fun_eq_iff split: option.splits)
  moreover have d: "dom (h(fst kv \<mapsto> snd kv)) \<inter> fst ` set hs = {}"
    unfolding dom_fun_upd using Cons.prems(2,3) by auto
  have "parseHeaderLines (map header_line hs) (h(fst kv \<mapsto> snd kv)) = Inr (h(fst kv \<mapsto> snd kv) ++ map_of hs)"
    by (rule Cons.IH [OF _ _ d]) (use Cons.prems(1,2) in simp_all)
  ultimately show ?case
    using header_line_parse [of kv h "map header_line hs"] Cons.prems(1)
    by (metis list.set_intros(1) list.simps(9))
qed simp

lemma digits_no_break: "c \<in> set (nat_to_string n) \<Longrightarrow> c \<noteq> CHR '' '' \<and> c \<noteq> CR \<and> c \<noteq> CHR ''-'' \<and> c \<noteq> CHR ''+''"
proof -
  assume "c \<in> set (nat_to_string n)"
  then have "is_digit c" using nat_to_string_digits [of n] by (auto simp: list_all_iff)
  then show ?thesis by (auto simp: is_digit_def CR_def)
qed

lemma Atoi_nat: "n < 2 ^ 63 \<Longrightarrow> Atoi (nat_to_string n) = Some (int n)"
proof -
  assume n: "n < 2 ^ 63"
  have "hd (nat_to_string n) \<in> set (nat_to_string n)" using nat_to_string_digits [of n] by simp
  with digits_no_break [of "hd (nat_to_string n)" n] show ?thesis
    using n by (simp add: Atoi_def Let_def)
qed

lemma parseStatus_wire:
  assumes "code < 2 ^ 63"
  shows "parseStatus (''HTTP/1.1 '' @ nat_to_string code @ '' '' @ reason) = Inr (int code)"
proof -
  have "CHR '' '' \<notin> set (nat_to_string code)" using digits_no_break by blast
  then have "IndexByte (nat_to_string code @ CHR '' '' # reason) (CHR '' '') = Some (length (nat_to_string code))"
    by (rule IndexByte_append)
  moreover have "IndexByte (''HTTP/1.1 '' @ nat_to_string code @ '' '' @ reason) (CHR '' '') = Some 8" by simp
  ultimately have "SplitN (''HTTP/1.1 '' @ nat_to_string code @ '' '' @ reason) (CHR '' '') 3 =
      ''HTTP/1.1'' # nat_to_string code # SplitN reason (CHR '' '') 1"
    by (simp add: numeral_3_eq_3)
  then show ?thesis
    using assms by (simp add: parseStatus_def Atoi_nat HasPrefix_def)
qed

lemma header_line_bytes: "header_ok kv \<Longrightarrow> unchars (header_line kv) \<noteq> [] \<and> 13 \<notin> set (unchars (header_line kv))"
proof -
  assume h: "header_ok kv"
  then have "CR \<notin> set (header_line kv)"
    by (auto simp: header_line_def header_ok_def CR_def)
  from unchars_CR [OF this] h show ?thesis
    by (auto simp: header_line_def header_ok_def unchars_def)
qed

lemma response_split:
  assumes "\<forall>kv \<in> set hs. header_ok kv" "CR \<notin> set status"
  shows "Index (unchars (status @ concat (map (\<lambda>kv. CRLF @ header_line kv) hs)) @ [13, 10, 13, 10] @ body)
      [13, 10, 13, 10] = Some (length (status @ concat (map (\<lambda>kv. CRLF @ header_line kv) hs)))"
proof -
  define ls where "ls = map (\<lambda>kv. unchars (header_line kv)) hs"
  have ls: "\<forall>l \<in> set ls. l \<noteq> [] \<and> 13 \<notin> set l"
    using assms(1) header_line_bytes by (auto simp: ls_def)
  have u: "unchars (concat (map (\<lambda>kv. CRLF @ header_line kv) hs)) = concat (map (\<lambda>l. [13, 10] @ l) ls)"
    by (simp add: ls_def) (induction hs, simp_all add: unchars_def CRLF_def CR_def LF_def)
  then have "length (concat (map (\<lambda>kv. CRLF @ header_line kv) hs)) = length (concat (map (\<lambda>l. [13, 10 :: byte] @ l) ls))"
    by (metis length_chars(2))
  then show ?thesis
    using Index_crlfcrlf_lines [OF ls, of body]
      Index_skip [OF unchars_CR [OF assms(2)], of "concat (map (\<lambda>l. [13, 10] @ l) ls) @ [13, 10, 13, 10] @ body" "[10, 13, 10]"]
    by (simp add: chars_append u)
qed

section \<open>Properties\<close>

text \<open>
  A chunked body is decoded to the concatenation of its chunks, whatever trailers follow the final
  zero chunk.
\<close>

lemma http_chunked_roundtrip:
  assumes "\<forall>b \<in> set bs. b \<noteq> [] \<and> length b < 4294967296"
  shows "decodeChunked (concat (map chunk_wire bs) @ unchars (''0'' @ CRLF) @ trailer) = Inr (concat bs)"
proof -
  have "nat_to_hex 0 = ''0''" by (simp add: nat_to_hex.simps hex_char_def char_of_def bit_0)
  then have "decodeChunks (unchars (''0'' @ CRLF) @ trailer) out = Inr out" for out
    using decodeChunks_line [of 0 trailer out] by (simp add: chars_append(2) [of "''0''" CRLF, simplified] unchars_CRLF)
  then show ?thesis
    using decodeChunks_all [of bs "unchars (''0'' @ CRLF) @ trailer" "[]"] assms
    by (simp add: decodeChunked_def chunk_ok_def)
qed

text \<open>
  A response with any status code and reason, any headers with distinct lower-case names, among them a
  content length, and a body of at least that length is parsed back: the status, the headers, and
  exactly the announced number of body bytes.
\<close>

lemma http_response_roundtrip:
  assumes "code < 2 ^ 63" "CR \<notin> set reason"
    and "\<forall>kv \<in> set hs. header_ok kv" "distinct (map fst hs)"
    and "map_of hs ''transfer-encoding'' = None"
    and "map_of hs ''content-length'' = Some (nat_to_string n)" "n < 2 ^ 63"
  shows "parseHTTPResponse (response_wire code reason hs body) =
    Inr \<lparr>hr_StatusCode = int code, hr_StatusLine = ''HTTP/1.1 '' @ nat_to_string code @ '' '' @ reason,
         hr_Headers = map_of hs, hr_Body = take n body\<rparr>"
proof -
  define status where "status = ''HTTP/1.1 '' @ nat_to_string code @ '' '' @ reason"
  define block where "block = status @ concat (map (\<lambda>kv. CRLF @ header_line kv) hs)"
  have w: "response_wire code reason hs body = unchars block @ [13, 10, 13, 10] @ body"
    by (simp add: response_wire_def block_def status_def)
  have st: "CR \<notin> set status"
    using assms(2) digits_no_break [of CR code] by (auto simp: status_def CR_def)
  have "CR \<notin> set (header_line kv)" if "kv \<in> set hs" for kv
    using assms(3) that by (auto simp: header_line_def header_ok_def CR_def)
  then have sp: "SplitCRLF block = status # map header_line hs"
    using SplitCRLF_lines [OF st, of "map header_line hs"] by (simp add: block_def comp_def)
  have hd: "parseHeaderLines (map header_line hs) Map.empty = Inr (map_of hs)"
    using header_lines_parse [OF assms(3,4), of Map.empty] by simp
  have ps: "parseStatus status = Inr (int code)" "status \<noteq> []"
    using parseStatus_wire [OF assms(1)] by (simp_all add: status_def)
  have "decodeBody (map_of hs) body = Inr (take n body)"
    using assms(5-7) by (simp add: decodeBody_def boundedBody_def Atoi_nat)
  then show ?thesis
    unfolding w status_def [symmetric]
    using response_split [OF assms(3) st, of body] sp hd ps
    by (simp add: parseHTTPResponse_def block_def [symmetric])
qed

end
