(* ===== verification/Go_Net.thy ===== *)
theory Go_Net
  imports Go_Strings
begin

text \<open>
  \<^verbatim>\<open>net.ParseIP\<close> of the Go library: dotted IPv4 without leading zeros, and IPv6 with at most one ellipsis and
  an optional trailing dotted part. The result has sixteen bytes, IPv4 addresses in mapped form;
  an address with a zone is refused.
\<close>

definition parseOctet :: "string \<Rightarrow> byte option" where
  "parseOctet f =
     (if length f > 1 \<and> hd f = CHR ''0'' then None
      else case string_to_nat f of
        None \<Rightarrow> None
      | Some n \<Rightarrow> if n \<le> 255 then Some (of_nat n) else None)"

definition parseIPv4Text :: "string \<Rightarrow> bytes option" where
  "parseIPv4Text s =
     (let fs = map parseOctet (Split s (CHR ''.'')) in
      if length fs = 4 \<and> list_all (\<lambda>f. f \<noteq> None) fs then Some (map the fs) else None)"

definition hexGroup :: "string \<Rightarrow> nat" where
  "hexGroup h = fold (\<lambda>c n. 16 * n + the (hex_val c)) h 0"

text \<open>The groups of an IPv6 address: how many may still come, the text, the bytes so far, the ellipsis.\<close>

fun parseGroups :: "nat \<Rightarrow> string \<Rightarrow> bytes \<Rightarrow> nat option \<Rightarrow> (bytes \<times> nat option) option" where
  "parseGroups 0 s acc ell = (if s = [] then Some (acc, ell) else None)"
| "parseGroups (Suc n) s acc ell =
     (let h = takeWhile (\<lambda>c. hex_val c \<noteq> None) s;
          rest = drop (length h) s;
          acc' = acc @ [of_nat (hexGroup h div 256), of_nat (hexGroup h mod 256)] in
      if h = [] \<or> length h > 4 then None
      else if rest = [] then Some (acc', ell)
      else if hd rest = CHR ''.'' then
        (if ell = None \<and> length acc \<noteq> 12 \<or> length acc + 4 > 16 then None
         else map_option (\<lambda>v4. (acc @ v4, ell)) (parseIPv4Text s))
      else if hd rest \<noteq> CHR '':'' \<or> tl rest = [] then None
      else if hd (tl rest) = CHR '':'' then
        (if ell \<noteq> None then None
         else if tl (tl rest) = [] then Some (acc', Some (length acc'))
         else parseGroups n (tl (tl rest)) acc' (Some (length acc')))
      else parseGroups n (tl rest) acc' ell)"

definition fillEllipsis :: "bytes \<times> nat option \<Rightarrow> bytes option" where
  "fillEllipsis r =
     (case r of (acc, ell) \<Rightarrow>
        if length acc < 16 then
          map_option (\<lambda>e. take e acc @ replicate (16 - length acc) 0 @ drop e acc) ell
        else if ell \<noteq> None then None
        else Some acc)"

definition parseIPv6Text :: "string \<Rightarrow> bytes option" where
  "parseIPv6Text s =
     (if HasPrefix s ''::'' then
        (if length s = 2 then Some (replicate 16 0)
         else Option.bind (parseGroups 8 (drop 2 s) [] (Some 0)) fillEllipsis)
      else Option.bind (parseGroups 8 s [] None) fillEllipsis)"

definition ParseIP :: "string \<Rightarrow> bytes option" where
  "ParseIP s =
     (if CHR ''%'' \<in> set s then None
      else case find (\<lambda>c. c = CHR ''.'' \<or> c = CHR '':'') s of
        None \<Rightarrow> None
      | Some c \<Rightarrow>
          if c = CHR ''.'' then map_option (\<lambda>v4. replicate 10 0 @ [0xFF, 0xFF] @ v4) (parseIPv4Text s)
          else parseIPv6Text s)"

lemma parseOctet_nat: "n \<le> 255 \<Longrightarrow> parseOctet (nat_to_string n) = Some (of_nat n)"
proof -
  assume n: "n \<le> 255"
  have "\<not> (length (nat_to_string n) > 1 \<and> hd (nat_to_string n) = CHR ''0'')"
  proof -
    have "digit_val (CHR ''0'') = 0" by (simp add: digit_val_def)
    then have z: "d = 0" if "d < 10" "digit_char d = CHR ''0''" for d
      using digit_char_props [OF that(1)] that(2) by metis
    show ?thesis
    proof (cases "n < 10")
      case False
      then have "hd (nat_to_string n) = hd (nat_to_string (n div 10))"
        using nat_to_string_digits [of "n div 10"] by (subst nat_to_string.simps) simp
      moreover have "hd (nat_to_string (n div 10)) = digit_char (if n < 100 then n div 10 else n div 100)"
      proof (cases "n < 100")
        case False
        then have "\<not> n div 10 < 10" "n div 10 div 10 < 10" "n div 10 div 10 = n div 100"
          using n by (auto simp: div_mult2_eq [symmetric])
        then show ?thesis
          using False by (simp add: nat_to_string.simps [of "n div 10"] nat_to_string.simps [of "n div 100"])
      next
        case True
        then have "n div 10 < 10" by auto
        then show ?thesis
          using True by (simp add: nat_to_string.simps [of "n div 10"])
      qed
      moreover have "(if n < 100 then n div 10 else n div 100) < 10" "(if n < 100 then n div 10 else n div 100) \<noteq> 0"
        using False n by (auto simp: div_eq_0_iff)
      ultimately show ?thesis
        using z by metis
    qed (simp add: nat_to_string.simps)
  qed
  then show ?thesis
    using n by (simp add: parseOctet_def)
qed

text \<open>The dotted form of an address is read back.\<close>

definition dotted :: "bytes \<Rightarrow> string" where
  "dotted a = Join (map (\<lambda>b. nat_to_string (unat b)) a) (CHR ''.'')"

lemma digits_no_sep: "c \<in> set (nat_to_string n) \<Longrightarrow> c \<noteq> CHR ''.'' \<and> c \<noteq> CHR '':'' \<and> c \<noteq> CHR ''%''"
  using nat_to_string_digits [of n] by (auto simp: list_all_iff is_digit_def)

lemma ParseIP_dotted:
  assumes "length a = 4"
  shows "ParseIP (dotted a) = Some (replicate 10 0 @ [0xFF, 0xFF] @ a)"
proof -
  obtain w x y z where a: "a = [w, x, y, z]" using assms by (auto simp: length_eq_4)
  let ?n = "\<lambda>b :: byte. nat_to_string (unat b)"
  have d: "dotted a = ?n w @ CHR ''.'' # ?n x @ CHR ''.'' # ?n y @ CHR ''.'' # ?n z"
    by (simp add: dotted_def a)
  have "Split (dotted a) (CHR ''.'') = map ?n a"
    unfolding dotted_def by (rule Split_Join) (use digits_no_sep in \<open>auto simp: a\<close>)
  then have "parseIPv4Text (dotted a) = Some a"
    using unat_byte_less by (simp add: parseIPv4Text_def a parseOctet_nat less_Suc_eq_le [symmetric])
  moreover have "CHR ''%'' \<notin> set (dotted a)"
    using digits_no_sep by (fastforce simp: d)
  moreover have "find (\<lambda>c. c = CHR ''.'' \<or> c = CHR '':'') (dotted a) = Some (CHR ''.'')"
  proof -
    have f: "find P (l @ c # r) = Some c" if "\<forall>x \<in> set l. \<not> P x" "P c" for P l r and c :: char
      using that by (induction l) auto
    show ?thesis
      unfolding d by (rule f) (use digits_no_sep [of _ "unat w"] in auto)
  qed
  ultimately show ?thesis by (simp add: ParseIP_def)
qed

lemma ParseIP_examples:
  "ParseIP ''::1'' = Some (replicate 15 0 @ [1])" "ParseIP ''10.0.02.2'' = None" "ParseIP ''ghcr.io'' = None"
  by code_simp+

end
