(* ===== verification/Http_Client.thy ===== *)
theory Http_Client
  imports Http_Text Go_Net Dns
begin

text \<open>
  The buffered client of \<^verbatim>\<open>uefiboard/ministack/http.go\<close> on the stack: resolving and dialling, sending the
  request, and collecting the response until the peer closes.
\<close>

record HTTPGetOptions =
  ho_DNSServer :: "ip option"
  ho_DialTimeout :: int
  ho_RequestTimeout :: int
  ho_ExtraHeaders :: "string list"

definition defaultDialTimeout :: int where "defaultDialTimeout = 10000000000"
definition defaultRequestTimeout :: int where "defaultRequestTimeout = 20000000000"

text \<open>
  \<open>now\<close> is the clock when the query is sent. The dial itself takes no time value: its checker counts
  iterations.
\<close>

definition dialHTTPConn ::
  "int \<Rightarrow> parsedHTTPURL \<Rightarrow> HTTPGetOptions \<Rightarrow> Stack \<Rightarrow> (http_error + nat) \<times> Stack" where
  "dialHTTPConn now u opts s =
     (case (case ParseIP (pu_Host u) of
              Some parsed \<Rightarrow>
                (case To4 parsed of
                   None \<Rightarrow> (Inl (NetError ErrTCP4InvalidAddr), s)
                 | Some a \<Rightarrow> (Inr a, s))
            | None \<Rightarrow>
                (case ho_DNSServer opts of
                   None \<Rightarrow> (Inl (NetError ErrDNSInvalidServer), s)
                 | Some server \<Rightarrow>
                     let dnsTimeout = (if ho_DialTimeout opts \<le> 0 then defaultDialTimeout else ho_DialTimeout opts) in
                     (case ResolveA (pu_Host u) server (now + dnsTimeout) s of
                        (Inl e, s1) \<Rightarrow> (Inl (NetError e), s1)
                      | (Inr a, s1) \<Rightarrow> (Inr a, s1)))) of
        (Inl e, s1) \<Rightarrow> (Inl e, s1)
      | (Inr a, s1) \<Rightarrow>
          (case DialTCP4 a (pu_Port u) s1 of
             (Inl e, s2, _) \<Rightarrow> (Inl (DialFailure e), s2)
           | (Inr conn, s2, _) \<Rightarrow> (Inr conn, s2)))"

section \<open>Reading the response\<close>

lemma tcpReadLoop_nonempty: "tcpReadLoop n a (Suc k) s = (Inr bs, s') \<Longrightarrow> bs \<noteq> []"
  by (induction n arbitrary: s) (auto simp: Let_def takeQueue_def split: if_splits)

lemma tcpRead_nonempty: "tcpRead a (Suc k) s = (Inr bs, s') \<Longrightarrow> bs \<noteq> []"
  by (auto simp: tcpRead_def dest: tcpReadLoop_nonempty split: if_splits)

lemma tcpRead_4096: "(Inr bs, s') = tcpRead a 4096 s \<Longrightarrow> 0 < length bs"
  using tcpRead_nonempty [of a 4095 s bs s'] by simp

text \<open>The loop of \<^verbatim>\<open>readHTTPResponse\<close>; a read never succeeds with no bytes, so it ends at the cap.\<close>

function readAll :: "nat \<Rightarrow> bytes \<Rightarrow> Stack \<Rightarrow> (http_error + bytes) \<times> Stack" where
  "readAll a all s =
     (case tcpRead a 4096 s of
        (Inr chunk, s') \<Rightarrow>
          if length all + length chunk > HTTPMaxResponseBytes then (Inl ErrHTTPResponseTooBig, s')
          else readAll a (all @ chunk) s'
      | (Inl e, s') \<Rightarrow>
          if e = ErrTCP4PeerClosed then (Inr all, s')
          else if length all = 0 then (Inl (NetError e), s')
          else (Inr all, s'))"
  by pat_completeness auto
termination
proof (relation "measure (\<lambda>(a, all, s). HTTPMaxResponseBytes + 1 - length all)", goal_cases)
  case (2 a all s x y b)
  then have "0 < length b" using tcpRead_4096 by metis
  with 2(3) show ?case by (simp del: length_greater_0_conv)
qed simp

declare readAll.simps [simp del]

definition readHTTPResponse :: "nat \<Rightarrow> Stack \<Rightarrow> (http_error + HTTPResponse) \<times> Stack" where
  "readHTTPResponse a s =
     (case readAll a [] s of
        (Inl e, s') \<Rightarrow> (Inl e, s')
      | (Inr all, s') \<Rightarrow> (parseHTTPResponse all, s'))"

text \<open>\<open>now\<close> and \<open>now'\<close> are the clock at the query and when the request deadline is set.\<close>

definition HTTPGet ::
  "int \<Rightarrow> int \<Rightarrow> string \<Rightarrow> HTTPGetOptions \<Rightarrow> Stack \<Rightarrow> (http_error + HTTPResponse) \<times> Stack" where
  "HTTPGet now now' url opts s =
     (case parseHTTPURL url of
        Inl e \<Rightarrow> (Inl e, s)
      | Inr u \<Rightarrow>
          (case dialHTTPConn now u opts s of
             (Inl e, s1) \<Rightarrow> (Inl e, s1)
           | (Inr a, s1) \<Rightarrow>
               let reqTimeout = (if ho_RequestTimeout opts \<le> 0 then defaultRequestTimeout else ho_RequestTimeout opts);
                   s2 = s1\<lparr>st_tcps := (st_tcps s1)[a := tcpSetDeadline (now' + reqTimeout) (st_tcps s1 ! a)]\<rparr> in
               (case tcpWrite a (buildHTTPRequest u (ho_ExtraHeaders opts)) s2 of
                  ((_, Some e), s3) \<Rightarrow> (Inl (NetError e), tcpClose a s3)
                | ((_, None), s3) \<Rightarrow>
                    (let (r, s4) = readHTTPResponse a s3 in (r, tcpClose a s4)))))"

section \<open>A finished stream\<close>

text \<open>A connection on which everything the peer sent has arrived.\<close>

definition arrived :: "nat \<Rightarrow> bytes \<Rightarrow> Stack \<Rightarrow> bool" where
  "arrived a raw s =
     (a < length (st_tcps s) \<and> tc_rxQueue (st_tcps s ! a) = raw \<and> tc_peerFinSeen (st_tcps s ! a) \<and>
      \<not> tc_closed (st_tcps s ! a))"

lemma newDeadline_Suc: "\<exists>N. dc_stop newDeadlineChecker = Suc N"
  by (simp add: newDeadlineChecker_def maxPumpIters_def)

lemma tcpRead_arrived:
  assumes "arrived a raw s"
  shows "if raw = [] then tcpRead a 4096 s = (Inl ErrTCP4PeerClosed, s)
    else \<exists>t. tcpRead a 4096 s = (Inr (take 4096 raw), t) \<and> arrived a (drop 4096 raw) t"
proof -
  obtain N where "dc_stop newDeadlineChecker = Suc N" using newDeadline_Suc by blast
  then show ?thesis
    using assms by (simp add: tcpRead_def arrived_def takeQueue_def Let_def)
qed

lemma readAll_arrived:
  "arrived a raw s \<Longrightarrow> length all \<le> HTTPMaxResponseBytes \<Longrightarrow> fst (readAll a all s) =
     (if length all + length raw \<le> HTTPMaxResponseBytes then Inr (all @ raw) else Inl ErrHTTPResponseTooBig)"
proof (induction "length raw" arbitrary: raw all s rule: less_induct)
  case less
  show ?case
  proof (cases "raw = []")
    case True
    then show ?thesis
      using tcpRead_arrived [OF less.prems(1)] less.prems(2) by (subst readAll.simps) simp
  next
    case False
    then obtain t where t: "tcpRead a 4096 s = (Inr (take 4096 raw), t)" "arrived a (drop 4096 raw) t"
      using tcpRead_arrived [OF less.prems(1)] by auto
    have "fst (readAll a (all @ take 4096 raw) t) =
        (if length all + length raw \<le> HTTPMaxResponseBytes then Inr (all @ raw) else Inl ErrHTTPResponseTooBig)"
      if "length all + length (take 4096 raw) \<le> HTTPMaxResponseBytes"
    proof -
      have "length (all @ take 4096 raw) + length (drop 4096 raw) = length all + length raw" by simp
      then show ?thesis
        using less.hyps [OF _ t(2), of "all @ take 4096 raw"] False that by simp
    qed
    then show ?thesis
      using t(1) by (subst readAll.simps) (auto simp: not_less)
  qed
qed

text \<open>A body the client returns has less than 1 MiB.\<close>

lemma http_body_bounded:
  assumes "readHTTPResponse a s = (Inr r, s')"
  shows "length (hr_Body r) + 4 \<le> 1048576"
proof -
  have *: "length all \<le> HTTPMaxResponseBytes \<Longrightarrow> readAll a all s = (Inr x, t) \<Longrightarrow> length x \<le> HTTPMaxResponseBytes" for all x t
  proof (induction a all s rule: readAll.induct)
    case (1 a all s)
    show ?case
    proof (rule ccontr)
      assume "\<not> ?thesis"
      with 1 show False
        by (subst (asm) (2) readAll.simps) (fastforce split: prod.splits sum.splits if_splits)
    qed
  qed
  obtain all t where "readAll a [] s = (Inr all, t)" "parseHTTPResponse all = Inr r"
    using assms by (auto simp: readHTTPResponse_def split: prod.splits sum.splits)
  then show ?thesis
    using * [of "[]" all t] parseHTTPResponse_length [of all r] by (simp add: HTTPMaxResponseBytes_def)
qed

section \<open>Properties\<close>

text \<open>
  C8. A response is collected whole: when everything the peer sent has arrived and it has closed, the client
  parses exactly those bytes if they are at most 1 MiB and reports the response as too big
  otherwise; it never parses a truncated response of an oversized stream.
\<close>

theorem http_reads_whole_stream:
  assumes "a < length (st_tcps s)" "tc_rxQueue (st_tcps s ! a) = raw" "tc_peerFinSeen (st_tcps s ! a)"
    and "\<not> tc_closed (st_tcps s ! a)"
  shows "fst (readHTTPResponse a s) =
    (if length raw \<le> 1048576 then parseHTTPResponse raw else Inl ErrHTTPResponseTooBig)"
proof -
  have "arrived a raw s" using assms by (simp add: arrived_def)
  from readAll_arrived [OF this, of "[]"] show ?thesis
    by (auto simp: readHTTPResponse_def HTTPMaxResponseBytes_def split: prod.splits sum.splits if_splits)
qed

theorem http_reads_whole_stream_witness:
  "fst (readHTTPResponse 0 (exampleStack\<lparr>st_tcps :=
     [(newTCB [10, 0, 2, 15] 49152 [10, 0, 2, 2] 80 1)\<lparr>tc_rxQueue := [72, 84, 84, 80], tc_peerFinSeen := True\<rparr>]\<rparr>)) =
   (if length [72, 84, 84, 80 :: byte] \<le> 1048576 then parseHTTPResponse [72, 84, 84, 80] else Inl ErrHTTPResponseTooBig)"
  by (rule http_reads_whole_stream) (simp_all add: newTCB_def)

end
