(* ===== verification/Http_Stream.thy ===== *)
theory Http_Stream
  imports Http_Text
begin

text \<open>
  The streaming half of \<^verbatim>\<open>uefiboard/ministack/http.go\<close>: the line reader, the header block, and bodies copied
  to a writer by length, by chunks or to the end. The reader below is data of the model: the blocks
  its coming reads deliver, cut at the caller's buffer, and the error it answers with afterwards, as a
  connection does; the writer collects bytes up to an optional limit.
\<close>

record source =
  so_blocks :: "bytes list"
  so_err :: http_error

definition srcRead :: "nat \<Rightarrow> source \<Rightarrow> bytes \<times> http_error option \<times> source" where
  "srcRead cap src =
     (case so_blocks src of
        [] \<Rightarrow> ([], Some (so_err src), src)
      | b # bs \<Rightarrow> (take cap b, None, src\<lparr>so_blocks := (if length b \<le> cap then bs else drop cap b # bs)\<rparr>))"

record sink =
  sk_out :: bytes
  sk_limit :: "nat option"

definition sinkWrite :: "bytes \<Rightarrow> sink \<Rightarrow> nat \<times> http_error option \<times> sink" where
  "sinkWrite bs sk =
     (case sk_limit sk of
        None \<Rightarrow> (length bs, None, sk\<lparr>sk_out := sk_out sk @ bs\<rparr>)
      | Some n \<Rightarrow>
          let room = n - length (sk_out sk) in
          if length bs \<le> room then (length bs, None, sk\<lparr>sk_out := sk_out sk @ bs\<rparr>)
          else (room, Some (SinkError 0), sk\<lparr>sk_out := sk_out sk @ take room bs\<rparr>))"

definition HTTPLineMaxBytes :: nat where "HTTPLineMaxBytes = 8192"
definition streamReadBufBytes :: nat where "streamReadBufBytes = 8192"

section \<open>The line reader\<close>

text \<open>\<open>lr_pend\<close> is the unread part \<^verbatim>\<open>buf[pos:end]\<close> of the buffer, the only part that is ever looked at.\<close>

record lineReader =
  lr_src :: source
  lr_pend :: bytes

definition newLineReader :: "source \<Rightarrow> lineReader" where
  "newLineReader r = \<lparr>lr_src = r, lr_pend = []\<rparr>"

definition fill :: "lineReader \<Rightarrow> http_error option \<times> lineReader" where
  "fill lr =
     (if length (lr_pend lr) = streamReadBufBytes then (Some ErrLineBuffer, lr)
      else let (bs, e, src') = srcRead (streamReadBufBytes - length (lr_pend lr)) (lr_src lr)
           in (e, lr\<lparr>lr_src := src', lr_pend := lr_pend lr @ bs\<rparr>))"

fun lfIndex :: "bytes \<Rightarrow> nat option" where
  "lfIndex [] = None"
| "lfIndex (b # bs) = (if b = 10 then Some 0 else map_option Suc (lfIndex bs))"

definition stripCR :: "bytes \<Rightarrow> bytes" where
  "stripCR l = (if length l > 0 \<and> last l = 13 then butlast l else l)"

definition lineOf :: "bytes \<Rightarrow> bytes \<Rightarrow> http_error + string" where
  "lineOf acc l =
     (let line = (if length acc > 0 then acc @ stripCR l else stripCR l) in
      if length line > HTTPLineMaxBytes then Inl ErrLineCap else Inr (chars line))"

text \<open>What a reader still holds: a measure for its loops.\<close>

definition src_size :: "source \<Rightarrow> nat" where
  "src_size src = sum_list (map (\<lambda>b. Suc (length b)) (so_blocks src))"

definition lr_size :: "lineReader \<Rightarrow> nat" where
  "lr_size lr = length (lr_pend lr) + src_size (lr_src lr)"

lemma srcRead_size:
  "srcRead cap src = (bs, None, src') \<Longrightarrow> 0 < cap \<Longrightarrow> src_size src' < src_size src"
  by (auto simp: srcRead_def src_size_def split: list.splits if_splits)

lemma srcRead_error: "srcRead cap src = (bs, Some e, src') \<Longrightarrow> bs = [] \<and> src' = src"
  by (auto simp: srcRead_def split: list.splits)

lemma fill_size:
  assumes "fill (lr\<lparr>lr_pend := []\<rparr>) = (e, lr')" "e = None \<or> lr_pend lr' \<noteq> []"
  shows "src_size (lr_src lr') < src_size (lr_src lr)"
proof -
  obtain bs src' where r: "srcRead streamReadBufBytes (lr_src lr) = (bs, e, src')" "lr_src lr' = src'" "lr_pend lr' = bs"
    using assms(1) by (auto simp: fill_def streamReadBufBytes_def split: prod.splits)
  then have "e = None" using assms(2) srcRead_error by (cases e) auto
  then show ?thesis using r srcRead_size [of streamReadBufBytes "lr_src lr" bs src'] by (simp add: streamReadBufBytes_def)
qed

function readLineLoop :: "bytes \<Rightarrow> lineReader \<Rightarrow> (http_error + string) \<times> lineReader" where
  "readLineLoop acc lr =
     (case lfIndex (lr_pend lr) of
        Some i \<Rightarrow> (lineOf acc (take i (lr_pend lr)), lr\<lparr>lr_pend := drop (i + 1) (lr_pend lr)\<rparr>)
      | None \<Rightarrow>
          let acc' = acc @ lr_pend lr in
          if length acc' > HTTPLineMaxBytes then (Inl ErrLineCap, lr)
          else case fill (lr\<lparr>lr_pend := []\<rparr>) of
            (Some e, lr') \<Rightarrow> if lr_pend lr' \<noteq> [] then readLineLoop acc' lr' else (Inl e, lr')
          | (None, lr') \<Rightarrow> readLineLoop acc' lr')"
  by pat_completeness auto
termination
  by (relation "measure (\<lambda>(acc, lr). src_size (lr_src lr))") (auto dest: fill_size [OF sym])

declare readLineLoop.simps [simp del]

definition ReadLine :: "lineReader \<Rightarrow> (http_error + string) \<times> lineReader" where
  "ReadLine lr = readLineLoop [] lr"

definition lrRead :: "nat \<Rightarrow> lineReader \<Rightarrow> bytes \<times> http_error option \<times> lineReader" where
  "lrRead cap lr =
     (if lr_pend lr \<noteq> [] then (take cap (lr_pend lr), None, lr\<lparr>lr_pend := drop cap (lr_pend lr)\<rparr>)
      else let (bs, e, src') = srcRead cap (lr_src lr) in (bs, e, lr\<lparr>lr_src := src'\<rparr>))"

lemma lrRead_size: "lrRead cap lr = (bs, None, lr') \<Longrightarrow> 0 < cap \<Longrightarrow> lr_size lr' < lr_size lr"
  using srcRead_size [of cap "lr_src lr"]
  by (fastforce simp: lrRead_def lr_size_def split: prod.splits if_splits)

section \<open>Bodies\<close>

definition isEOF :: "http_error \<Rightarrow> bool" where
  "isEOF e = (e = NetError ErrTCP4PeerClosed \<or> e = EOF)"

function boundedLoop ::
  "nat \<Rightarrow> nat \<Rightarrow> lineReader \<Rightarrow> sink \<Rightarrow> nat \<times> http_error option \<times> lineReader \<times> sink" where
  "boundedLoop n written lr sk =
     (if written \<ge> n then (written, None, lr, sk)
      else
        let (bs, e, lr') = lrRead (min (n - written) streamReadBufBytes) lr;
            (w, werr, sk') = (if bs \<noteq> [] then sinkWrite bs sk else (0, None, sk));
            written' = written + w in
        case werr of
          Some x \<Rightarrow> (written', Some x, lr', sk')
        | None \<Rightarrow>
            (case e of
               Some x \<Rightarrow>
                 if isEOF x then (written', if written' < n then Some ErrUnexpectedEOF else None, lr', sk')
                 else (written', Some x, lr', sk')
             | None \<Rightarrow> boundedLoop n written' lr' sk'))"
  by pat_completeness auto
termination
  by (relation "measure (\<lambda>(n, written, lr, sk). lr_size lr)")
    (auto dest!: lrRead_size [OF sym] simp: streamReadBufBytes_def)

declare boundedLoop.simps [simp del]

definition streamBoundedBody ::
  "lineReader \<Rightarrow> sink \<Rightarrow> nat \<Rightarrow> nat \<times> http_error option \<times> lineReader \<times> sink" where
  "streamBoundedBody lr sk n = boundedLoop n 0 lr sk"

function identityLoop ::
  "nat \<Rightarrow> lineReader \<Rightarrow> sink \<Rightarrow> nat \<times> http_error option \<times> lineReader \<times> sink" where
  "identityLoop written lr sk =
     (let (bs, e, lr') = lrRead streamReadBufBytes lr;
          (w, werr, sk') = (if bs \<noteq> [] then sinkWrite bs sk else (0, None, sk));
          written' = written + w in
      case werr of
        Some x \<Rightarrow> (written', Some x, lr', sk')
      | None \<Rightarrow>
          (case e of
             Some x \<Rightarrow> (written', if isEOF x then None else Some x, lr', sk')
           | None \<Rightarrow> identityLoop written' lr' sk'))"
  by pat_completeness auto
termination
  by (relation "measure (\<lambda>(written, lr, sk). lr_size lr)")
    (auto dest!: lrRead_size [OF sym] simp: streamReadBufBytes_def)

declare identityLoop.simps [simp del]

definition streamIdentityBody :: "lineReader \<Rightarrow> sink \<Rightarrow> nat \<times> http_error option \<times> lineReader \<times> sink" where
  "streamIdentityBody lr sk = identityLoop 0 lr sk"

section \<open>Chunked bodies\<close>

text \<open>A line takes at least its line feed from the reader, and nothing gives bytes back.\<close>

lemma srcRead_conserves: "srcRead cap src = (bs, e, src') \<Longrightarrow> src_size src' + length bs \<le> src_size src"
  by (auto simp: srcRead_def src_size_def split: list.splits if_splits)

lemma fill_conserves:
  "fill (lr\<lparr>lr_pend := []\<rparr>) = (e, lr') \<Longrightarrow> lr_size lr' \<le> src_size (lr_src lr)"
  using srcRead_conserves [of streamReadBufBytes "lr_src lr"]
  by (fastforce simp: fill_def lr_size_def streamReadBufBytes_def split: prod.splits if_splits)

lemma lfIndex_Some: "lfIndex bs = Some i \<Longrightarrow> i < length bs \<and> bs = take i bs @ 10 # drop (Suc i) bs \<and> 10 \<notin> set (take i bs)"
  by (induction bs arbitrary: i) (auto split: if_splits)

lemma lfIndex_None: "lfIndex bs = None \<longleftrightarrow> 10 \<notin> set bs"
  by (induction bs) auto

lemma readLineLoop_size:
  "readLineLoop acc lr = (r, lr') \<Longrightarrow> lr_size lr' \<le> lr_size lr \<and> (\<forall>l. r = Inr l \<longrightarrow> lr_size lr' < lr_size lr)"
proof (induction acc lr rule: readLineLoop.induct)
  case (1 acc lr)
  show ?case
  proof (cases "lfIndex (lr_pend lr)")
    case (Some i)
    then have "lr' = lr\<lparr>lr_pend := drop (i + 1) (lr_pend lr)\<rparr>"
      using 1(3) by (subst (asm) readLineLoop.simps) simp
    then show ?thesis
      using lfIndex_Some [OF Some] by (auto simp: lr_size_def)
  next
    case None
    obtain e lr1 where f: "fill (lr\<lparr>lr_pend := []\<rparr>) = (e, lr1)" by fastforce
    then have "lr_size lr1 \<le> lr_size lr"
      using fill_conserves [of lr e lr1] by (simp add: lr_size_def)
    then show ?thesis
      using 1 None f
      by (subst (asm) (3) readLineLoop.simps) (fastforce simp: Let_def split: if_splits option.splits)
  qed
qed

lemma ReadLine_size: "ReadLine lr = (Inr l, lr') \<Longrightarrow> lr_size lr' < lr_size lr"
  using readLineLoop_size by (auto simp: ReadLine_def)

function copyChunk ::
  "nat \<Rightarrow> nat \<Rightarrow> lineReader \<Rightarrow> sink \<Rightarrow> nat \<times> http_error option \<times> lineReader \<times> sink" where
  "copyChunk remaining written lr sk =
     (if remaining = 0 then (written, None, lr, sk)
      else
        let (bs, e, lr') = lrRead (min remaining streamReadBufBytes) lr;
            (w, werr, sk') = (if bs \<noteq> [] then sinkWrite bs sk else (0, None, sk));
            written' = written + w in
        case werr of
          Some x \<Rightarrow> (written', Some x, lr', sk')
        | None \<Rightarrow>
            (case e of
               Some x \<Rightarrow> (written', Some (if isEOF x then ErrHTTPBadChunk else x), lr', sk')
             | None \<Rightarrow> copyChunk (remaining - length bs) written' lr' sk'))"
  by pat_completeness auto
termination
  by (relation "measure (\<lambda>(remaining, written, lr, sk). lr_size lr)")
    (auto dest!: lrRead_size [OF sym] simp: streamReadBufBytes_def)

declare copyChunk.simps [simp del]

function drainTrailer :: "lineReader \<Rightarrow> lineReader" where
  "drainTrailer lr =
     (case ReadLine lr of
        (Inl _, lr') \<Rightarrow> lr'
      | (Inr l, lr') \<Rightarrow> if l = [] then lr' else drainTrailer lr')"
  by pat_completeness auto
termination
  by (relation "measure lr_size") (auto dest: ReadLine_size [OF sym])

declare drainTrailer.simps [simp del]

lemma lrRead_error: "lrRead cap lr = (bs, Some e, lr') \<Longrightarrow> bs = [] \<and> lr' = lr"
  by (auto simp: lrRead_def split: prod.splits if_splits dest: srcRead_error)

lemma copyChunk_size: "copyChunk n written lr sk = (w, e, lr', sk') \<Longrightarrow> lr_size lr' \<le> lr_size lr"
proof (induction n written lr sk rule: copyChunk.induct)
  case (1 n written lr sk)
  obtain bs e1 lr1 where r: "lrRead (min n streamReadBufBytes) lr = (bs, e1, lr1)" by (metis prod_cases3)
  have s1: "n \<noteq> 0 \<Longrightarrow> lr_size lr1 \<le> lr_size lr"
    using r lrRead_size [of "min n streamReadBufBytes" lr bs lr1] lrRead_error [of _ lr bs _ lr1]
    by (cases e1) (auto simp: streamReadBufBytes_def)
  show ?case
  proof (rule ccontr)
    assume "\<not> ?thesis"
    with 1 r s1 show False
      by (subst (asm) (2) copyChunk.simps) (fastforce simp: Let_def split: prod.splits if_splits option.splits)
  qed
qed

text \<open>The size of a chunk goes through \<^verbatim>\<open>int64(size)\<close>: from 2^63 on it is negative and nothing is copied.\<close>

definition chunkRemaining :: "nat \<Rightarrow> nat" where
  "chunkRemaining n = nat (sint (word_of_nat n :: 64 word))"

function chunkedLoop ::
  "nat \<Rightarrow> lineReader \<Rightarrow> sink \<Rightarrow> nat \<times> http_error option \<times> lineReader \<times> sink" where
  "chunkedLoop written lr sk =
     (case ReadLine lr of
        (Inl e, lr1) \<Rightarrow> (written, Some e, lr1, sk)
      | (Inr sizeLine, lr1) \<Rightarrow>
          (case chunkSize 64 sizeLine of
             None \<Rightarrow> (written, Some ErrHTTPBadChunk, lr1, sk)
           | Some n \<Rightarrow>
               if n = 0 then (written, None, drainTrailer lr1, sk)
               else case copyChunk (chunkRemaining n) written lr1 sk of
                 (w, Some e, lr2, sk2) \<Rightarrow> (w, Some e, lr2, sk2)
               | (w, None, lr2, sk2) \<Rightarrow>
                   (case ReadLine lr2 of
                      (Inl e, lr3) \<Rightarrow> (w, Some e, lr3, sk2)
                    | (Inr _, lr3) \<Rightarrow> chunkedLoop w lr3 sk2)))"
  by pat_completeness auto
termination
  by (relation "measure (\<lambda>(written, lr, sk). lr_size lr)")
    (auto dest!: ReadLine_size [OF sym] copyChunk_size [OF sym])

declare chunkedLoop.simps [simp del]

definition streamChunkedBody :: "lineReader \<Rightarrow> sink \<Rightarrow> nat \<times> http_error option \<times> lineReader \<times> sink" where
  "streamChunkedBody lr sk = chunkedLoop 0 lr sk"

section \<open>The header block\<close>

text \<open>\<^verbatim>\<open>contentLength\<close> is \<open>None\<close> for its initial -1.\<close>

record streamHeaders =
  sh_length :: "nat option"
  sh_chunked :: bool
  sh_map :: "string \<rightharpoonup> string"

definition ParseInt64 :: "string \<Rightarrow> int option" where
  "ParseInt64 s = Atoi s"

definition headerField :: "string \<Rightarrow> string \<Rightarrow> streamHeaders \<Rightarrow> streamHeaders option" where
  "headerField k v h =
     (if k = ''content-length'' then
        (case ParseInt64 v of
           None \<Rightarrow> None
         | Some n \<Rightarrow> if n < 0 then None else Some (h\<lparr>sh_length := Some (nat n), sh_map := (sh_map h)(k \<mapsto> v)\<rparr>))
      else if k = ''transfer-encoding'' then
        Some (h\<lparr>sh_chunked := (EqualFold v ''chunked'' \<or> sh_chunked h), sh_map := (sh_map h)(k \<mapsto> v)\<rparr>)
      else if k = ''content-type'' \<or> k = ''location'' then Some (h\<lparr>sh_map := (sh_map h)(k \<mapsto> v)\<rparr>)
      else Some h)"

function headerLoop :: "streamHeaders \<Rightarrow> lineReader \<Rightarrow> (http_error + unit) \<times> streamHeaders \<times> lineReader" where
  "headerLoop h lr =
     (case ReadLine lr of
        (Inl e, lr') \<Rightarrow> (Inl e, h, lr')
      | (Inr line, lr') \<Rightarrow>
          if line = [] then (Inr (), h, lr')
          else case IndexByte line (CHR '':'') of
            None \<Rightarrow> (Inl ErrHTTPBadHeader, h, lr')
          | Some colon \<Rightarrow>
              (case headerField (ToLower (TrimSpace (take colon line))) (TrimSpace (drop (colon + 1) line)) h of
                 None \<Rightarrow> (Inl ErrHTTPBadHeader, h, lr')
               | Some h' \<Rightarrow> headerLoop h' lr'))"
  by pat_completeness auto
termination
  by (relation "measure (\<lambda>(h, lr). lr_size lr)") (auto dest: ReadLine_size [OF sym])

declare headerLoop.simps [simp del]

record streamResult =
  sr_status :: int
  sr_written :: nat
  sr_headers :: "string \<rightharpoonup> string"
  sr_err :: "http_error option"

definition discard :: sink where "discard = \<lparr>sk_out = [], sk_limit = None\<rparr>"

definition streamBody :: "streamHeaders \<Rightarrow> lineReader \<Rightarrow> sink \<Rightarrow> nat \<times> http_error option \<times> lineReader \<times> sink" where
  "streamBody h lr sk =
     (if sh_chunked h then streamChunkedBody lr sk
      else case sh_length h of
        Some n \<Rightarrow> streamBoundedBody lr sk n
      | None \<Rightarrow> streamIdentityBody lr sk)"

definition streamHTTPResponseHeaders :: "lineReader \<Rightarrow> sink \<Rightarrow> streamResult \<times> lineReader \<times> sink" where
  "streamHTTPResponseHeaders lr dst =
     (let failed = (\<lambda>e hs. \<lparr>sr_status = 0, sr_written = 0, sr_headers = hs, sr_err = Some e\<rparr>) in
      case ReadLine lr of
        (Inl e, lr1) \<Rightarrow> (failed e Map.empty, lr1, dst)
      | (Inr statusLine, lr1) \<Rightarrow>
          (case parseStatus statusLine of
             Inl e \<Rightarrow> (failed e Map.empty, lr1, dst)
           | Inr status \<Rightarrow>
               (case headerLoop \<lparr>sh_length = None, sh_chunked = False, sh_map = Map.empty\<rparr> lr1 of
                  (Inl e, h, lr2) \<Rightarrow> (failed e (sh_map h), lr2, dst)
                | (Inr _, h, lr2) \<Rightarrow>
                    let redirect = (status \<ge> 300 \<and> status < 400);
                        (written, err, lr3, sk) = streamBody h lr2 (if redirect then discard else dst) in
                    (\<lparr>sr_status = status, sr_written = (if redirect then 0 else written), sr_headers = sh_map h,
                      sr_err = err\<rparr>, lr3, if redirect then dst else sk))))"

section \<open>Independence of how the bytes arrive\<close>

text \<open>All the bytes a reader will still deliver, in order.\<close>

definition flat :: "lineReader \<Rightarrow> bytes" where
  "flat lr = lr_pend lr @ concat (so_blocks (lr_src lr))"

lemma srcRead_flat:
  "srcRead cap src = (bs, None, src') \<Longrightarrow> concat (so_blocks src) = bs @ concat (so_blocks src') \<and> length bs \<le> cap"
  by (auto simp: srcRead_def split: list.splits if_splits)

lemma lrRead_flat: "lrRead cap lr = (bs, None, lr') \<Longrightarrow> flat lr = bs @ flat lr' \<and> length bs \<le> cap"
  using srcRead_flat [of cap "lr_src lr" bs]
  by (auto simp: lrRead_def flat_def split: prod.splits if_splits)

lemma lrRead_flat_error: "lrRead cap lr = (bs, Some e, lr') \<Longrightarrow> flat lr = []"
  by (auto simp: lrRead_def flat_def srcRead_def split: prod.splits if_splits list.splits)

lemma fill_flat:
  assumes "concat (so_blocks (lr_src lr)) \<noteq> []"
  shows "\<exists>lr'. fill (lr\<lparr>lr_pend := []\<rparr>) = (None, lr') \<and> flat lr' = concat (so_blocks (lr_src lr))"
  using assms by (auto simp: fill_def flat_def srcRead_def streamReadBufBytes_def split: list.splits)

lemma append_eq_LF:
  assumes "p @ q = l @ 10 # r" "10 \<notin> set p" "10 \<notin> set l"
  shows "\<exists>m. l = p @ m \<and> q = m @ 10 # (r :: bytes)"
  using assms by (auto simp: append_eq_append_conv2 append_eq_Cons_conv)

lemma first_LF_unique:
  assumes "p @ 10 # q = l @ 10 # r" "10 \<notin> set p" "10 \<notin> set l"
  shows "p = l \<and> q = (r :: bytes)"
proof -
  obtain m where m: "l = p @ m" "10 # q = m @ 10 # r" using append_eq_LF [OF assms] by blast
  then have "m = []" using assms(3) by (cases m) auto
  with m show ?thesis by simp
qed

lemma stripCR_append: "m \<noteq> [] \<Longrightarrow> stripCR (p @ m) = p @ stripCR m"
  by (simp add: stripCR_def butlast_append)

lemma length_stripCR: "length (stripCR l) \<le> length l"
  by (simp add: stripCR_def)

text \<open>
  A line is found wherever the blocks are cut; but when a block ends between the carriage return and
  the line feed, the carriage return stays in the line.
\<close>

lemma readLineLoop_flat:
  assumes "flat lr = l @ 10 # rest" "10 \<notin> set l" "length acc + length l \<le> HTTPLineMaxBytes"
  shows "\<exists>line lr'. readLineLoop acc lr = (Inr line, lr') \<and> flat lr' = rest \<and>
    (line = chars (acc @ l) \<or> line = chars (acc @ stripCR l))"
  using assms
proof (induction acc lr arbitrary: l rule: readLineLoop.induct)
  case (1 acc lr)
  show ?case
  proof (cases "lfIndex (lr_pend lr)")
    case (Some i)
    note i = lfIndex_Some [OF Some]
    have "take i (lr_pend lr) = l \<and> drop (Suc i) (lr_pend lr) @ concat (so_blocks (lr_src lr)) = rest"
    proof -
      have "take i (lr_pend lr) @ 10 # (drop (Suc i) (lr_pend lr) @ concat (so_blocks (lr_src lr))) = l @ 10 # rest"
        using 1(3) i by (metis append.assoc append_Cons flat_def)
      with i 1(4) show ?thesis
        using first_LF_unique by blast
    qed
    moreover have "length (acc @ stripCR l) \<le> HTTPLineMaxBytes"
      using 1(5) length_stripCR [of l] by simp
    ultimately show ?thesis
      using Some by (subst readLineLoop.simps) (auto simp: lineOf_def flat_def)
  next
    case None
    then obtain m where m: "l = lr_pend lr @ m" "concat (so_blocks (lr_src lr)) = m @ 10 # rest"
      using append_eq_LF [of "lr_pend lr" _ l rest] 1(3,4) by (auto simp: flat_def lfIndex_None)
    then obtain lr1 where f: "fill (lr\<lparr>lr_pend := []\<rparr>) = (None, lr1)" "flat lr1 = m @ 10 # rest"
      using fill_flat [of lr] by auto
    have "\<exists>line lr'. readLineLoop (acc @ lr_pend lr) lr1 = (Inr line, lr') \<and> flat lr' = rest \<and>
        (line = chars ((acc @ lr_pend lr) @ m) \<or> line = chars ((acc @ lr_pend lr) @ stripCR m))"
      by (rule 1(1) [OF None refl _ f(1) [symmetric] refl f(2)]) (use 1(4,5) m(1) in auto)
    moreover have "readLineLoop acc lr = readLineLoop (acc @ lr_pend lr) lr1"
      using None f(1) 1(5) m(1) by (subst readLineLoop.simps) auto
    moreover have "chars (acc @ lr_pend lr @ stripCR m) \<in> {chars (acc @ l), chars (acc @ stripCR l)}"
      using m(1) stripCR_append [of m "lr_pend lr"] by (cases "m = []") (auto simp: stripCR_def)
    ultimately show ?thesis using m(1) by auto
  qed
qed

lemma ReadLine_flat:
  assumes "flat lr = l @ 10 # rest" "10 \<notin> set l" "length l \<le> 8192"
  shows "\<exists>line lr'. ReadLine lr = (Inr line, lr') \<and> flat lr' = rest \<and> (line = chars l \<or> line = chars (stripCR l))"
  using readLineLoop_flat [of lr l rest "[]"] assms by (auto simp: ReadLine_def HTTPLineMaxBytes_def)

lemma sinkWrite_unlimited: "sk_limit sk = None \<Longrightarrow> sinkWrite bs sk = (length bs, None, sk\<lparr>sk_out := sk_out sk @ bs\<rparr>)"
  by (simp add: sinkWrite_def)

lemma copyChunk_flat:
  assumes "n \<le> length (flat lr)" "sk_limit sk = None"
  shows "\<exists>lr'. copyChunk n written lr sk = (written + n, None, lr', sk\<lparr>sk_out := sk_out sk @ take n (flat lr)\<rparr>) \<and>
    flat lr' = drop n (flat lr)"
  using assms
proof (induction n written lr sk rule: copyChunk.induct)
  case (1 n written lr sk)
  show ?case
  proof (cases "n = 0")
    case True
    then show ?thesis by (subst copyChunk.simps) simp
  next
    case False
    then have "flat lr \<noteq> []" using 1(2) by auto
    then obtain bs lr1 where r: "lrRead (min n streamReadBufBytes) lr = (bs, None, lr1)"
      using lrRead_flat_error by (metis not_None_eq prod_cases3)
    note f = lrRead_flat [OF r]
    define sk1 where "sk1 = sk\<lparr>sk_out := sk_out sk @ bs\<rparr>"
    have w: "(if bs \<noteq> [] then sinkWrite bs sk else (0, None, sk)) = (length bs, None, sk1)"
      using 1(3) by (simp add: sinkWrite_unlimited sk1_def)
    have le: "n - length bs \<le> length (flat lr1)" "length bs \<le> n"
      using f 1(2) by auto
    have "\<exists>lr'. copyChunk (n - length bs) (written + length bs) lr1 sk1 =
        (written + length bs + (n - length bs), None, lr', sk1\<lparr>sk_out := sk_out sk1 @ take (n - length bs) (flat lr1)\<rparr>) \<and>
        flat lr' = drop (n - length bs) (flat lr1)"
      by (rule 1(1) [OF False r [symmetric] refl refl w [symmetric] refl refl refl refl refl])
        (use le(1) 1(3) in \<open>auto simp: sk1_def\<close>)
    moreover have "copyChunk n written lr sk = copyChunk (n - length bs) (written + length bs) lr1 sk1"
      using False r w by (subst copyChunk.simps) (simp add: Let_def)
    ultimately show ?thesis
      using f le(2) by (auto simp: sk1_def)
  qed
qed

lemma nat_to_hex_length: "n < 16 ^ Suc k \<Longrightarrow> length (nat_to_hex n) \<le> Suc k"
proof (induction k arbitrary: n)
  case (Suc k)
  then have "n div 16 < 16 ^ Suc k" by (auto simp: less_mult_imp_div_less)
  from Suc.IH [OF this] show ?case
    by (subst nat_to_hex.simps) simp
qed (simp add: nat_to_hex.simps)

lemma chunkSize_hex_CR: "n < 2 ^ bits \<Longrightarrow> chunkSize bits (nat_to_hex n @ [CR]) = Some n"
proof -
  assume n: "n < 2 ^ bits"
  have "IndexByte (nat_to_hex n @ [CR]) (CHR '';'') = None"
    using nat_to_hex_chars by (fastforce simp: IndexByte_None CR_def)
  moreover have "is_space CR" by (simp add: is_space_def CR_def)
  moreover have "dropWhile is_space (nat_to_hex n @ [CR]) = nat_to_hex n @ [CR]"
    using nat_to_hex_chars [of _ n] nat_to_hex_value [of n] by (cases "nat_to_hex n") auto
  ultimately have "TrimSpace (nat_to_hex n @ [CR]) = nat_to_hex n"
    using TrimSpace_no_space [of "nat_to_hex n"] nat_to_hex_chars [of _ n] nat_to_hex_value [of n]
    by (simp add: TrimSpace_def)
  then show ?thesis
    using n \<open>IndexByte _ _ = None\<close> by (simp add: chunkSize_def ParseUint16_hex)
qed

lemma unchars_LF: "LF \<notin> set s \<Longrightarrow> 10 \<notin> set (unchars s)"
proof
  assume "10 \<in> set (unchars s)" "LF \<notin> set s"
  then have "char_of (unat (10 :: byte)) \<in> set (chars (unchars s))"
    unfolding chars_def by (metis image_eqI list.set_map)
  with \<open>LF \<notin> set s\<close> show False by (simp add: char_of_def LF_def bit_0)
qed

lemma hex_no_LF: "LF \<notin> set (nat_to_hex n)"
  using nat_to_hex_chars [of LF n] by (auto simp: is_space_def LF_def)

text \<open>The size line of a chunk is understood with or without its carriage return.\<close>

lemma size_line_flat:
  assumes "flat lr = unchars (nat_to_hex n) @ [13, 10] @ rest" "n < 4294967296"
  shows "\<exists>line lr'. ReadLine lr = (Inr line, lr') \<and> flat lr' = rest \<and> chunkSize 64 line = Some n"
proof -
  let ?l = "unchars (nat_to_hex n) @ [13]"
  have "length (nat_to_hex n) \<le> 8" using nat_to_hex_length [of n 7] assms(2) by simp
  then obtain line lr' where r: "ReadLine lr = (Inr line, lr')" "flat lr' = rest"
      "line = chars ?l \<or> line = chars (stripCR ?l)"
    using ReadLine_flat [of lr ?l rest] assms(1) unchars_LF [OF hex_no_LF] by auto
  have "chars ?l = nat_to_hex n @ [CR]" "chars (stripCR ?l) = nat_to_hex n"
    by (simp_all add: chars_append stripCR_def) (simp add: chars_def char_of_13)
  then have "chunkSize 64 line = Some n"
    using r(3) chunkSize_hex [of n 64] chunkSize_hex_CR [of n 64] assms(2) by auto
  with r show ?thesis by blast
qed

lemma chunkRemaining_small: "n < 2 ^ 63 \<Longrightarrow> chunkRemaining n = n"
  by (simp add: chunkRemaining_def signed_of_nat signed_take_bit_int_eq_self)

lemma chunkedLoop_flat:
  assumes "\<forall>b \<in> set bs. chunk_ok b" "sk_limit sk = None"
    and "flat lr = concat (map chunk_wire bs) @ unchars ''0'' @ [13, 10] @ trailer"
  shows "\<exists>lr'. chunkedLoop written lr sk =
    (written + length (concat bs), None, lr', sk\<lparr>sk_out := sk_out sk @ concat bs\<rparr>)"
  using assms
proof (induction bs arbitrary: lr written sk)
  case Nil
  have "nat_to_hex 0 = ''0''" by (simp add: nat_to_hex.simps hex_char_def char_of_def bit_0)
  then obtain line lr1 where "ReadLine lr = (Inr line, lr1)" "chunkSize 64 line = Some 0"
    using size_line_flat [of lr 0 trailer] Nil.prems(3) by auto
  then show ?case by (subst chunkedLoop.simps) simp
next
  case (Cons b bs)
  let ?rest = "concat (map chunk_wire bs) @ unchars ''0'' @ [13, 10] @ trailer"
  have b: "b \<noteq> []" "length b < 4294967296" using Cons.prems(1) by (auto simp: chunk_ok_def)
  obtain line lr1 where r1: "ReadLine lr = (Inr line, lr1)" "flat lr1 = b @ [13, 10] @ ?rest"
      "chunkSize 64 line = Some (length b)"
    using size_line_flat [of lr "length b" "b @ [13, 10] @ ?rest"] Cons.prems(3) b(2)
    by (auto simp: chunk_wire_def [of b])
  obtain lr2 where r2: "copyChunk (length b) written lr1 sk =
      (written + length b, None, lr2, sk\<lparr>sk_out := sk_out sk @ b\<rparr>)" "flat lr2 = [13] @ 10 # ?rest"
    using copyChunk_flat [of "length b" lr1 sk written] r1(2) Cons.prems(2) by auto
  obtain line3 lr3 where r3: "ReadLine lr2 = (Inr line3, lr3)" "flat lr3 = ?rest"
    using ReadLine_flat [OF r2(2)] by auto
  have "\<exists>lr'. chunkedLoop (written + length b) lr3 (sk\<lparr>sk_out := sk_out sk @ b\<rparr>) =
      (written + length b + length (concat bs), None, lr', sk\<lparr>sk_out := sk_out sk @ b @ concat bs\<rparr>)"
    using Cons.IH [of "sk\<lparr>sk_out := sk_out sk @ b\<rparr>" lr3 "written + length b"] Cons.prems(1,2) r3(2) by simp
  moreover have "chunkRemaining (length b) = length b" using b(2) by (intro chunkRemaining_small) simp
  ultimately show ?case
    using r1 r2(1) r3(1) b(1) by (subst chunkedLoop.simps) (simp add: add.assoc)
qed

lemma boundedLoop_flat:
  assumes "written + length (flat lr) \<ge> n" "written \<le> n" "sk_limit sk = None"
  shows "\<exists>lr'. boundedLoop n written lr sk =
      (n, None, lr', sk\<lparr>sk_out := sk_out sk @ take (n - written) (flat lr)\<rparr>)"
  using assms
proof (induction n written lr sk rule: boundedLoop.induct)
  case (1 n written lr sk)
  show ?case
  proof (cases "written = n")
    case True
    then show ?thesis by (subst boundedLoop.simps) simp
  next
    case False
    then have "flat lr \<noteq> []" "\<not> n \<le> written" using 1(2,3) by auto
    then obtain bs lr1 where r: "lrRead (min (n - written) streamReadBufBytes) lr = (bs, None, lr1)"
      using lrRead_flat_error by (metis not_None_eq prod_cases3)
    note f = lrRead_flat [OF r]
    define sk1 where "sk1 = sk\<lparr>sk_out := sk_out sk @ bs\<rparr>"
    have w: "(if bs \<noteq> [] then sinkWrite bs sk else (0, None, sk)) = (length bs, None, sk1)"
      using 1(4) by (simp add: sinkWrite_unlimited sk1_def)
    have "\<exists>lr'. boundedLoop n (written + length bs) lr1 sk1 =
        (n, None, lr', sk1\<lparr>sk_out := sk_out sk1 @ take (n - (written + length bs)) (flat lr1)\<rparr>)"
      by (rule 1(1) [OF \<open>\<not> n \<le> written\<close> r [symmetric] refl refl w [symmetric] refl refl refl refl refl])
        (use f 1(2-4) in \<open>auto simp: sk1_def\<close>)
    moreover have "boundedLoop n written lr sk = boundedLoop n (written + length bs) lr1 sk1"
      using \<open>\<not> n \<le> written\<close> r w by (subst boundedLoop.simps) (simp add: Let_def)
    moreover have "length bs \<le> n - written" using f by simp
    ultimately show ?thesis
      using f by (auto simp: sk1_def)
  qed
qed

section \<open>A cut inside a line break\<close>

lemma readLineLoop_here:
  "lfIndex (lr_pend lr) = Some i \<Longrightarrow>
   readLineLoop acc lr = (lineOf acc (take i (lr_pend lr)), lr\<lparr>lr_pend := drop (i + 1) (lr_pend lr)\<rparr>)"
  by (subst readLineLoop.simps) simp

lemma readLineLoop_fill:
  assumes "lfIndex (lr_pend lr) = None" "length acc + length (lr_pend lr) \<le> 8192" "so_blocks (lr_src lr) = b # bs"
  shows "readLineLoop acc lr = readLineLoop (acc @ lr_pend lr)
    (lr\<lparr>lr_src := (lr_src lr)\<lparr>so_blocks := (if length b \<le> 8192 then bs else drop 8192 b # bs)\<rparr>,
        lr_pend := take 8192 b\<rparr>)"
  using assms by (subst readLineLoop.simps)
    (simp add: fill_def srcRead_def streamReadBufBytes_def HTTPLineMaxBytes_def)

lemma lfIndex_at: "10 \<notin> set l \<Longrightarrow> lfIndex (l @ 10 # r) = Some (length l)"
  by (induction l) auto

lemma status_line_read:
  assumes "LF \<notin> set status" "length status \<le> 100" "length tail \<le> 100" "status \<noteq> []" "last status \<noteq> CR"
  shows "ReadLine (newLineReader \<lparr>so_blocks = (unchars status @ [13, 10] @ tail) # bs, so_err = e\<rparr>) =
    (Inr status, \<lparr>lr_src = \<lparr>so_blocks = bs, so_err = e\<rparr>, lr_pend = tail\<rparr>)"
proof -
  have "lfIndex ((unchars status @ [13]) @ 10 # tail) = Some (length (unchars status @ [13]))"
    using unchars_LF [OF assms(1)] by (intro lfIndex_at) auto
  then have "readLineLoop [] \<lparr>lr_src = \<lparr>so_blocks = bs, so_err = e\<rparr>, lr_pend = (unchars status @ [13]) @ 10 # tail\<rparr> =
      (lineOf [] (unchars status @ [13]), \<lparr>lr_src = \<lparr>so_blocks = bs, so_err = e\<rparr>, lr_pend = tail\<rparr>)"
    by (subst readLineLoop_here) auto
  then show ?thesis
    using readLineLoop_fill [of "newLineReader \<lparr>so_blocks = (unchars status @ [13, 10] @ tail) # bs, so_err = e\<rparr>" "[]"
        "unchars status @ [13, 10] @ tail" bs] assms(2,3)
    by (simp add: ReadLine_def newLineReader_def lineOf_def stripCR_def HTTPLineMaxBytes_def)
qed

lemma split_blank_line:
  "ReadLine \<lparr>lr_src = \<lparr>so_blocks = (10 # body) # bs, so_err = e\<rparr>, lr_pend = [13]\<rparr> =
    (Inr [CR], \<lparr>lr_src = \<lparr>so_blocks = (if length (10 # body) \<le> 8192 then bs else drop 8192 (10 # body) # bs),
       so_err = e\<rparr>, lr_pend = take 8191 body\<rparr>)"
proof -
  have t: "take 8192 (10 # body) = 10 # take 8191 body" by simp
  show ?thesis
    unfolding ReadLine_def
    by (subst readLineLoop_fill [where b = "10 # body" and bs = bs], simp_all only: t)
      (simp_all add: readLineLoop_here lineOf_def stripCR_def HTTPLineMaxBytes_def chars_def char_of_13)
qed

lemma whole_blank_line:
  "ReadLine \<lparr>lr_src = src, lr_pend = [13, 10]\<rparr> = (Inr [], \<lparr>lr_src = src, lr_pend = []\<rparr>)"
  by (simp add: ReadLine_def readLineLoop_here lineOf_def stripCR_def HTTPLineMaxBytes_def chars_def)

lemma lrRead_err: "lrRead cap lr = (bs, e, lr') \<Longrightarrow> so_err (lr_src lr') = so_err (lr_src lr) \<and> (\<forall>x. e = Some x \<longrightarrow> x = so_err (lr_src lr))"
  by (auto simp: lrRead_def srcRead_def split: if_splits list.splits prod.splits)

lemma identityLoop_ok:
  "isEOF (so_err (lr_src lr)) \<Longrightarrow> sk_limit sk = None \<Longrightarrow> fst (snd (identityLoop written lr sk)) = None"
proof (induction written lr sk rule: identityLoop.induct)
  case (1 written lr sk)
  obtain bs e lr1 where r: "lrRead streamReadBufBytes lr = (bs, e, lr1)" by (metis prod_cases3)
  define sk1 where "sk1 = (if bs \<noteq> [] then sk\<lparr>sk_out := sk_out sk @ bs\<rparr> else sk)"
  have w: "(if bs \<noteq> [] then sinkWrite bs sk else (0, None, sk)) = (length bs, None, sk1)"
    using 1(3) by (simp add: sinkWrite_unlimited sk1_def)
  have "e = None \<Longrightarrow> fst (snd (identityLoop (written + length bs) lr1 sk1)) = None"
    using 1(1) [OF r [symmetric] refl refl w [symmetric] refl refl refl refl] 1(2,3) lrRead_err [OF r]
    by (auto simp: sk1_def)
  then show ?case
    using r w 1(2) lrRead_err [OF r] by (subst identityLoop.simps) (auto simp: Let_def split: option.splits)
qed

section \<open>Properties\<close>

text \<open>
  C10. A chunked body is streamed correctly however the network cuts it: whatever blocks the reads deliver,
  the writer receives exactly the concatenation of the chunks, and the count and success are
  reported.
\<close>

theorem http_stream_chunked_any_cut:
  assumes "concat (so_blocks src) = concat (map chunk_wire bs) @ unchars ''0'' @ [13, 10] @ trailer"
    and "\<forall>b \<in> set bs. b \<noteq> [] \<and> length b < 4294967296" "sk_limit sk = None"
  shows "\<exists>lr'. streamChunkedBody (newLineReader src) sk =
    (length (concat bs), None, lr', sk\<lparr>sk_out := sk_out sk @ concat bs\<rparr>)"
  using chunkedLoop_flat [of bs sk "newLineReader src" trailer 0] assms
  by (simp add: streamChunkedBody_def newLineReader_def flat_def chunk_ok_def)

theorem http_stream_chunked_any_cut_witness:
  "\<exists>lr'. streamChunkedBody (newLineReader \<lparr>so_blocks = [[50, 13], [10, 7], [8, 13, 10, 48], [13, 10]], so_err = EOF\<rparr>)
      \<lparr>sk_out = [], sk_limit = None\<rparr> = (2, None, lr', \<lparr>sk_out = [7, 8], sk_limit = None\<rparr>)"
proof -
  have "nat_to_hex 2 = ''2''" by (simp add: nat_to_hex.simps hex_char_def char_of_def bit_0)
  then have "concat (so_blocks \<lparr>so_blocks = [[50, 13], [10, 7], [8, 13, 10, 48], [13, 10]], so_err = EOF\<rparr>) =
      concat (map chunk_wire [[7, 8]]) @ unchars ''0'' @ [13, 10] @ []"
    by (simp add: chunk_wire_def unchars_def numeral_2_eq_2)
  from http_stream_chunked_any_cut [OF this, of "\<lparr>sk_out = [], sk_limit = None\<rparr>"]
  show ?thesis by (simp add: numeral_2_eq_2)
qed

text \<open>
  A body with a content length is streamed correctly however it is cut: the writer receives exactly the
  announced number of bytes, and what follows them stays with the reader.
\<close>

lemma http_stream_bounded_any_cut:
  assumes "n \<le> length (concat (so_blocks src))" "sk_limit sk = None"
  shows "\<exists>lr'. streamBoundedBody (newLineReader src) sk n =
    (n, None, lr', sk\<lparr>sk_out := sk_out sk @ take n (concat (so_blocks src))\<rparr>)"
  using boundedLoop_flat [of n 0 "newLineReader src" sk] assms
  by (simp add: streamBoundedBody_def newLineReader_def flat_def)


end
