(* ===== verification/Sha256.thy ===== *)
theory Sha256
  imports Go_Strings
begin

unbundle bit_operations_syntax

text \<open>
  The parts of Go's packages \<^verbatim>\<open>crypto/sha256\<close> and \<^verbatim>\<open>encoding/hex\<close> that the sources use: the hash of FIPS 180-4
  over byte lists, and lower-case hexadecimal text.
\<close>

definition rotr :: "nat \<Rightarrow> u32 \<Rightarrow> u32" where
  "rotr n x = drop_bit n x OR push_bit (32 - n) x"

text \<open>
  The constants by their definition: the first 32 bits of the fractional parts of the cube roots of the
  primes up to 311 and of the square roots of the primes up to 19. \<open>rootBits\<close> sets the bits of the
  root one by one from the highest; forty bits hold every integer part as well.
\<close>

primrec rootBits :: "nat \<Rightarrow> nat \<Rightarrow> nat \<Rightarrow> nat \<Rightarrow> nat" where
  "rootBits k n 0 r = r"
| "rootBits k n (Suc b) r = rootBits k n b (if (r + 2 ^ b) ^ k \<le> n then r + 2 ^ b else r)"

definition roundConstants :: "u32 list" where
  "roundConstants = map (\<lambda>p. of_nat (rootBits 3 (p * 2 ^ 96) 40 0)) (filter (\<lambda>p. list_all (\<lambda>d. p mod d \<noteq> 0) [2..<p]) [2..<312])"

definition initialHash :: "u32 list" where
  "initialHash = map (\<lambda>p. of_nat (rootBits 2 (p * 2 ^ 64) 40 0)) [2, 3, 5, 7, 11, 13, 17, 19]"

text \<open>The message followed by one bit, zeros, and its length in bits: a multiple of 64 bytes.\<close>

definition put64 :: "u64 \<Rightarrow> bytes" where
  "put64 w = put32 (ucast (drop_bit 32 w)) @ put32 (ucast w)"

definition padded :: "bytes \<Rightarrow> bytes" where
  "padded m = m @ [0x80] @ replicate ((119 - length m mod 64) mod 64) 0 @ put64 (of_nat (8 * length m))"

fun words_of :: "bytes \<Rightarrow> u32 list" where
  "words_of (a # b # c # d # r) = be32 a b c d # words_of r"
| "words_of r = []"

definition sigma0 :: "u32 \<Rightarrow> u32" where "sigma0 x = rotr 7 x XOR rotr 18 x XOR drop_bit 3 x"
definition sigma1 :: "u32 \<Rightarrow> u32" where "sigma1 x = rotr 17 x XOR rotr 19 x XOR drop_bit 10 x"

text \<open>The message schedule: the sixteen words of a block extended to sixty-four, the latest first.\<close>

primrec extendSchedule :: "nat \<Rightarrow> u32 list \<Rightarrow> u32 list" where
  "extendSchedule 0 w = w"
| "extendSchedule (Suc n) w = extendSchedule n ((sigma1 (w ! 1) + w ! 6 + sigma0 (w ! 14) + w ! 15) # w)"

fun roundStep :: "u32 list \<Rightarrow> u32 \<times> u32 \<Rightarrow> u32 list" where
  "roundStep [a, b, c, d, e, f, g, h] (k, w) =
     (let t1 = h + (rotr 6 e XOR rotr 11 e XOR rotr 25 e) + ((e AND f) XOR (NOT e AND g)) + k + w;
          t2 = (rotr 2 a XOR rotr 13 a XOR rotr 22 a) + ((a AND b) XOR (a AND c) XOR (b AND c))
      in [t1 + t2, a, b, c, d + t1, e, f, g])"
| "roundStep st kw = st"

definition compress :: "u32 list \<Rightarrow> bytes \<Rightarrow> u32 list" where
  "compress hs block =
     (let w = rev (extendSchedule 48 (rev (words_of block)));
          st = fold (\<lambda>kw st. roundStep st kw) (zip roundConstants w) hs
      in map2 (+) hs st)"

fun blocks64 :: "nat \<Rightarrow> bytes \<Rightarrow> bytes list" where
  "blocks64 0 m = []"
| "blocks64 (Suc n) m = take 64 m # blocks64 n (drop 64 m)"

definition Sum256 :: "bytes \<Rightarrow> bytes" where
  "Sum256 m =
     (let p = padded m in
      concat (map put32 (fold (\<lambda>b hs. compress hs b) (blocks64 (length p div 64) p) initialHash)))"

text \<open>\<^verbatim>\<open>hex.EncodeToString\<close> and the check of \<^verbatim>\<open>hex.DecodeString\<close>.\<close>

definition hexEncode :: "bytes \<Rightarrow> string" where
  "hexEncode bs = concat (map (\<lambda>b. [hex_char (unat b div 16), hex_char (unat b mod 16)]) bs)"

definition hexDecodes :: "string \<Rightarrow> bool" where
  "hexDecodes s = (even (length s) \<and> list_all (\<lambda>c. hex_val c \<noteq> None) s)"

lemma length_hexEncode [simp]: "length (hexEncode bs) = 2 * length bs"
  by (induction bs) (auto simp: hexEncode_def)

lemma hexDecodes_hexEncode [simp]: "hexDecodes (hexEncode bs)"
proof -
  have "unat b div 16 < 16" "unat b mod 16 < 16" for b :: byte
    using unat_byte_less [of b] by (simp_all add: less_mult_imp_div_less)
  then have "list_all (\<lambda>c. hex_val c \<noteq> None) (hexEncode bs)"
    by (auto simp: hexEncode_def list_all_iff hex_val_char)
  then show ?thesis by (simp add: hexDecodes_def)
qed

lemma length_roundStep: "length (roundStep st kw) = length st"
  by (cases "(st, kw)" rule: roundStep.cases) (auto simp: Let_def)

lemma length_compress: "length (compress hs b) = length hs"
proof -
  have "length (fold (\<lambda>kw st. roundStep st kw) l st) = length st" for l st
    by (induction l arbitrary: st) (auto simp: length_roundStep)
  then show ?thesis by (simp add: compress_def Let_def)
qed

lemma length_Sum256 [simp]: "length (Sum256 m) = 32"
proof -
  have "length (fold (\<lambda>b hs. compress hs b) l hs) = length hs" for l hs
    by (induction l arbitrary: hs) (auto simp: length_compress)
  moreover have "length (concat (map put32 l)) = 4 * length l" for l
    by (induction l) auto
  ultimately show ?thesis by (simp add: Sum256_def Let_def initialHash_def)
qed

end
