(* ===== verification/Oci_Text.thy ===== *)
theory Oci_Text
  imports Sha256 Http_Text
begin

text \<open>
  The text formats of \<^verbatim>\<open>uefiboard/ministack/oci\<close>: digests (\<^verbatim>\<open>digest.go\<close>), image references (\<^verbatim>\<open>ref.go\<close>), and
  the bearer challenge and token of a registry (\<^verbatim>\<open>registry.go\<close>).
\<close>

text \<open>
  The errors of the package. An error that only wraps another one for its message is the wrapped error.
\<close>

datatype oci_error =
    ErrDigestUnsupported | ErrDigestBadShape | ErrDigestMismatch
  | ErrRefNoRepo
  | ErrIndexNoMatch | ErrManifestEmpty | ErrJSON
  | ErrChallengeMissing | ErrChallengeUnsupported | ErrChallengeMissingRealm | ErrTokenEmpty
  | ErrRegistryStatus string int | ErrTransportNotStreaming | ErrTransport http_error
  | ErrArchRequired | ErrBlobSize nat int | ErrTooManyRedirects
  | ErrBlobBufferTooSmall | ErrBlobBufferOverflow

section \<open>Digests\<close>

definition digestSHA256HexLen :: nat where "digestSHA256HexLen = 64"

definition ParseDigest :: "string \<Rightarrow> oci_error + (string \<times> string)" where
  "ParseDigest s =
     (case IndexByte s (CHR '':'') of
        None \<Rightarrow> Inl ErrDigestBadShape
      | Some i \<Rightarrow>
          let algo = take i s;
              hexStr = drop (i + 1) s in
          if algo \<noteq> ''sha256'' then Inl ErrDigestUnsupported
          else if length hexStr \<noteq> digestSHA256HexLen then Inl ErrDigestBadShape
          else if \<not> hexDecodes hexStr then Inl ErrDigestBadShape
          else Inr (algo, hexStr))"

definition DigestFromBytes :: "bytes \<Rightarrow> string" where
  "DigestFromBytes b = ''sha256:'' @ hexEncode (Sum256 b)"

definition VerifyDigest :: "string \<Rightarrow> bytes \<Rightarrow> oci_error + unit" where
  "VerifyDigest want b =
     (case ParseDigest want of
        Inl e \<Rightarrow> Inl e
      | Inr (_, wantHex) \<Rightarrow>
          if \<not> EqualFold (hexEncode (Sum256 b)) wantHex then Inl ErrDigestMismatch else Inr ())"

section \<open>References\<close>

record Ref =
  rf_Scheme :: string
  rf_Host :: string
  rf_Repo :: string
  rf_Reference :: string

definition splitReference :: "string \<Rightarrow> string \<times> string" where
  "splitReference rest =
     (case LastIndexByte rest (CHR ''@'') of
        Some i \<Rightarrow> (take i rest, drop (i + 1) rest)
      | None \<Rightarrow>
          (case LastIndexByte rest (CHR '':'') of
             Some i \<Rightarrow> (take i rest, drop (i + 1) rest)
           | None \<Rightarrow> (rest, ''latest'')))"

definition ParseRef :: "string \<Rightarrow> oci_error + Ref" where
  "ParseRef s0 =
     (let (scheme0, s) = (case Index s0 ''://'' of
                            None \<Rightarrow> (''https'', s0)
                          | Some i \<Rightarrow> (take i s0, drop (i + 3) s0)) in
      case IndexByte s (CHR ''/'') of
        None \<Rightarrow> Inl ErrRefNoRepo
      | Some slash \<Rightarrow>
          let host = take slash s;
              rest = drop (slash + 1) s;
              scheme = (if (HasPrefix host ''localhost'' \<or> HasPrefix host ''127.0.0.1'') \<and> scheme0 = ''https''
                        then ''http'' else scheme0);
              (repo, ref) = splitReference rest in
          if repo = [] then Inl ErrRefNoRepo
          else Inr \<lparr>rf_Scheme = scheme, rf_Host = host, rf_Repo = repo, rf_Reference = ref\<rparr>)"

definition baseURL :: "Ref \<Rightarrow> string" where
  "baseURL r = rf_Scheme r @ ''://'' @ rf_Host r @ ''/v2/'' @ rf_Repo r"

definition manifestURL :: "Ref \<Rightarrow> string \<Rightarrow> string" where
  "manifestURL r reference = baseURL r @ ''/manifests/'' @ reference"

definition blobURL :: "Ref \<Rightarrow> string \<Rightarrow> string" where
  "blobURL r d = baseURL r @ ''/blobs/'' @ d"

section \<open>The bearer challenge\<close>

text \<open>The scan of \<^verbatim>\<open>splitQuoted\<close>: elements so far, the current element, and whether it is inside quotes.\<close>

primrec splitQuotedLoop :: "string \<Rightarrow> string list \<Rightarrow> string \<Rightarrow> bool \<Rightarrow> string list" where
  "splitQuotedLoop [] out cur inQuote = (if length cur > 0 then out @ [TrimSpace cur] else out)"
| "splitQuotedLoop (ch # s) out cur inQuote =
     (if ch = CHR 0x22 then splitQuotedLoop s out (cur @ [ch]) (\<not> inQuote)
      else if ch = CHR '','' \<and> \<not> inQuote then splitQuotedLoop s (out @ [TrimSpace cur]) [] inQuote
      else splitQuotedLoop s out (cur @ [ch]) inQuote)"

definition splitQuoted :: "string \<Rightarrow> string list" where
  "splitQuoted s = splitQuotedLoop s [] [] False"

text \<open>\<^verbatim>\<open>strings.Trim\<close> with the cutset of quote and blank.\<close>

definition trimQuotes :: "string \<Rightarrow> string" where
  "trimQuotes s =
     (let cut = (\<lambda>c. c = CHR 0x22 \<or> c = CHR '' '')
      in rev (dropWhile cut (rev (dropWhile cut s))))"

definition addParam :: "string \<Rightarrow> (string \<rightharpoonup> string) \<Rightarrow> (string \<rightharpoonup> string)" where
  "addParam p params =
     (case IndexByte p (CHR ''='') of
        None \<Rightarrow> params
      | Some i \<Rightarrow> params(ToLower (TrimSpace (take i p)) \<mapsto> trimQuotes (drop (i + 1) p)))"

definition parseBearerChallenge :: "string \<Rightarrow> oci_error + (string \<rightharpoonup> string)" where
  "parseBearerChallenge chal =
     (if \<not> HasPrefix (ToLower chal) ''bearer '' then Inl ErrChallengeUnsupported
      else Inr (fold addParam (splitQuoted (drop (length ''Bearer '') chal)) Map.empty))"

text \<open>\<^verbatim>\<open>urlEscape\<close> with its upper-case digits.\<close>

definition upperHex :: "nat \<Rightarrow> char" where
  "upperHex d = (if d < 10 then char_of (48 + d) else char_of (55 + d))"

definition unreserved :: "char \<Rightarrow> bool" where
  "unreserved c =
     (let n = of_char c :: nat in
      (65 \<le> n \<and> n \<le> 90) \<or> (97 \<le> n \<and> n \<le> 122) \<or> (48 \<le> n \<and> n \<le> 57) \<or>
      c = CHR ''-'' \<or> c = CHR ''_'' \<or> c = CHR ''.'' \<or> c = CHR ''~'')"

definition urlEscape :: "string \<Rightarrow> string" where
  "urlEscape s =
     concat (map (\<lambda>c. if unreserved c then [c]
                      else [CHR 0x25, upperHex (of_char c div 16), upperHex (of_char c mod 16)]) s)"

definition buildTokenURL :: "string \<Rightarrow> string \<Rightarrow> string \<Rightarrow> string" where
  "buildTokenURL realm service scope =
     (if service = [] \<and> scope = [] then realm
      else realm @ (if Contains realm ''?'' then ''&'' else ''?'') @
           (if service \<noteq> [] then ''service='' @ urlEscape service else []) @
           (if scope \<noteq> [] then (if service \<noteq> [] then ''&'' else []) @ ''scope='' @ urlEscape scope else []))"

definition extractStringField :: "bytes \<Rightarrow> string \<Rightarrow> string" where
  "extractStringField body key =
     (let needle = [CHR 0x22] @ key @ [CHR 0x22] in
      case Index (chars body) needle of
        None \<Rightarrow> []
      | Some i \<Rightarrow>
          let rest = drop (i + length needle) (chars body) in
          (case IndexByte rest (CHR '':'') of
             None \<Rightarrow> []
           | Some colon \<Rightarrow>
               let rest = drop (colon + 1) rest in
               (case IndexByte rest (CHR 0x22) of
                  None \<Rightarrow> []
                | Some openQuote \<Rightarrow>
                    let rest = drop (openQuote + 1) rest in
                    (case IndexByte rest (CHR 0x22) of
                       None \<Rightarrow> []
                     | Some closeQuote \<Rightarrow> take closeQuote rest))))"

definition parseTokenBody :: "bytes \<Rightarrow> string" where
  "parseTokenBody body =
     (if extractStringField body ''token'' \<noteq> [] then extractStringField body ''token''
      else extractStringField body ''access_token'')"

section \<open>Digests read back\<close>

lemma ParseDigest_own: "ParseDigest (DigestFromBytes b) = Inr (''sha256'', hexEncode (Sum256 b))"
  by (simp add: ParseDigest_def DigestFromBytes_def digestSHA256HexLen_def)

lemma VerifyDigest_own: "VerifyDigest (DigestFromBytes b) b = Inr ()"
  by (simp add: VerifyDigest_def ParseDigest_own EqualFold_def)

lemma lower_hex_char: "d < 16 \<Longrightarrow> lower_char (hex_char d) = hex_char d"
proof -
  assume d: "d < 16"
  then have "(of_char (hex_char d) :: nat) = (if d < 10 then 48 + d else 87 + d)"
    by (simp add: hex_char_def of_char_of)
  with d show ?thesis by (simp add: lower_char_def Let_def split: if_splits)
qed

lemma ToLower_hexEncode: "ToLower (hexEncode bs) = hexEncode bs"
proof -
  have "unat b div 16 < 16" for b :: byte
    using unat_byte_less [of b] by (simp add: less_mult_imp_div_less)
  then show ?thesis
    by (induction bs) (auto simp: ToLower_def hexEncode_def lower_hex_char)
qed

text \<open>Hexadecimal text determines its bytes.\<close>

lemma hex_char_inj: "d < 16 \<Longrightarrow> e < 16 \<Longrightarrow> hex_char d = hex_char e \<Longrightarrow> d = e"
  by (metis hex_val_char option.inject)

lemma hexEncode_inj: "hexEncode a = hexEncode b \<Longrightarrow> a = b"
proof (induction a arbitrary: b)
  case Nil
  then show ?case by (cases b) (auto simp: hexEncode_def)
next
  case (Cons x a)
  then obtain y b' where b: "b = y # b'" by (cases b) (auto simp: hexEncode_def)
  have d: "unat z div 16 < 16" "unat z mod 16 < 16" for z :: byte
    using unat_byte_less [of z] by (simp_all add: less_mult_imp_div_less)
  have "unat x div 16 = unat y div 16" "unat x mod 16 = unat y mod 16" "hexEncode a = hexEncode b'"
    using Cons.prems d hex_char_inj by (auto simp: b hexEncode_def)
  then have "unat x = unat y" by (metis div_mult_mod_eq)
  then show ?case using Cons.IH [of b'] \<open>hexEncode a = hexEncode b'\<close> b by (simp add: word_unat_eq_iff)
qed

lemma VerifyDigest_sound: "VerifyDigest (DigestFromBytes a) b = Inr () \<Longrightarrow> Sum256 b = Sum256 a"
  by (auto simp: VerifyDigest_def ParseDigest_own EqualFold_def ToLower_hexEncode split: if_splits
      dest: hexEncode_inj)

section \<open>References read back\<close>

lemma LastIndexByte_last: "c \<notin> set b \<Longrightarrow> LastIndexByte (a @ c # b) c = Some (length a)"
  using IndexByte_append [of c "rev b" "rev a"] by (simp add: LastIndexByte_def)

lemma LastIndexByte_None: "LastIndexByte s c = None \<longleftrightarrow> c \<notin> set s"
  by (simp add: LastIndexByte_def IndexByte_None)

lemma Index_scheme: "CHR '':'' \<notin> set scheme \<Longrightarrow> Index (scheme @ ''://'' @ s) ''://'' = Some (length scheme)"
  using Index_skip [of "CHR '':''" scheme "''://'' @ s" "''//''"] by (simp add: HasPrefix_def)

lemma ParseRef_parts:
  assumes "CHR '':'' \<notin> set scheme" "CHR ''/'' \<notin> set host" "splitReference rest = (repo, ref)" "repo \<noteq> []"
  shows "ParseRef (scheme @ ''://'' @ host @ ''/'' @ rest) = Inr \<lparr>rf_Scheme =
      (if (HasPrefix host ''localhost'' \<or> HasPrefix host ''127.0.0.1'') \<and> scheme = ''https'' then ''http'' else scheme),
      rf_Host = host, rf_Repo = repo, rf_Reference = ref\<rparr>"
  using assms Index_scheme [OF assms(1), of "host @ ''/'' @ rest"] IndexByte_append [OF assms(2), of rest]
  by (simp add: ParseRef_def)

section \<open>Challenges read back\<close>

lemma splitQuotedLoop_plain:
  "\<forall>c \<in> set l. c \<noteq> CHR 0x22 \<and> (c \<noteq> CHR '','' \<or> q) \<Longrightarrow>
   splitQuotedLoop (l @ s) out cur q = splitQuotedLoop s out (cur @ l) q"
  by (induction l arbitrary: cur) auto

definition param_text :: "string \<times> string \<Rightarrow> string" where
  "param_text kv = fst kv @ ''='' @ [CHR 0x22] @ snd kv @ [CHR 0x22]"

text \<open>Keys are lower-case words; values have no quotes and no blank at either end, but may have commas.\<close>

definition param_ok :: "string \<times> string \<Rightarrow> bool" where
  "param_ok kv = (fst kv \<noteq> [] \<and> (\<forall>c \<in> set (fst kv). c \<notin> {CHR 0x22, CHR '','', CHR ''=''} \<and> \<not> is_space c) \<and>
     ToLower (fst kv) = fst kv \<and> CHR 0x22 \<notin> set (snd kv) \<and> snd kv \<noteq> [] \<and> hd (snd kv) \<noteq> CHR '' '' \<and> last (snd kv) \<noteq> CHR '' '')"

lemma splitQuotedLoop_param:
  assumes "param_ok kv"
  shows "splitQuotedLoop (param_text kv @ s) out [] False = splitQuotedLoop s out (param_text kv) False"
proof -
  have k: "\<forall>c \<in> set (fst kv @ ''=''). c \<noteq> CHR 0x22 \<and> (c \<noteq> CHR '','' \<or> False)"
    and v: "\<forall>c \<in> set (snd kv). c \<noteq> CHR 0x22 \<and> (c \<noteq> CHR '','' \<or> True)"
    using assms by (auto simp: param_ok_def)
  show ?thesis
    using splitQuotedLoop_plain [OF k, of "[CHR 0x22] @ snd kv @ [CHR 0x22] @ s" out "[]"]
      splitQuotedLoop_plain [OF v, of "[CHR 0x22] @ s" out "fst kv @ ''='' @ [CHR 0x22]"]
    by (simp add: param_text_def)
qed

lemma TrimSpace_ends:
  assumes "s \<noteq> []" "\<not> is_space (hd s)" "\<not> is_space (last s)"
  shows "TrimSpace s = s"
proof -
  have "dropWhile is_space s = s" using assms(1,2) by (cases s) auto
  moreover have "dropWhile is_space (rev s) = rev s" using assms(1,3) by (cases s rule: rev_cases) auto
  ultimately show ?thesis by (simp add: TrimSpace_def)
qed

lemma param_text_trim: "param_ok kv \<Longrightarrow> TrimSpace (param_text kv) = param_text kv"
proof -
  assume p: "param_ok kv"
  have "\<not> is_space (CHR 0x22)" by (simp add: is_space_def)
  moreover have "hd (param_text kv) = hd (fst kv)" "hd (fst kv) \<in> set (fst kv)"
    using p by (auto simp: param_ok_def param_text_def)
  ultimately show ?thesis
    using p by (intro TrimSpace_ends) (auto simp: param_ok_def param_text_def)
qed

lemma param_text_add: "param_ok kv \<Longrightarrow> addParam (param_text kv) m = m(fst kv \<mapsto> snd kv)"
proof -
  assume p: "param_ok kv"
  let ?cut = "\<lambda>c. c = CHR 0x22 \<or> c = CHR '' ''"
  have "IndexByte (param_text kv) (CHR ''='') = Some (length (fst kv))"
    using p IndexByte_append [of "CHR ''=''" "fst kv"] by (auto simp: param_ok_def param_text_def)
  moreover have "TrimSpace (fst kv) = fst kv"
    using p by (intro TrimSpace_no_space) (auto simp: param_ok_def)
  moreover have "dropWhile ?cut (snd kv @ [CHR 0x22]) = snd kv @ [CHR 0x22]"
    using p by (cases "snd kv") (auto simp: param_ok_def)
  moreover have "dropWhile ?cut (rev (snd kv)) = rev (snd kv)"
    using p by (cases "snd kv" rule: rev_cases) (auto simp: param_ok_def)
  ultimately have "trimQuotes ([CHR 0x22] @ snd kv @ [CHR 0x22]) = snd kv"
      "IndexByte (param_text kv) (CHR ''='') = Some (length (fst kv))" "TrimSpace (fst kv) = fst kv"
    by (simp_all add: trimQuotes_def Let_def)
  then show ?thesis
    using p by (simp add: addParam_def param_text_def param_ok_def)
qed

text \<open>The parameters of a challenge, separated by commas.\<close>

definition challenge_text :: "(string \<times> string) list \<Rightarrow> string" where
  "challenge_text kvs = ''Bearer '' @ Join (map param_text kvs) (CHR '','')"

lemma splitQuotedLoop_params:
  assumes "kvs \<noteq> []" "\<forall>kv \<in> set kvs. param_ok kv"
  shows "splitQuotedLoop (Join (map param_text kvs) (CHR '','')) out [] False = out @ map param_text kvs"
  using assms
proof (induction kvs arbitrary: out)
  case (Cons kv kvs)
  then have p: "param_ok kv" by simp
  have n: "param_text kv \<noteq> []" by (simp add: param_text_def)
  show ?case
  proof (cases "kvs = []")
    case True
    then show ?thesis
      using splitQuotedLoop_param [OF p, of "[]" out] n param_text_trim [OF p] by simp
  next
    case False
    then show ?thesis
      using splitQuotedLoop_param [OF p, of "CHR '','' # Join (map param_text kvs) (CHR '','')" out]
        param_text_trim [OF p] Cons by (simp add: Join_Cons)
  qed
qed simp

lemma fold_addParam: "\<forall>kv \<in> set kvs. param_ok kv \<Longrightarrow> fold addParam (map param_text kvs) m = m ++ map_of (rev kvs)"
proof (induction kvs arbitrary: m)
  case (Cons kv kvs)
  have "m(fst kv \<mapsto> snd kv) = m ++ map_of [kv]" by (cases kv) (simp add: fun_eq_iff)
  then show ?case using Cons by (simp add: param_text_add del: map_add_upd)
qed simp

section \<open>Properties\<close>

text \<open>
  A reference with a scheme is taken apart into host, repository and digest or tag. For a host that
  begins with \<^verbatim>\<open>localhost\<close> or \<^verbatim>\<open>127.0.0.1\<close> the scheme becomes http even when https was asked for.
\<close>

lemma oci_ref_parts:
  assumes "CHR '':'' \<notin> set scheme" "CHR ''/'' \<notin> set host" "repo \<noteq> []" "CHR ''@'' \<notin> set (repo @ tag)" "CHR '':'' \<notin> set tag"
    and "CHR ''@'' \<notin> set dig"
    and "scheme' = (if (HasPrefix host ''localhost'' \<or> HasPrefix host ''127.0.0.1'') \<and> scheme = ''https'' then ''http'' else scheme)"
  shows "ParseRef (scheme @ ''://'' @ host @ ''/'' @ repo @ '':'' @ tag) =
      Inr \<lparr>rf_Scheme = scheme', rf_Host = host, rf_Repo = repo, rf_Reference = tag\<rparr> \<and>
    ParseRef (scheme @ ''://'' @ host @ ''/'' @ repo @ ''@'' @ dig) =
      Inr \<lparr>rf_Scheme = scheme', rf_Host = host, rf_Repo = repo, rf_Reference = dig\<rparr>"
proof
  have "splitReference (repo @ '':'' @ tag) = (repo, tag)"
    using assms(4,5) LastIndexByte_last [of "CHR '':''" tag repo]
    by (simp add: splitReference_def LastIndexByte_None [THEN iffD2])
  then show "ParseRef (scheme @ ''://'' @ host @ ''/'' @ repo @ '':'' @ tag) =
      Inr \<lparr>rf_Scheme = scheme', rf_Host = host, rf_Repo = repo, rf_Reference = tag\<rparr>"
    unfolding assms(7) by (rule ParseRef_parts [OF assms(1,2) _ assms(3)])
  have "splitReference (repo @ ''@'' @ dig) = (repo, dig)"
    using LastIndexByte_last [OF assms(6), of repo] by (simp add: splitReference_def)
  then show "ParseRef (scheme @ ''://'' @ host @ ''/'' @ repo @ ''@'' @ dig) =
      Inr \<lparr>rf_Scheme = scheme', rf_Host = host, rf_Repo = repo, rf_Reference = dig\<rparr>"
    unfolding assms(7) by (rule ParseRef_parts [OF assms(1,2) _ assms(3)])
qed

text \<open>
  A bearer challenge is read back: every parameter has its value, commas inside quotes included, the later
  of two parameters of one name winning.
\<close>

lemma oci_challenge_roundtrip:
  assumes "kvs \<noteq> []" "\<forall>kv \<in> set kvs. param_ok kv"
  shows "parseBearerChallenge (challenge_text kvs) = Inr (map_of (rev kvs))"
proof -
  have "HasPrefix (ToLower (challenge_text kvs)) ''bearer ''"
    by (simp add: challenge_text_def HasPrefix_def ToLower_def) code_simp
  then show ?thesis
    using splitQuotedLoop_params [OF assms, of "[]"] fold_addParam [OF assms(2), of Map.empty]
    by (simp add: parseBearerChallenge_def challenge_text_def splitQuoted_def)
qed

end
