(* ===== verification/Oci_Fetch.thy ===== *)
theory Oci_Fetch
  imports Oci_Text Http_Client Http_Stream
begin

text \<open>
  The registry client of \<^verbatim>\<open>uefiboard/ministack/oci\<close> (\<^verbatim>\<open>registry.go\<close>, \<^verbatim>\<open>manifest.go\<close>, \<^verbatim>\<open>fetch.go\<close>). The interface
  \<^verbatim>\<open>Transport\<close> is a function on a state of its own, an argument of every operation; the operations and
  what is proved of them hold for any transport, an adversarial one included. The decoders of
  \<^verbatim>\<open>encoding/json\<close> are arguments in the same way.
\<close>

type_synonym 'w transport = "string \<Rightarrow> HTTPGetOptions \<Rightarrow> 'w \<Rightarrow> (http_error + HTTPResponse) \<times> 'w"

section \<open>Manifests\<close>

record Platform =
  pf_Architecture :: string
  pf_OS :: string
  pf_Variant :: string

record Descriptor =
  de_MediaType :: string
  de_Digest :: string
  de_Size :: int
  de_Platform :: "Platform option"

record ImageIndex =
  ix_SchemaVersion :: int
  ix_MediaType :: string
  ix_Manifests :: "Descriptor list"

record Manifest =
  mf_SchemaVersion :: int
  mf_MediaType :: string
  mf_Config :: Descriptor
  mf_Layers :: "Descriptor list"

definition MediaTypeOCIIndex :: string where "MediaTypeOCIIndex = ''application/vnd.oci.image.index.v1+json''"
definition MediaTypeOCIManifest :: string where "MediaTypeOCIManifest = ''application/vnd.oci.image.manifest.v1+json''"
definition MediaTypeDockerIndex :: string where
  "MediaTypeDockerIndex = ''application/vnd.docker.distribution.manifest.list.v2+json''"
definition MediaTypeDockerManifest :: string where
  "MediaTypeDockerManifest = ''application/vnd.docker.distribution.manifest.v2+json''"

definition ManifestAcceptHeader :: string where
  "ManifestAcceptHeader = MediaTypeOCIIndex @ '', '' @ MediaTypeDockerIndex @ '', '' @ MediaTypeOCIManifest @ '', '' @
     MediaTypeDockerManifest"

text \<open>
  What \<^verbatim>\<open>json.Unmarshal\<close> makes of a body for the three types it is called on; \<open>None\<close> is its error.
\<close>

record decoders =
  js_index :: "bytes \<Rightarrow> ImageIndex option"
  js_manifest :: "bytes \<Rightarrow> Manifest option"
  js_probe :: "bytes \<Rightarrow> (string \<times> Descriptor list) option"

definition ParseIndex :: "decoders \<Rightarrow> bytes \<Rightarrow> oci_error + ImageIndex" where
  "ParseIndex js raw =
     (if length raw = 0 then Inl ErrManifestEmpty
      else case js_index js raw of None \<Rightarrow> Inl ErrJSON | Some idx \<Rightarrow> Inr idx)"

definition ParseManifest :: "decoders \<Rightarrow> bytes \<Rightarrow> oci_error + Manifest" where
  "ParseManifest js raw =
     (if length raw = 0 then Inl ErrManifestEmpty
      else case js_manifest js raw of None \<Rightarrow> Inl ErrJSON | Some m \<Rightarrow> Inr m)"

definition IsIndex :: "decoders \<Rightarrow> bytes \<Rightarrow> string \<Rightarrow> bool" where
  "IsIndex js raw contentType =
     (if contentType = MediaTypeOCIIndex \<or> contentType = MediaTypeDockerIndex then True
      else case js_probe js raw of
        None \<Rightarrow> False
      | Some (mediaType, manifests) \<Rightarrow>
          if mediaType = MediaTypeOCIIndex \<or> mediaType = MediaTypeDockerIndex then True
          else length manifests > 0)"

definition PickPlatform :: "ImageIndex \<Rightarrow> string \<Rightarrow> string \<Rightarrow> oci_error + Descriptor" where
  "PickPlatform idx osName arch =
     (case find (\<lambda>m. case de_Platform m of
                       None \<Rightarrow> False
                     | Some p \<Rightarrow> pf_OS p = osName \<and> pf_Architecture p = arch) (ix_Manifests idx) of
        None \<Rightarrow> Inl ErrIndexNoMatch
      | Some m \<Rightarrow> Inr m)"

section \<open>The registry\<close>

record Registry =
  rg_DNS :: "ip option"
  rg_Ref :: Ref
  rg_DialTimeout :: int
  rg_RequestTimeout :: int
  rg_bearer :: string

definition NewRegistry :: "ip option \<Rightarrow> Ref \<Rightarrow> Registry" where
  "NewRegistry dns ref =
     \<lparr>rg_DNS = dns, rg_Ref = ref, rg_DialTimeout = 0, rg_RequestTimeout = 0, rg_bearer = []\<rparr>"

definition requestOpts :: "Registry \<Rightarrow> string \<Rightarrow> string \<Rightarrow> HTTPGetOptions" where
  "requestOpts r accept bearer =
     \<lparr>ho_DNSServer = rg_DNS r, ho_DialTimeout = rg_DialTimeout r, ho_RequestTimeout = rg_RequestTimeout r,
      ho_ExtraHeaders = (if accept \<noteq> [] then [''Accept: '' @ accept] else []) @
                        (if bearer \<noteq> [] then [''Authorization: Bearer '' @ bearer] else [])\<rparr>"

definition httpGet ::
  "'w transport \<Rightarrow> Registry \<Rightarrow> string \<Rightarrow> string \<Rightarrow> string \<Rightarrow> 'w \<Rightarrow> (http_error + HTTPResponse) \<times> 'w" where
  "httpGet get r url accept bearer w = get url (requestOpts r accept bearer) w"

text \<open>A missing map entry reads as the empty string.\<close>

definition header :: "(string \<rightharpoonup> string) \<Rightarrow> string \<Rightarrow> string" where
  "header m k = (case m k of None \<Rightarrow> [] | Some v \<Rightarrow> v)"

definition Authenticate :: "'w transport \<Rightarrow> Registry \<Rightarrow> 'w \<Rightarrow> (oci_error + Registry) \<times> 'w" where
  "Authenticate get r w =
     (let probeURL = manifestURL (rg_Ref r) (rf_Reference (rg_Ref r)) in
      case httpGet get r probeURL ManifestAcceptHeader [] w of
        (Inl e, w1) \<Rightarrow> (Inl (ErrTransport e), w1)
      | (Inr resp, w1) \<Rightarrow>
          if hr_StatusCode resp = 200 then (Inr (r\<lparr>rg_bearer := []\<rparr>), w1)
          else if hr_StatusCode resp \<noteq> 401 then (Inl (ErrRegistryStatus probeURL (hr_StatusCode resp)), w1)
          else let chal = header (hr_Headers resp) ''www-authenticate'' in
            if chal = [] then (Inl ErrChallengeMissing, w1)
            else case parseBearerChallenge chal of
              Inl e \<Rightarrow> (Inl e, w1)
            | Inr params \<Rightarrow>
                let realm = header params ''realm'' in
                if realm = [] then (Inl ErrChallengeMissingRealm, w1)
                else let tokenURL = buildTokenURL realm (header params ''service'') (header params ''scope'') in
                  (case httpGet get r tokenURL [] [] w1 of
                     (Inl e, w2) \<Rightarrow> (Inl (ErrTransport e), w2)
                   | (Inr tokResp, w2) \<Rightarrow>
                       if hr_StatusCode tokResp \<noteq> 200
                       then (Inl (ErrRegistryStatus tokenURL (hr_StatusCode tokResp)), w2)
                       else let tok = parseTokenBody (hr_Body tokResp) in
                         if tok = [] then (Inl ErrTokenEmpty, w2)
                         else (Inr (r\<lparr>rg_bearer := tok\<rparr>), w2)))"

definition FetchManifestRaw ::
  "'w transport \<Rightarrow> Registry \<Rightarrow> string \<Rightarrow> 'w \<Rightarrow> (oci_error + bytes \<times> string) \<times> 'w" where
  "FetchManifestRaw get r reference w =
     (let url = manifestURL (rg_Ref r) reference in
      case httpGet get r url ManifestAcceptHeader (rg_bearer r) w of
        (Inl e, w1) \<Rightarrow> (Inl (ErrTransport e), w1)
      | (Inr resp, w1) \<Rightarrow>
          if hr_StatusCode resp \<noteq> 200 then (Inl (ErrRegistryStatus url (hr_StatusCode resp)), w1)
          else (Inr (hr_Body resp, header (hr_Headers resp) ''content-type''), w1))"

definition maxBlobRedirects :: nat where "maxBlobRedirects = 2"

definition isRedirect :: "int \<Rightarrow> bool" where
  "isRedirect status = (status \<in> {301, 302, 303, 307, 308})"

text \<open>What the loop of \<^verbatim>\<open>FetchBlob\<close> does with a 200 response.\<close>

definition acceptBlob :: "Descriptor \<Rightarrow> bytes \<Rightarrow> oci_error + bytes" where
  "acceptBlob desc body =
     (case VerifyDigest (de_Digest desc) body of
        Inl e \<Rightarrow> Inl e
      | Inr _ \<Rightarrow>
          if de_Size desc > 0 \<and> int (length body) \<noteq> de_Size desc then Inl (ErrBlobSize (length body) (de_Size desc))
          else Inr body)"

primrec fetchBlobLoop ::
  "nat \<Rightarrow> 'w transport \<Rightarrow> Registry \<Rightarrow> Descriptor \<Rightarrow> string \<Rightarrow> string \<Rightarrow> 'w \<Rightarrow> (oci_error + bytes) \<times> 'w" where
  "fetchBlobLoop 0 get r desc url bearer w = (Inl ErrTooManyRedirects, w)"
| "fetchBlobLoop (Suc n) get r desc url bearer w =
     (case httpGet get r url [] bearer w of
        (Inl e, w1) \<Rightarrow> (Inl (ErrTransport e), w1)
      | (Inr resp, w1) \<Rightarrow>
          if isRedirect (hr_StatusCode resp) then
            let loc = header (hr_Headers resp) ''location'' in
            if loc = [] then (Inl (ErrRegistryStatus url (hr_StatusCode resp)), w1)
            else fetchBlobLoop n get r desc loc [] w1
          else if hr_StatusCode resp \<noteq> 200 then (Inl (ErrRegistryStatus url (hr_StatusCode resp)), w1)
          else (acceptBlob desc (hr_Body resp), w1))"

definition FetchBlob :: "'w transport \<Rightarrow> Registry \<Rightarrow> Descriptor \<Rightarrow> 'w \<Rightarrow> (oci_error + bytes) \<times> 'w" where
  "FetchBlob get r desc w =
     fetchBlobLoop (maxBlobRedirects + 1) get r desc (blobURL (rg_Ref r) (de_Digest desc)) (rg_bearer r) w"

section \<open>Whole artifacts\<close>

record Artifact =
  ar_Reference :: string
  ar_ManifestRaw :: bytes
  ar_ManifestDigest :: string
  ar_IndexRaw :: "bytes option"
  ar_IndexDigest :: string
  ar_Manifest :: Manifest
  ar_ConfigBlob :: "bytes option"
  ar_LayerBlobs :: "bytes option list"

record FetchOptions =
  fo_OS :: string
  fo_Arch :: string
  fo_LayerFilter :: "(Descriptor \<Rightarrow> bool) option"
  fo_SkipConfig :: bool

text \<open>The image manifest behind a reference: the reference, the manifest bytes and the index bytes if any.\<close>

definition resolveManifest ::
  "'w transport \<Rightarrow> decoders \<Rightarrow> Registry \<Rightarrow> string \<Rightarrow> string \<Rightarrow> 'w \<Rightarrow>
   (oci_error + string \<times> bytes \<times> bytes option) \<times> 'w" where
  "resolveManifest get js r osName arch w =
     (case FetchManifestRaw get r (rf_Reference (rg_Ref r)) w of
        (Inl e, w1) \<Rightarrow> (Inl e, w1)
      | (Inr (raw, contentType), w1) \<Rightarrow>
          if IsIndex js raw contentType then
            (case ParseIndex js raw of
               Inl e \<Rightarrow> (Inl e, w1)
             | Inr idx \<Rightarrow>
                 (case PickPlatform idx osName arch of
                    Inl e \<Rightarrow> (Inl e, w1)
                  | Inr picked \<Rightarrow>
                      (case FetchManifestRaw get r (de_Digest picked) w1 of
                         (Inl e, w2) \<Rightarrow> (Inl e, w2)
                       | (Inr (mraw, _), w2) \<Rightarrow>
                           (case VerifyDigest (de_Digest picked) mraw of
                              Inl e \<Rightarrow> (Inl e, w2)
                            | Inr _ \<Rightarrow> (Inr (de_Digest picked, mraw, Some raw), w2)))))
          else (Inr (rf_Reference (rg_Ref r), raw, None), w1))"

primrec fetchLayers ::
  "'w transport \<Rightarrow> Registry \<Rightarrow> (Descriptor \<Rightarrow> bool) option \<Rightarrow> Descriptor list \<Rightarrow> 'w \<Rightarrow>
   (oci_error + bytes option list) \<times> 'w" where
  "fetchLayers get r flt [] w = (Inr [], w)"
| "fetchLayers get r flt (l # ls) w =
     (if (case flt of None \<Rightarrow> False | Some f \<Rightarrow> \<not> f l) then
        (case fetchLayers get r flt ls w of
           (Inl e, w') \<Rightarrow> (Inl e, w')
         | (Inr bs, w') \<Rightarrow> (Inr (None # bs), w'))
      else case FetchBlob get r l w of
        (Inl e, w1) \<Rightarrow> (Inl e, w1)
      | (Inr b, w1) \<Rightarrow>
          (case fetchLayers get r flt ls w1 of
             (Inl e, w') \<Rightarrow> (Inl e, w')
           | (Inr bs, w') \<Rightarrow> (Inr (Some b # bs), w')))"

definition fetchConfig ::
  "'w transport \<Rightarrow> Registry \<Rightarrow> bool \<Rightarrow> Descriptor \<Rightarrow> 'w \<Rightarrow> (oci_error + bytes option) \<times> 'w" where
  "fetchConfig get r skip desc w =
     (if skip then (Inr None, w)
      else case FetchBlob get r desc w of
        (Inl e, w') \<Rightarrow> (Inl e, w')
      | (Inr b, w') \<Rightarrow> (Inr (Some b), w'))"

definition FetchArtifact ::
  "'w transport \<Rightarrow> decoders \<Rightarrow> Registry \<Rightarrow> FetchOptions \<Rightarrow> 'w \<Rightarrow> (oci_error + Artifact) \<times> 'w" where
  "FetchArtifact get js r0 opts w =
     (let osName = (if fo_OS opts = [] then ''linux'' else fo_OS opts) in
      if fo_Arch opts = [] then (Inl ErrArchRequired, w)
      else case Authenticate get r0 w of
        (Inl e, w1) \<Rightarrow> (Inl e, w1)
      | (Inr r, w1) \<Rightarrow>
          (case resolveManifest get js r osName (fo_Arch opts) w1 of
             (Inl e, w2) \<Rightarrow> (Inl e, w2)
           | (Inr (ref, raw, idx), w2) \<Rightarrow>
               (case ParseManifest js raw of
                  Inl e \<Rightarrow> (Inl e, w2)
                | Inr m \<Rightarrow>
                    (case fetchConfig get r (fo_SkipConfig opts) (mf_Config m) w2 of
                       (Inl e, w3) \<Rightarrow> (Inl e, w3)
                     | (Inr cfg, w3) \<Rightarrow>
                         (case fetchLayers get r (fo_LayerFilter opts) (mf_Layers m) w3 of
                            (Inl e, w4) \<Rightarrow> (Inl e, w4)
                          | (Inr layers, w4) \<Rightarrow>
                              (Inr \<lparr>ar_Reference = ref, ar_ManifestRaw = raw, ar_ManifestDigest = DigestFromBytes raw,
                                   ar_IndexRaw = idx,
                                   ar_IndexDigest = (case idx of None \<Rightarrow> [] | Some i \<Rightarrow> DigestFromBytes i),
                                   ar_Manifest = m, ar_ConfigBlob = cfg, ar_LayerBlobs = layers\<rparr>, w4))))))"

section \<open>Streaming into a buffer or a writer\<close>

text \<open>
  The interface \<^verbatim>\<open>StreamTransport\<close>: the blocks it writes to the given writer, then status, headers and
  error. It stops at the first write that fails and returns that error.
\<close>

type_synonym 'w streamTransport =
  "string \<Rightarrow> HTTPGetOptions \<Rightarrow> 'w \<Rightarrow> (bytes list \<times> int \<times> (string \<rightharpoonup> string) \<times> http_error option) \<times> 'w"

record fixedSliceWriter =
  fw_buf :: bytes
  fw_off :: nat

definition fixedWrite :: "bytes \<Rightarrow> fixedSliceWriter \<Rightarrow> nat \<times> oci_error option \<times> fixedSliceWriter" where
  "fixedWrite p w =
     (if fw_off w \<ge> length (fw_buf w) then
        (if length p = 0 then (0, None, w) else (0, Some ErrBlobBufferOverflow, w))
      else
        let n = min (length (fw_buf w) - fw_off w) (length p);
            w' = w\<lparr>fw_buf := take (fw_off w) (fw_buf w) @ take n p @ drop (fw_off w + n) (fw_buf w),
                   fw_off := fw_off w + n\<rparr> in
        if n < length p then (n, Some ErrBlobBufferOverflow, w') else (n, None, w'))"

text \<open>
  Writing blocks through \<^verbatim>\<open>io.MultiWriter\<close> to a writer and the hash: the count, the error, the writer and the
  bytes hashed. The hash sees a block only when the writer has taken all of it.
\<close>

primrec teeWrites ::
  "(bytes \<Rightarrow> 's \<Rightarrow> nat \<times> oci_error option \<times> 's) \<Rightarrow> bytes list \<Rightarrow> nat \<Rightarrow> 's \<Rightarrow> bytes \<Rightarrow>
   nat \<times> oci_error option \<times> 's \<times> bytes" where
  "teeWrites wr [] n s h = (n, None, s, h)"
| "teeWrites wr (b # bs) n s h =
     (case wr b s of
        (k, Some e, s') \<Rightarrow> (n + k, Some e, s', h)
      | (k, None, s') \<Rightarrow> teeWrites wr bs (n + k) s' (h @ b))"

text \<open>The checks at the end of a 200 response, on the count and the hashed bytes.\<close>

definition checkStream :: "Descriptor \<Rightarrow> nat \<Rightarrow> bytes \<Rightarrow> oci_error option" where
  "checkStream desc n hashed =
     (if de_Size desc > 0 \<and> int n \<noteq> de_Size desc then Some (ErrBlobSize n (de_Size desc))
      else case ParseDigest (de_Digest desc) of
        Inl e \<Rightarrow> Some e
      | Inr (_, wantHex) \<Rightarrow> if \<not> EqualFold (hexEncode (Sum256 hashed)) wantHex then Some ErrDigestMismatch else None)"

primrec bufferLoop ::
  "nat \<Rightarrow> 'w streamTransport \<Rightarrow> Registry \<Rightarrow> Descriptor \<Rightarrow> string \<Rightarrow> string \<Rightarrow> bytes \<Rightarrow> 'w \<Rightarrow>
   (nat \<times> oci_error option) \<times> bytes \<times> 'w" where
  "bufferLoop 0 st r desc url bearer dst w = ((0, Some ErrTooManyRedirects), dst, w)"
| "bufferLoop (Suc k) st r desc url bearer dst w =
     (let ((blocks, status, headers, terr), w1) = st url (requestOpts r [] bearer) w;
          (n, werr, fw, hashed) = teeWrites fixedWrite blocks 0 \<lparr>fw_buf = dst, fw_off = 0\<rparr> [];
          dst1 = fw_buf fw in
      case werr of
        Some e \<Rightarrow> ((n, Some e), dst1, w1)
      | None \<Rightarrow>
          (case terr of
             Some e \<Rightarrow> ((n, Some (ErrTransport e)), dst1, w1)
           | None \<Rightarrow>
               if isRedirect status then
                 (let loc = header headers ''location'' in
                  if loc = [] then ((0, Some (ErrRegistryStatus url status)), dst1, w1)
                  else bufferLoop k st r desc loc [] dst1 w1)
               else if status \<noteq> 200 then ((n, Some (ErrRegistryStatus url status)), dst1, w1)
               else ((n, checkStream desc n hashed), dst1, w1)))"

definition FetchBlobToBuffer ::
  "'w streamTransport option \<Rightarrow> Registry \<Rightarrow> Descriptor \<Rightarrow> bytes \<Rightarrow> 'w \<Rightarrow> (nat \<times> oci_error option) \<times> bytes \<times> 'w" where
  "FetchBlobToBuffer st r desc dst w =
     (case ParseDigest (de_Digest desc) of
        Inl e \<Rightarrow> ((0, Some e), dst, w)
      | Inr _ \<Rightarrow>
          if de_Size desc > 0 \<and> int (length dst) < de_Size desc then ((0, Some ErrBlobBufferTooSmall), dst, w)
          else case st of
            None \<Rightarrow> ((0, Some ErrTransportNotStreaming), dst, w)
          | Some f \<Rightarrow>
              bufferLoop (maxBlobRedirects + 1) f r desc (blobURL (rg_Ref r) (de_Digest desc)) (rg_bearer r) dst w)"

text \<open>\<^verbatim>\<open>FetchBlobStream\<close> writes to the caller's writer, which keeps what earlier hops have written.\<close>

definition streamWrite :: "bytes \<Rightarrow> sink \<Rightarrow> nat \<times> oci_error option \<times> sink" where
  "streamWrite b sk = (case sinkWrite b sk of (n, e, sk') \<Rightarrow> (n, map_option ErrTransport e, sk'))"

primrec streamLoop ::
  "nat \<Rightarrow> 'w streamTransport \<Rightarrow> Registry \<Rightarrow> Descriptor \<Rightarrow> string \<Rightarrow> string \<Rightarrow> sink \<Rightarrow> 'w \<Rightarrow>
   (nat \<times> oci_error option) \<times> sink \<times> 'w" where
  "streamLoop 0 st r desc url bearer dst w = ((0, Some ErrTooManyRedirects), dst, w)"
| "streamLoop (Suc k) st r desc url bearer dst w =
     (let ((blocks, status, headers, terr), w1) = st url (requestOpts r [] bearer) w;
          (n, werr, dst1, hashed) = teeWrites streamWrite blocks 0 dst [] in
      case werr of
        Some e \<Rightarrow> ((n, Some e), dst1, w1)
      | None \<Rightarrow>
          (case terr of
             Some e \<Rightarrow> ((n, Some (ErrTransport e)), dst1, w1)
           | None \<Rightarrow>
               if isRedirect status then
                 (let loc = header headers ''location'' in
                  if loc = [] then ((0, Some (ErrRegistryStatus url status)), dst1, w1)
                  else streamLoop k st r desc loc [] dst1 w1)
               else if status \<noteq> 200 then ((n, Some (ErrRegistryStatus url status)), dst1, w1)
               else ((n, checkStream desc n hashed), dst1, w1)))"

definition FetchBlobStream ::
  "'w streamTransport option \<Rightarrow> Registry \<Rightarrow> Descriptor \<Rightarrow> sink \<Rightarrow> 'w \<Rightarrow> (nat \<times> oci_error option) \<times> sink \<times> 'w" where
  "FetchBlobStream st r desc dst w =
     (case ParseDigest (de_Digest desc) of
        Inl e \<Rightarrow> ((0, Some e), dst, w)
      | Inr _ \<Rightarrow>
          (case st of
             None \<Rightarrow> ((0, Some ErrTransportNotStreaming), dst, w)
           | Some f \<Rightarrow>
               streamLoop (maxBlobRedirects + 1) f r desc (blobURL (rg_Ref r) (de_Digest desc)) (rg_bearer r) dst w))"

section \<open>Integrity\<close>

lemma acceptBlob_ok:
  "acceptBlob desc b = Inr x \<Longrightarrow> x = b \<and> VerifyDigest (de_Digest desc) b = Inr () \<and> (0 < de_Size desc \<longrightarrow> int (length b) = de_Size desc)"
  by (auto simp: acceptBlob_def split: sum.splits if_splits)

lemma fetchBlobLoop_ok:
  "fetchBlobLoop n get r desc url bearer w = (Inr b, w') \<Longrightarrow>
   VerifyDigest (de_Digest desc) b = Inr () \<and> (0 < de_Size desc \<longrightarrow> int (length b) = de_Size desc)"
  by (induction n arbitrary: url bearer w)
    (auto simp: Let_def dest: acceptBlob_ok split: prod.splits sum.splits if_splits)

lemma FetchBlob_ok:
  "FetchBlob get r desc w = (Inr b, w') \<Longrightarrow>
   VerifyDigest (de_Digest desc) b = Inr () \<and> (0 < de_Size desc \<longrightarrow> int (length b) = de_Size desc)"
  unfolding FetchBlob_def by (rule fetchBlobLoop_ok)

text \<open>What a fetched layer or config is: skipped with leave, or the blob its descriptor names.\<close>

definition layer_ok :: "(Descriptor \<Rightarrow> bool) option \<Rightarrow> Descriptor \<Rightarrow> bytes option \<Rightarrow> bool" where
  "layer_ok flt l b =
     (case b of
        None \<Rightarrow> (\<exists>f. flt = Some f \<and> \<not> f l)
      | Some x \<Rightarrow> VerifyDigest (de_Digest l) x = Inr () \<and> (0 < de_Size l \<longrightarrow> int (length x) = de_Size l))"

lemma fetchLayers_ok:
  "fetchLayers get r flt ls w = (Inr bs, w') \<Longrightarrow> list_all2 (layer_ok flt) ls bs"
  by (induction ls arbitrary: w bs)
    (auto simp: layer_ok_def dest: FetchBlob_ok split: prod.splits sum.splits if_splits option.splits)

lemma fetchConfig_ok:
  "fetchConfig get r skip d w = (Inr b, w') \<Longrightarrow>
   (case b of None \<Rightarrow> skip | Some x \<Rightarrow> layer_ok None d (Some x))"
  by (auto simp: fetchConfig_def layer_ok_def dest: FetchBlob_ok split: prod.splits sum.splits if_splits)

lemma resolveManifest_ok:
  "resolveManifest get js r osName arch w = (Inr (ref, raw, idx), w') \<Longrightarrow>
   (case idx of
      None \<Rightarrow> True
    | Some iraw \<Rightarrow> VerifyDigest ref raw = Inr () \<and>
        (\<exists>ix d. ParseIndex js iraw = Inr ix \<and> PickPlatform ix osName arch = Inr d \<and> ref = de_Digest d))"
  by (auto simp: resolveManifest_def split: prod.splits sum.splits if_splits)

text \<open>A fixed buffer that takes every block holds their concatenation.\<close>

lemma fixedWrite_ok:
  assumes "fixedWrite p w = (k, None, w')" "fw_off w \<le> length (fw_buf w)"
  shows "k = length p \<and> fw_off w' = fw_off w + length p \<and> fw_off w' \<le> length (fw_buf w) \<and>
    fw_buf w' = take (fw_off w) (fw_buf w) @ p @ drop (fw_off w') (fw_buf w)"
  using assms by (auto simp: fixedWrite_def Let_def min_def split: if_splits)

lemma teeWrites_fixed:
  assumes "teeWrites fixedWrite bs n w h = (n', None, w', h')" "fw_off w \<le> length (fw_buf w)"
  shows "n' = n + length (concat bs) \<and> h' = h @ concat bs \<and> fw_off w' = fw_off w + length (concat bs) \<and>
    fw_off w' \<le> length (fw_buf w) \<and> length (fw_buf w') = length (fw_buf w) \<and>
    fw_buf w' = take (fw_off w) (fw_buf w) @ concat bs @ drop (fw_off w') (fw_buf w)"
  using assms
proof (induction bs arbitrary: n w h)
  case (Cons b bs)
  then obtain k w1 where b: "fixedWrite b w = (k, None, w1)" "teeWrites fixedWrite bs (n + k) w1 (h @ b) = (n', None, w', h')"
    by (auto split: prod.splits option.splits)
  note f = fixedWrite_ok [OF b(1) Cons.prems(2)]
  have "length (fw_buf w1) = length (fw_buf w)" "fw_off w1 \<le> length (fw_buf w1)"
    using f Cons.prems(2) by auto
  with Cons.IH [OF b(2)] f show ?case by (auto simp: ac_simps)
qed simp

lemma teeWrites_fixed_length:
  "teeWrites fixedWrite bs n w h = (n', e, w', h') \<Longrightarrow> fw_off w \<le> length (fw_buf w) \<Longrightarrow> length (fw_buf w') = length (fw_buf w)"
proof (induction bs arbitrary: n w h)
  case (Cons b bs)
  obtain k eb w1 where b: "fixedWrite b w = (k, eb, w1)" by (metis prod_cases3)
  then have "length (fw_buf w1) = length (fw_buf w)" "fw_off w1 \<le> length (fw_buf w1)"
    using Cons.prems(2) by (auto simp: fixedWrite_def Let_def split: if_splits)
  with Cons b show ?case by (cases eb) auto
qed simp

lemma checkStream_ok:
  "checkStream desc n h = None \<Longrightarrow> VerifyDigest (de_Digest desc) h = Inr () \<and> (0 < de_Size desc \<longrightarrow> int n = de_Size desc)"
  by (auto simp: checkStream_def VerifyDigest_def split: if_splits sum.splits)

lemma bufferLoop_ok:
  "bufferLoop k st r desc url bearer dst w = ((n, None), dst', w') \<Longrightarrow>
   length dst' = length dst \<and> n \<le> length dst \<and> VerifyDigest (de_Digest desc) (take n dst') = Inr () \<and>
   (0 < de_Size desc \<longrightarrow> int n = de_Size desc)"
proof (induction k arbitrary: url bearer dst w)
  case (Suc k)
  obtain blocks status headers terr w1 where t: "st url (requestOpts r [] bearer) w = ((blocks, status, headers, terr), w1)"
    by (metis prod.exhaust)
  obtain m werr fw hashed where f: "teeWrites fixedWrite blocks 0 \<lparr>fw_buf = dst, fw_off = 0\<rparr> [] = (m, werr, fw, hashed)"
    by (metis prod.exhaust)
  have w: "werr = None" "terr = None"
    using Suc.prems t f by (auto simp: Let_def split: option.splits)
  have g: "m = length (concat blocks)" "hashed = concat blocks" "m \<le> length dst" "fw_buf fw = concat blocks @ drop m dst"
    using teeWrites_fixed [OF f [unfolded w]] by auto
  have l: "length (fw_buf fw) = length dst"
    using teeWrites_fixed_length [OF f] by simp
  show ?case
  proof (cases "isRedirect status")
    case True
    then have "bufferLoop k st r desc (header headers ''location'') [] (fw_buf fw) w1 = ((n, None), dst', w')"
      using Suc.prems t f w by (auto simp: Let_def split: if_splits)
    from Suc.IH [OF this] l show ?thesis by simp
  next
    case False
    then have "n = m" "dst' = fw_buf fw" "checkStream desc n hashed = None"
      using Suc.prems t f w by (auto simp: Let_def split: if_splits)
    then show ?thesis
      using g l checkStream_ok [of desc n hashed] by auto
  qed
qed simp

section \<open>Where the token goes\<close>

text \<open>A transport that also logs the requests it is asked for.\<close>

definition logged :: "'w transport \<Rightarrow> ('w \<times> (string \<times> HTTPGetOptions) list) transport" where
  "logged get url opts wl = (let (r, w') = get url opts (fst wl) in (r, (w', snd wl @ [(url, opts)])))"

lemma logged_pair: "logged get url opts (w, log) = (fst (get url opts w), (snd (get url opts w), log @ [(url, opts)]))"
  by (simp add: logged_def case_prod_beta)

lemma fetchBlobLoop_log:
  "\<exists>reqs. snd (snd (fetchBlobLoop n (logged get) r desc url bearer (w, log))) = log @ reqs \<and> length reqs \<le> n \<and>
     (n > 0 \<longrightarrow> reqs \<noteq> [] \<and> hd reqs = (url, requestOpts r [] bearer)) \<and> list_all (\<lambda>q. ho_ExtraHeaders (snd q) = []) (tl reqs)"
proof (induction n arbitrary: url bearer w log)
  case (Suc n)
  obtain resp w1 where g: "get url (requestOpts r [] bearer) w = (resp, w1)" by fastforce
  let ?q = "(url, requestOpts r [] bearer)"
  have h: "ho_ExtraHeaders (requestOpts r [] []) = []" by (simp add: requestOpts_def)
  show ?case
  proof (cases "\<exists>rs. resp = Inr rs \<and> isRedirect (hr_StatusCode rs) \<and> header (hr_Headers rs) ''location'' \<noteq> []")
    case True
    then obtain rs where rs: "resp = Inr rs" "isRedirect (hr_StatusCode rs)" "header (hr_Headers rs) ''location'' \<noteq> []" by blast
    obtain reqs where i: "snd (snd (fetchBlobLoop n (logged get) r desc (header (hr_Headers rs) ''location'') [] (w1, log @ [?q]))) =
        (log @ [?q]) @ reqs" "length reqs \<le> n"
        "n > 0 \<longrightarrow> reqs \<noteq> [] \<and> hd reqs = (header (hr_Headers rs) ''location'', requestOpts r [] [])"
        "list_all (\<lambda>q. ho_ExtraHeaders (snd q) = []) (tl reqs)"
      using Suc.IH by blast
    have "list_all (\<lambda>q. ho_ExtraHeaders (snd q) = []) reqs"
      using i(2-4) h by (cases reqs) auto
    then show ?thesis
      using i(1,2) rs g by (intro exI [of _ "?q # reqs"]) (simp add: httpGet_def logged_pair Let_def)
  next
    case False
    then show ?thesis
      using g by (intro exI [of _ "[?q]"])
        (auto simp: httpGet_def logged_pair Let_def split: sum.splits)
  qed
qed simp

section \<open>Properties\<close>


definition exampleRef :: Ref where
  "exampleRef = \<lparr>rf_Scheme = ''https'', rf_Host = ''ghcr.io'', rf_Repo = ''a'', rf_Reference = ''sha256:00''\<rparr>"

definition serving :: "bytes \<Rightarrow> unit transport" where
  "serving raw url opts w =
     (Inr \<lparr>hr_StatusCode = 200, hr_StatusLine = ''HTTP/1.1 200 OK'', hr_Headers = Map.empty, hr_Body = raw\<rparr>, w)"

definition exampleManifest :: "bytes \<Rightarrow> Manifest" where
  "exampleManifest layer = (let d = \<lparr>de_MediaType = [], de_Digest = DigestFromBytes layer, de_Size = 1, de_Platform = None\<rparr>
     in \<lparr>mf_SchemaVersion = 2, mf_MediaType = [], mf_Config = d, mf_Layers = [d]\<rparr>)"

definition exampleDecoders :: "Manifest \<Rightarrow> decoders" where
  "exampleDecoders m = \<lparr>js_index = (\<lambda>_. None), js_manifest = (\<lambda>_. Some m), js_probe = (\<lambda>_. None)\<rparr>"

definition exampleOptions :: FetchOptions where
  "exampleOptions = \<lparr>fo_OS = [], fo_Arch = ''arm64'', fo_LayerFilter = None, fo_SkipConfig = False\<rparr>"

lemma example_fetch:
  "\<exists>art. FetchArtifact (serving [7]) (exampleDecoders (exampleManifest [7])) (NewRegistry None exampleRef) exampleOptions () =
    (Inr art, ()) \<and> ar_LayerBlobs art = [Some [7]]"
  by (simp add: FetchArtifact_def exampleOptions_def Authenticate_def httpGet_def serving_def resolveManifest_def
      FetchManifestRaw_def IsIndex_def exampleDecoders_def ParseManifest_def fetchConfig_def FetchBlob_def
      maxBlobRedirects_def isRedirect_def acceptBlob_def exampleManifest_def VerifyDigest_own header_def
      MediaTypeOCIIndex_def MediaTypeDockerIndex_def numeral_3_eq_3 Let_def NewRegistry_def)




text \<open>
  Blobs in a caller's buffer: on success the first bytes of the buffer, as many as reported, hash to the
  digest of the descriptor and have its size, and the buffer keeps its length, whatever the transport
  writes and however often it redirects.
\<close>

lemma oci_buffer_verified:
  assumes "FetchBlobToBuffer st r desc dst w = ((n, None), dst', w')"
  shows "length dst' = length dst \<and> n \<le> length dst \<and> VerifyDigest (de_Digest desc) (take n dst') = Inr () \<and>
    (0 < de_Size desc \<longrightarrow> int n = de_Size desc)"
proof -
  obtain t where "bufferLoop (Suc maxBlobRedirects) t r desc (blobURL (rg_Ref r) (de_Digest desc)) (rg_bearer r) dst w = ((n, None), dst', w')"
    using assms by (auto simp: FetchBlobToBuffer_def simp del: bufferLoop.simps split: sum.splits if_splits option.splits)
  then show ?thesis by (rule bufferLoop_ok)
qed

text \<open>
  C18. The bearer token is sent to the registry only: a blob fetch makes at most three requests, the first to
  the blob's own URL with the token, and no later request, to wherever a redirect points, carries any
  extra header.
\<close>

theorem oci_bearer_not_forwarded:
  "\<exists>reqs. snd (snd (FetchBlob (logged get) r desc (w, []))) =
      (blobURL (rg_Ref r) (de_Digest desc), requestOpts r [] (rg_bearer r)) # reqs \<and>
    length reqs \<le> 2 \<and> list_all (\<lambda>q. ho_ExtraHeaders (snd q) = []) reqs"
proof -
  obtain reqs where q: "snd (snd (FetchBlob (logged get) r desc (w, []))) = reqs" "length reqs \<le> 3" "reqs \<noteq> []"
      "hd reqs = (blobURL (rg_Ref r) (de_Digest desc), requestOpts r [] (rg_bearer r))"
      "list_all (\<lambda>q. ho_ExtraHeaders (snd q) = []) (tl reqs)"
    using fetchBlobLoop_log [of 3 get r desc "blobURL (rg_Ref r) (de_Digest desc)" "rg_bearer r" w "[]"]
    by (auto simp: FetchBlob_def maxBlobRedirects_def)
  then show ?thesis by (intro exI [of _ "tl reqs"]) (cases reqs, auto)
qed

end
