(* ===== verification/Efi_Memory.thy ===== *)
theory Efi_Memory
  imports Prelude
begin

unbundle bit_operations_syntax

text \<open>
  What the board package shares: little-endian fields (\<^verbatim>\<open>memorymap.go\<close>, \<^verbatim>\<open>blkprintk.go\<close>), the status codes of
  firmware calls, and the memory that firmware callers point into. Memory is a function from 64-bit
  addresses to bytes, so that address arithmetic wraps as on the machine.
\<close>

section \<open>Little-endian fields\<close>

definition leU16 :: "bytes \<Rightarrow> u16" where
  "leU16 b = ucast (b ! 0) OR push_bit 8 (ucast (b ! 1))"

definition leU32 :: "bytes \<Rightarrow> u32" where
  "leU32 b = ucast (b ! 0) OR push_bit 8 (ucast (b ! 1)) OR push_bit 16 (ucast (b ! 2)) OR push_bit 24 (ucast (b ! 3))"

definition leU64 :: "bytes \<Rightarrow> u64" where
  "leU64 b = ucast (b ! 0) OR push_bit 8 (ucast (b ! 1)) OR push_bit 16 (ucast (b ! 2)) OR push_bit 24 (ucast (b ! 3)) OR
     push_bit 32 (ucast (b ! 4)) OR push_bit 40 (ucast (b ! 5)) OR push_bit 48 (ucast (b ! 6)) OR push_bit 56 (ucast (b ! 7))"

definition putLE16 :: "u16 \<Rightarrow> bytes" where
  "putLE16 v = [ucast v, ucast (drop_bit 8 v)]"

definition putLE32 :: "u32 \<Rightarrow> bytes" where
  "putLE32 v = [ucast v, ucast (drop_bit 8 v), ucast (drop_bit 16 v), ucast (drop_bit 24 v)]"

definition putLE64 :: "u64 \<Rightarrow> bytes" where
  "putLE64 v = [ucast v, ucast (drop_bit 8 v), ucast (drop_bit 16 v), ucast (drop_bit 24 v),
     ucast (drop_bit 32 v), ucast (drop_bit 40 v), ucast (drop_bit 48 v), ucast (drop_bit 56 v)]"

lemma length_putLE [simp]: "length (putLE16 a) = 2" "length (putLE32 b) = 4" "length (putLE64 v) = 8"
  by (simp_all add: putLE16_def putLE32_def putLE64_def)

lemma leU16_putLE16 [simp]: "leU16 (putLE16 v @ r) = v"
  unfolding leU16_def putLE16_def
  by (rule bit_word_eqI) (auto simp: bit_simps not_less)

lemma leU32_putLE32 [simp]: "leU32 (putLE32 v @ r) = v"
proof (rule bit_word_eqI)
  fix n assume n: "n < LENGTH(32)"
  have nth: "(putLE32 v @ r) ! 0 = ucast v" "(putLE32 v @ r) ! 1 = ucast (drop_bit 8 v)"
      "(putLE32 v @ r) ! 2 = ucast (drop_bit 16 v)" "(putLE32 v @ r) ! 3 = ucast (drop_bit 24 v)"
    by (simp_all add: putLE32_def)
  show "bit (leU32 (putLE32 v @ r)) n = bit v n"
    unfolding leU32_def nth using n
    by (simp add: bit_simps not_less) (cases "n < 8"; cases "n < 16"; cases "n < 24"; auto simp: not_less less_diff_conv2)
qed

lemma leU64_putLE64 [simp]: "leU64 (putLE64 v @ r) = v"
proof (rule bit_word_eqI)
  fix n assume n: "n < LENGTH(64)"
  have nth: "(putLE64 v @ r) ! 0 = ucast v" "(putLE64 v @ r) ! 1 = ucast (drop_bit 8 v)"
      "(putLE64 v @ r) ! 2 = ucast (drop_bit 16 v)" "(putLE64 v @ r) ! 3 = ucast (drop_bit 24 v)"
      "(putLE64 v @ r) ! 4 = ucast (drop_bit 32 v)" "(putLE64 v @ r) ! 5 = ucast (drop_bit 40 v)"
      "(putLE64 v @ r) ! 6 = ucast (drop_bit 48 v)" "(putLE64 v @ r) ! 7 = ucast (drop_bit 56 v)"
    by (simp_all add: putLE64_def)
  show "bit (leU64 (putLE64 v @ r)) n = bit v n"
    unfolding leU64_def nth using n
    by (simp add: bit_simps not_less) (cases "n < 8"; cases "n < 16"; cases "n < 24"; cases "n < 32"; cases "n < 40";
        cases "n < 48"; cases "n < 56"; auto simp: not_less less_diff_conv2)
qed

lemmas leU_putLE_nil [simp] =
  leU16_putLE16 [where r = "[]", simplified] leU32_putLE32 [where r = "[]", simplified]
  leU64_putLE64 [where r = "[]", simplified]

section \<open>Memory\<close>

type_synonym mem = "u64 \<Rightarrow> byte"

definition readMem :: "mem \<Rightarrow> u64 \<Rightarrow> nat \<Rightarrow> bytes" where
  "readMem m p n = map (\<lambda>i. m (p + of_nat i)) [0..<n]"

definition writeMem :: "u64 \<Rightarrow> bytes \<Rightarrow> mem \<Rightarrow> mem" where
  "writeMem p bs m = (\<lambda>a. if unat (a - p) < length bs then bs ! unat (a - p) else m a)"

definition readU16 :: "mem \<Rightarrow> u64 \<Rightarrow> u16" where "readU16 m p = leU16 (readMem m p 2)"
definition readU64 :: "mem \<Rightarrow> u64 \<Rightarrow> u64" where "readU64 m p = leU64 (readMem m p 8)"
definition readU32 :: "mem \<Rightarrow> u64 \<Rightarrow> u32" where "readU32 m p = leU32 (readMem m p 4)"
definition writeU32 :: "u64 \<Rightarrow> u32 \<Rightarrow> mem \<Rightarrow> mem" where "writeU32 p v = writeMem p (putLE32 v)"
definition writeU64 :: "u64 \<Rightarrow> u64 \<Rightarrow> mem \<Rightarrow> mem" where "writeU64 p v = writeMem p (putLE64 v)"

text \<open>Two areas that share no byte, on the ring of addresses.\<close>

definition apart :: "u64 \<Rightarrow> nat \<Rightarrow> u64 \<Rightarrow> nat \<Rightarrow> bool" where
  "apart p n q k = (n \<le> unat (q - p) \<and> k \<le> unat (p - q))"

lemma length_readMem [simp]: "length (readMem m p n) = n"
  by (simp add: readMem_def)

lemma readMem_nth [simp]: "i < n \<Longrightarrow> readMem m p n ! i = m (p + of_nat i)"
  by (simp add: readMem_def)

lemma writeMem_Nil [simp]: "writeMem p [] m = m"
  by (simp add: writeMem_def)

lemma unat_of_nat_u64: "n < 2 ^ 64 \<Longrightarrow> unat (of_nat n :: u64) = n"
  by (simp add: unat_of_nat take_bit_eq_mod)

lemma readMem_writeMem_same:
  assumes "length bs < 2 ^ 64"
  shows "readMem (writeMem p bs m) p (length bs) = bs"
proof (rule nth_equalityI)
  fix i assume "i < length (readMem (writeMem p bs m) p (length bs))"
  then have "i < length bs" "unat (of_nat i :: u64) = i"
    using assms by (simp_all add: unat_of_nat_u64)
  then show "readMem (writeMem p bs m) p (length bs) ! i = bs ! i"
    by (simp add: writeMem_def)
qed simp

lemma apart_offset:
  assumes "apart p n q k" "i < k" "k < 2 ^ 64"
  shows "n \<le> unat (q + of_nat i - p)"
proof -
  have i: "unat (of_nat i :: u64) = i"
    using assms by (intro unat_of_nat_u64) simp
  have e: "q + of_nat i - p = (q - p) + of_nat i" by simp
  have s: "unat (q - p) + i < 2 ^ 64"
  proof (cases "q = p")
    case True
    then have "k \<le> 0" using assms(1) by (simp add: apart_def)
    then show ?thesis using assms(2) by simp
  next
    case False
    then have "unat (q - p) + unat (p - q) = 2 ^ 64"
      using unsigned_less [where w = p and 'a = nat] unsigned_less [where w = q and 'a = nat]
      by (auto simp: unat_sub_if' word_size word_unat_eq_iff)
    then show ?thesis using assms(1,2) by (simp add: apart_def)
  qed
  have "unat ((q - p) + of_nat i) = unat (q - p) + i"
    using s i by (simp add: unat_word_ariths)
  then show ?thesis
    using assms(1) unfolding e apart_def by simp
qed

lemma readMem_writeMem_apart:
  assumes "apart p (length bs) q n" "n < 2 ^ 64"
  shows "readMem (writeMem p bs m) q n = readMem m q n"
proof (rule nth_equalityI)
  fix i assume "i < length (readMem (writeMem p bs m) q n)"
  then have i: "i < n" by simp
  then have "length bs \<le> unat (q + of_nat i - p)"
    using apart_offset [OF assms(1) i assms(2)] by simp
  then show "readMem (writeMem p bs m) q n ! i = readMem m q n ! i"
    using i by (simp add: writeMem_def)
qed simp

lemma readU64_writeU64 [simp]: "readU64 (writeU64 p v m) p = v"
  using readMem_writeMem_same [of "putLE64 v" p m] by (simp add: readU64_def writeU64_def)

lemma readU32_writeU32 [simp]: "readU32 (writeU32 p v m) p = v"
  using readMem_writeMem_same [of "putLE32 v" p m] by (simp add: readU32_def writeU32_def)

lemma apart_sym: "apart p n q k \<Longrightarrow> apart q k p n"
  by (simp add: apart_def)

lemma readMem_writeU64_apart [simp]: "apart p 8 q n \<Longrightarrow> n < 2 ^ 64 \<Longrightarrow> readMem (writeU64 p v m) q n = readMem m q n"
  by (simp add: writeU64_def readMem_writeMem_apart)

lemma readMem_writeU32_apart [simp]: "apart p 4 q n \<Longrightarrow> n < 2 ^ 64 \<Longrightarrow> readMem (writeU32 p v m) q n = readMem m q n"
  by (simp add: writeU32_def readMem_writeMem_apart)

lemma readU64_writeMem_apart [simp]: "apart p (length bs) q 8 \<Longrightarrow> readU64 (writeMem p bs m) q = readU64 m q"
  by (simp add: readU64_def readMem_writeMem_apart)

lemma readU64_writeU64_apart [simp]: "apart p 8 q 8 \<Longrightarrow> readU64 (writeU64 p v m) q = readU64 m q"
  by (simp add: readU64_def)

lemma readU64_writeU32_apart [simp]: "apart p 4 q 8 \<Longrightarrow> readU64 (writeU32 p v m) q = readU64 m q"
  by (simp add: readU64_def)

lemma readU32_writeU64_apart [simp]: "apart p 8 q 4 \<Longrightarrow> readU32 (writeU64 p v m) q = readU32 m q"
  by (simp add: readU32_def)

lemma slice_readMem: "off + n \<le> len \<Longrightarrow> slice (readMem m p len) off (off + n) = readMem m (p + of_nat off) n"
  by (rule nth_equalityI) (auto simp: slice_def add.assoc)

lemma readMem_append: "readMem m p (a + b) = readMem m p a @ readMem m (p + of_nat a) b"
proof (rule nth_equalityI)
  fix i assume "i < length (readMem m p (a + b))"
  then have i: "i < a + b" by simp
  show "readMem m p (a + b) ! i = (readMem m p a @ readMem m (p + of_nat a) b) ! i"
  proof (cases "i < a")
    case False
    then have "p + of_nat i = p + of_nat a + of_nat (i - a)" by (simp add: of_nat_diff)
    then show ?thesis using i False by (simp add: nth_append)
  qed (use i in \<open>simp add: nth_append\<close>)
qed simp

lemma readMem_Suc: "readMem m p (Suc n) = m p # readMem m (p + 1) n"
  by (rule nth_equalityI) (auto simp: nth_Cons add.assoc split: nat.splits)

lemma writeMem_Cons:
  assumes "length bs < 2 ^ 64"
  shows "writeMem p (b # bs) m = writeMem (p + 1) bs (m(p := b))"
proof
  fix a
  show "writeMem p (b # bs) m a = writeMem (p + 1) bs (m(p := b)) a"
  proof (cases "a = p")
    case True
    have "unat (p - (p + 1)) = 2 ^ 64 - 1" by (simp add: unsigned_minus_1_eq_mask mask_eq_exp_minus_1)
    then show ?thesis using True assms by (simp add: writeMem_def)
  next
    case False
    then have "0 < unat (a - p)" by (simp add: unat_gt_0)
    then have "unat (a - p) = Suc (unat (a - (p + 1)))"
      using unat_minus_one [of "a - p"] False by (simp add: diff_diff_eq [symmetric])
    then show ?thesis using False by (simp add: writeMem_def)
  qed
qed

lemma apart_sub:
  assumes "apart p n q len" "off + k \<le> len" "0 < k" "len < 2 ^ 64"
  shows "apart p n (q + of_nat off) k"
proof -
  have u: "unat (of_nat off :: u64) = off"
    using assms by (intro unat_of_nat_u64) simp
  have "len \<le> unat (p - q)" using assms(1) by (simp add: apart_def)
  then have "(of_nat off :: u64) \<le> p - q"
    using assms(2) u by (simp add: word_le_nat_alt)
  then have "unat (p - q - of_nat off) = unat (p - q) - off"
    using u by (simp add: unat_sub)
  then have "k \<le> unat (p - (q + of_nat off))"
    using \<open>len \<le> unat (p - q)\<close> assms(2) by (simp add: diff_diff_eq)
  then show ?thesis
    using apart_offset [OF assms(1), of off] assms(2-4) by (simp add: apart_def)
qed

section \<open>Errors of the board package\<close>

text \<open>A failed firmware call is \<open>EFIError\<close> with its status and the name of the operation.\<close>

datatype efi_error =
    EFIError u64 string
  | ErrNoBootServices | ErrMapTooSmall
  | ErrNoBlockIOSink | ErrBufferSizeMismatch
  | ErrEmptyBlockImage | ErrBlockIOImageNotAligned | ErrBlockIORegistryFull | ErrBlockIONotPublished
  | ErrSFSNotPublished | ErrSFSRegistryFull | ErrSFSHandleRegistryFull | ErrSFSNilFilesystem
  | ErrNilHandle | ErrEmptyCmdline | ErrNoMatchingSFS | ErrLoadImageNoSource | ErrDTBEmpty
  | ErrFwCfgUnsupportedArch | ErrFwCfgEmptyFileDir | ErrFwCfgDTBNotFound | ErrFwCfgDTBTooLarge
  | ErrText string | GoPanic
  | ErrFrameHeader | ErrFrameClaim | ErrFrameTruncated | ErrShortRead | ErrProbeNotRun

end
