(* ===== verification/Blk_Ring.thy ===== *)
theory Blk_Ring
  imports Efi_Memory
begin

text \<open>
  The print ring on a block device, \<^verbatim>\<open>uefiboard/blkprintk.go\<close> and \<^verbatim>\<open>blkprintk_tamago.go\<close>: a circular buffer of
  the latest output, the frame it is written in, and the decoder the host uses on the disk image.
\<close>

section \<open>The device\<close>

text \<open>
  A disk behind \<^verbatim>\<open>EFI_BLOCK_IO_PROTOCOL\<close>. The firmware either refuses a call with a status, which the
  environment decides per call, or performs it.
\<close>

record efiDisk =
  dk_bytes :: bytes
  dk_blockSize :: nat
  dk_calls :: nat
  dk_refuse :: "nat \<Rightarrow> u64 option"

definition overwrite :: "nat \<Rightarrow> bytes \<Rightarrow> bytes \<Rightarrow> bytes" where
  "overwrite off buf bs = take off bs @ buf @ drop (off + length buf) bs"

definition BlockIOWriteBlocks :: "u64 \<Rightarrow> u32 \<Rightarrow> u64 \<Rightarrow> bytes \<Rightarrow> efiDisk \<Rightarrow> efi_error option \<times> efiDisk" where
  "BlockIOWriteBlocks blockIO mediaID lba buf d =
     (if blockIO = 0 then (Some ErrNoBootServices, d)
      else if buf = [] then (None, d)
      else let d' = d\<lparr>dk_calls := dk_calls d + 1\<rparr> in
        (case dk_refuse d (dk_calls d) of
           Some status \<Rightarrow> (Some (EFIError status ''BlockIO.WriteBlocks''), d')
         | None \<Rightarrow> (None, d'\<lparr>dk_bytes := overwrite (unat lba * dk_blockSize d) buf (dk_bytes d)\<rparr>)))"

definition BlockIOFlushBlocks :: "u64 \<Rightarrow> efiDisk \<Rightarrow> efi_error option \<times> efiDisk" where
  "BlockIOFlushBlocks blockIO d =
     (if blockIO = 0 then (Some ErrNoBootServices, d)
      else (map_option (\<lambda>status. EFIError status ''BlockIO.FlushBlocks'') (dk_refuse d (dk_calls d)),
            d\<lparr>dk_calls := dk_calls d + 1\<rparr>))"

section \<open>The ring\<close>

definition BlkRingCapacity :: nat where "BlkRingCapacity = 32 * 1024"
definition BlkRingHeaderSize :: nat where "BlkRingHeaderSize = 16"
definition BlkRingPayloadCapacity :: nat where "BlkRingPayloadCapacity = BlkRingCapacity - BlkRingHeaderSize"
definition BlkSentinel :: byte where "BlkSentinel = 0x04"
definition BlkAutoFlushBytes :: nat where "BlkAutoFlushBytes = 4096"

record BlkRingBuffer =
  br_payload :: bytes
  br_head :: nat
  br_total :: u64
  br_writeCount :: u64
  br_blockIO :: u64
  br_mediaID :: u32
  br_lba :: u64
  br_blockSize :: u32
  br_pendingAutoFlush :: nat

definition NewBlkRingBuffer :: BlkRingBuffer where
  "NewBlkRingBuffer = \<lparr>br_payload = replicate BlkRingPayloadCapacity 0, br_head = 0, br_total = 0, br_writeCount = 0,
     br_blockIO = 0, br_mediaID = 0, br_lba = 0, br_blockSize = 0, br_pendingAutoFlush = 0\<rparr>"

definition BindBlockIO :: "u64 \<Rightarrow> u32 \<Rightarrow> u32 \<Rightarrow> u64 \<Rightarrow> BlkRingBuffer \<Rightarrow> efi_error + BlkRingBuffer" where
  "BindBlockIO blockIO mediaID blockSize lba r =
     (if blockSize = 0 \<or> BlkRingCapacity mod unat blockSize \<noteq> 0 then Inl ErrBufferSizeMismatch
      else Inr (r\<lparr>br_blockIO := blockIO, br_mediaID := mediaID, br_blockSize := blockSize, br_lba := lba\<rparr>))"

definition IsBound :: "BlkRingBuffer \<Rightarrow> bool" where "IsBound r = (br_blockIO r \<noteq> 0)"

definition Wrapped :: "BlkRingBuffer \<Rightarrow> bool" where
  "Wrapped r = (br_total r > of_nat BlkRingPayloadCapacity)"

text \<open>\<open>copyInto dst src\<close> is \<^verbatim>\<open>copy(dst, src)\<close>: the bytes of \<^verbatim>\<open>dst\<close> behind those copied stay.\<close>

definition copyInto :: "bytes \<Rightarrow> bytes \<Rightarrow> bytes" where
  "copyInto dst src = take (length dst) src @ drop (length src) dst"

definition PayloadBytes :: "BlkRingBuffer \<Rightarrow> bytes" where
  "PayloadBytes r =
     (let n = (if br_total r > of_nat BlkRingPayloadCapacity then of_nat BlkRingPayloadCapacity else br_total r);
          out = replicate (unat n) 0 in
      if \<not> Wrapped r then copyInto out (take (br_head r) (br_payload r))
      else let first = BlkRingPayloadCapacity - br_head r in
        copyInto (take first out) (drop (br_head r) (br_payload r)) @
        copyInto (drop first out) (take (br_head r) (br_payload r)))"

definition Append :: "byte \<Rightarrow> BlkRingBuffer \<Rightarrow> BlkRingBuffer" where
  "Append b r =
     r\<lparr>br_payload := (br_payload r)[br_head r := b],
       br_head := (if br_head r + 1 = BlkRingPayloadCapacity then 0 else br_head r + 1),
       br_total := br_total r + 1,
       br_pendingAutoFlush := br_pendingAutoFlush r + 1\<rparr>"

definition AppendString :: "bytes \<Rightarrow> BlkRingBuffer \<Rightarrow> nat \<times> BlkRingBuffer" where
  "AppendString s r = (length s, fold Append s r)"

definition AutoFlushReady :: "BlkRingBuffer \<Rightarrow> bool" where
  "AutoFlushReady r = (br_pendingAutoFlush r \<ge> BlkAutoFlushBytes)"

definition ResetAutoFlush :: "BlkRingBuffer \<Rightarrow> BlkRingBuffer" where
  "ResetAutoFlush r = r\<lparr>br_pendingAutoFlush := 0\<rparr>"

definition Serialize :: "BlkRingBuffer \<Rightarrow> bytes" where
  "Serialize r =
     (let payload = PayloadBytes r in
      copyInto (replicate BlkRingCapacity 0)
        (putLE64 (br_writeCount r) @ putLE64 (of_nat (length payload)) @ payload))"

definition IncrementWriteCount :: "BlkRingBuffer \<Rightarrow> BlkRingBuffer" where
  "IncrementWriteCount r = r\<lparr>br_writeCount := br_writeCount r + 1\<rparr>"

definition DecodeBlkRingFrame :: "bytes \<Rightarrow> efi_error + u64 \<times> bytes" where
  "DecodeBlkRingFrame frame =
     (if length frame < BlkRingHeaderSize then Inl ErrFrameHeader
      else let n = leU64 (slice frame 8 16) in
      if n > of_nat BlkRingPayloadCapacity then Inl ErrFrameClaim
      else if length frame < BlkRingHeaderSize + unat n then Inl ErrFrameTruncated
      else Inr (leU64 (slice frame 0 8), slice frame BlkRingHeaderSize (BlkRingHeaderSize + unat n)))"

definition Flush :: "BlkRingBuffer \<Rightarrow> efiDisk \<Rightarrow> efi_error option \<times> BlkRingBuffer \<times> efiDisk" where
  "Flush r0 d =
     (if \<not> IsBound r0 then (Some ErrNoBlockIOSink, r0, d)
      else let r = IncrementWriteCount r0; frame = Serialize r in
      (case BlockIOWriteBlocks (br_blockIO r) (br_mediaID r) (br_lba r) frame d of
         (Some e, d1) \<Rightarrow> (Some e, r, d1)
       | (None, d1) \<Rightarrow>
           (case BlockIOFlushBlocks (br_blockIO r) d1 of
              (Some e, d2) \<Rightarrow> (Some e, r, d2)
            | (None, d2) \<Rightarrow> (None, ResetAutoFlush r, d2))))"

definition BlkPrintk :: "byte \<Rightarrow> BlkRingBuffer \<times> efiDisk \<Rightarrow> BlkRingBuffer \<times> efiDisk" where
  "BlkPrintk b rd =
     (let r = Append b (fst rd) in
      if b = BlkSentinel then snd (Flush r (snd rd))
      else if AutoFlushReady r then snd (Flush r (snd rd))
      else (r, snd rd))"

text \<open>The host side, \<^verbatim>\<open>cmd/blkprintk-recover\<close>: the payload of the frame at the start of the image.\<close>

definition BlkPrintkScratchMagic :: bytes where
  "BlkPrintkScratchMagic = map (of_nat \<circ> of_char) ''cloudboot-M1.6'' @ [0, 0]"

definition magicAtOffset0 :: "bytes \<Rightarrow> bool" where
  "magicAtOffset0 frame = (length frame \<ge> 16 \<and> take 16 frame = BlkPrintkScratchMagic)"

definition runStreams :: "bytes \<Rightarrow> efi_error + bytes" where
  "runStreams img =
     (if length img < BlkRingCapacity then Inl ErrShortRead
      else let frame = take BlkRingCapacity img in
      if magicAtOffset0 frame then Inl ErrProbeNotRun
      else map_sum id snd (DecodeBlkRingFrame frame))"

section \<open>What the ring holds\<close>

lemma capacity_simps [simp]: "BlkRingCapacity = 32768" "BlkRingHeaderSize = 16" "BlkRingPayloadCapacity = 32752"
  by (simp_all add: BlkRingCapacity_def BlkRingHeaderSize_def BlkRingPayloadCapacity_def)

text \<open>
  \<open>ring_holds bs r\<close>: the ring \<open>r\<close> after the bytes \<open>bs\<close>. Until it is full its start is \<open>bs\<close>; then, read
  from the head around to the head, it is the latest bytes.
\<close>

definition ring_holds :: "bytes \<Rightarrow> BlkRingBuffer \<Rightarrow> bool" where
  "ring_holds bs r =
     (length (br_payload r) = 32752 \<and> br_head r = length bs mod 32752 \<and> br_total r = of_nat (length bs) \<and>
      (if length bs < 32752 then take (length bs) (br_payload r) = bs
       else drop (br_head r) (br_payload r) @ take (br_head r) (br_payload r) = lastn 32752 bs))"

lemma ring_holds_update [simp]:
  "ring_holds bs (r\<lparr>br_writeCount := k\<rparr>) = ring_holds bs r"
  "ring_holds bs (r\<lparr>br_writeCount := k, br_pendingAutoFlush := n\<rparr>) = ring_holds bs r"
  by (simp_all add: ring_holds_def)

lemma rotate_update:
  assumes "length p = c" "h < c" "h' = (if h + 1 = c then 0 else h + 1)"
  shows "drop h' (p[h := b]) @ take h' (p[h := b]) = tl (drop h p @ take h p) @ [b]"
proof -
  have p: "p[h := b] = take h p @ b # drop (Suc h) p"
    using assms by (simp add: upd_conv_take_nth_drop)
  have d: "drop h p = p ! h # drop (Suc h) p"
    using assms by (simp add: Cons_nth_drop_Suc)
  show ?thesis
    using assms by (auto simp: p d)
qed

lemma lastn_snoc: "0 < n \<Longrightarrow> n \<le> length xs \<Longrightarrow> lastn n (xs @ [x]) = tl (lastn n xs) @ [x]"
  by (simp add: lastn_def drop_Suc tl_drop Suc_diff_le)

lemma ring_holds_New [simp]: "ring_holds [] NewBlkRingBuffer"
  by (simp add: ring_holds_def NewBlkRingBuffer_def)

lemma ring_holds_Append:
  assumes h: "ring_holds bs r"
  shows "ring_holds (bs @ [b]) (Append b r)"
proof -
  have l: "length (br_payload r) = 32752" "br_head r < 32752"
    using h by (simp_all add: ring_holds_def)
  let ?h = "if br_head r + 1 = 32752 then 0 else br_head r + 1"
  have m: "?h = Suc (length bs) mod 32752"
    using h by (auto simp: ring_holds_def mod_Suc)
  show ?thesis
  proof (cases "length bs < 32752")
    case True
    then have t: "br_head r = length bs" "take (length bs) (br_payload r) = bs"
      using h by (auto simp: ring_holds_def)
    have "take (Suc (length bs)) ((br_payload r)[length bs := b]) = bs @ [b]"
      using True l t(2) by (simp add: take_Suc_conv_app_nth)
    moreover from this have "(br_payload r)[length bs := b] = bs @ [b]" if "Suc (length bs) = 32752"
      using that l by (metis length_list_update take_all_iff le_refl)
    ultimately show ?thesis
      using h True m t(1) by (auto simp: ring_holds_def Append_def add.commute)
  next
    case False
    then have "drop (br_head r) (br_payload r) @ take (br_head r) (br_payload r) = lastn 32752 bs"
      using h unfolding ring_holds_def by metis
    then have "drop ?h ((br_payload r)[br_head r := b]) @ take ?h ((br_payload r)[br_head r := b]) = lastn 32752 (bs @ [b])"
      using rotate_update [OF l refl, of b] False by (simp add: lastn_snoc)
    then show ?thesis
      using h False m by (simp add: ring_holds_def Append_def add.commute)
  qed
qed

lemma ring_holds_fold: "ring_holds bs r \<Longrightarrow> ring_holds (bs @ cs) (fold Append cs r)"
proof (induction cs arbitrary: bs r)
  case (Cons c cs)
  from Cons.IH [OF ring_holds_Append [OF Cons.prems, of c]] show ?case by simp
qed simp

text \<open>
  What a flush writes for the bytes \<open>bs\<close>: the latest 32752 of them, except that a ring that has just
  become full is taken for an empty one.
\<close>

definition ringPayload :: "bytes \<Rightarrow> bytes" where
  "ringPayload bs = (if length bs = 32752 then replicate 32752 0 else lastn 32752 bs)"

lemma PayloadBytes_holds:
  assumes "ring_holds bs r" "length bs < 2 ^ 64"
  shows "PayloadBytes r = ringPayload bs"
proof -
  have u: "unat (br_total r) = length bs"
    using assms by (simp add: ring_holds_def unat_of_nat_u64)
  have w: "br_total r > of_nat 32752 \<longleftrightarrow> length bs > 32752"
    using u by (simp add: word_less_nat_alt)
  consider "length bs < 32752" | "length bs = 32752" | "length bs > 32752" by linarith
  then show ?thesis
  proof cases
    case 1
    then show ?thesis
      using assms(1) u w by (simp add: PayloadBytes_def Wrapped_def ringPayload_def ring_holds_def copyInto_def)
  next
    case 2
    then show ?thesis
      using assms(1) u w by (simp add: PayloadBytes_def Wrapped_def ringPayload_def ring_holds_def copyInto_def)
  next
    case 3
    then have "br_head r < 32752" "length (br_payload r) = 32752"
      "drop (br_head r) (br_payload r) @ take (br_head r) (br_payload r) = lastn 32752 bs"
      using assms(1) unfolding ring_holds_def by (simp, simp, metis not_less_iff_gr_or_eq)
    then show ?thesis
      using 3 w by (simp add: PayloadBytes_def Wrapped_def ringPayload_def copyInto_def)
  qed
qed

section \<open>Frames on the disk\<close>

definition ringFrame :: "u64 \<Rightarrow> bytes \<Rightarrow> bytes" where
  "ringFrame k pl = putLE64 k @ putLE64 (of_nat (length pl)) @ pl @ replicate (32752 - length pl) 0"

lemma length_ringFrame [simp]: "length pl \<le> 32752 \<Longrightarrow> length (ringFrame k pl) = 32768"
  by (simp add: ringFrame_def)

lemma length_ringPayload [simp]: "length (ringPayload bs) \<le> 32752"
  by (simp add: ringPayload_def)

lemma Serialize_frame: "length (PayloadBytes r) \<le> 32752 \<Longrightarrow> Serialize r = ringFrame (br_writeCount r) (PayloadBytes r)"
  by (simp add: Serialize_def Let_def copyInto_def ringFrame_def)

lemma Decode_ringFrame:
  assumes "length pl \<le> 32752"
  shows "DecodeBlkRingFrame (ringFrame k pl) = Inr (k, pl)"
proof -
  have u: "unat (of_nat (length pl) :: u64) = length pl"
    using assms by (intro unat_of_nat_u64) simp
  have "slice (ringFrame k pl) 8 16 = putLE64 (of_nat (length pl))" "slice (ringFrame k pl) 0 8 = putLE64 k"
      "slice (ringFrame k pl) 16 (16 + length pl) = pl"
    by (simp_all add: slice_def ringFrame_def)
  moreover have "\<not> (of_nat 32752 :: u64) < of_nat (length pl)"
    using assms u by (simp add: word_less_nat_alt)
  ultimately show ?thesis
    using assms u by (simp add: DecodeBlkRingFrame_def Let_def)
qed

lemma runStreams_ringFrame:
  assumes "take 32768 img = ringFrame k pl" "length pl \<le> 32752" "unat k < 2 ^ 62"
  shows "runStreams img = Inr pl"
proof -
  have l: "32768 \<le> length img"
    using arg_cong [OF assms(1), of length] assms(2) by (simp add: min_def split: if_splits)
  have m: "\<not> magicAtOffset0 (ringFrame k pl)"
  proof
    assume "magicAtOffset0 (ringFrame k pl)"
    then have "take 8 (take 16 (ringFrame k pl)) = take 8 BlkPrintkScratchMagic"
      by (simp add: magicAtOffset0_def)
    then have "putLE64 k = take 8 BlkPrintkScratchMagic"
      by (simp add: ringFrame_def)
    then have "k = leU64 (take 8 BlkPrintkScratchMagic)"
      by (metis leU_putLE_nil(3))
    also have "\<dots> = 0x6F6F6264756F6C63"
      by code_simp
    finally show False using assms(3) by simp
  qed
  show ?thesis
    using l m assms(1) Decode_ringFrame [OF assms(2)] by (simp add: runStreams_def Let_def)
qed

text \<open>
  \<open>console bs p s\<close>: the ring and the disk after printing \<open>bs\<close> to a device that accepts every call. The
  last \<open>p\<close> bytes are pending; the disk carries the frame of all bytes before them once a flush has
  happened.
\<close>

definition disk_ready :: "efiDisk \<Rightarrow> bool" where
  "disk_ready d = (dk_refuse d = (\<lambda>_. None) \<and> 32768 \<le> length (dk_bytes d))"

definition console :: "bytes \<Rightarrow> BlkRingBuffer \<times> efiDisk \<Rightarrow> bool" where
  "console bs s =
     (let r = fst s; d = snd s; p = br_pendingAutoFlush r in
      ring_holds bs r \<and> IsBound r \<and> br_lba r = 0 \<and> disk_ready d \<and> p \<le> length bs \<and> p < 4096 \<and>
      unat (br_writeCount r) \<le> length bs \<and>
      (p < length bs \<longrightarrow> take 32768 (dk_bytes d) = ringFrame (br_writeCount r) (ringPayload (take (length bs - p) bs))))"

lemma Flush_ready:
  assumes "ring_holds bs r" "length bs < 2 ^ 64" "IsBound r" "br_lba r = 0" "disk_ready d"
  obtains d' where "Flush r d = (None, r\<lparr>br_writeCount := br_writeCount r + 1, br_pendingAutoFlush := 0\<rparr>, d')"
    "disk_ready d'" "take 32768 (dk_bytes d') = ringFrame (br_writeCount r + 1) (ringPayload bs)"
proof -
  let ?r = "IncrementWriteCount r"
  have "ring_holds bs ?r"
    using assms(1) by (simp add: IncrementWriteCount_def)
  then have s: "Serialize ?r = ringFrame (br_writeCount r + 1) (ringPayload bs)"
    using PayloadBytes_holds [of bs ?r] assms(2) by (simp add: Serialize_frame) (simp add: IncrementWriteCount_def)
  let ?f = "ringFrame (br_writeCount r + 1) (ringPayload bs)"
  have f: "length ?f = 32768" "?f \<noteq> []" by (simp_all flip: length_greater_0_conv)
  have "Flush r d = (None, r\<lparr>br_writeCount := br_writeCount r + 1, br_pendingAutoFlush := 0\<rparr>,
      d\<lparr>dk_calls := dk_calls d + 2, dk_bytes := overwrite 0 ?f (dk_bytes d)\<rparr>)"
    using assms(3-5) f(2)
    by (simp add: Flush_def Let_def s BlockIOWriteBlocks_def BlockIOFlushBlocks_def disk_ready_def IsBound_def)
      (simp add: IncrementWriteCount_def ResetAutoFlush_def)
  then show thesis
    by (rule that) (use assms(5) f(1) in \<open>simp_all add: disk_ready_def overwrite_def\<close>)
qed

lemma unat_plus_one_le: "unat (k + 1 :: u64) \<le> unat k + 1"
  using mod_less_eq_dividend [of "unat k + 1" "2 ^ 64"] by (simp add: unat_word_ariths)

lemma console_flush:
  assumes "console bs s" "length bs + 1 < 2 ^ 64"
  shows "console (bs @ [b]) (snd (Flush (Append b (fst s)) (snd s)))"
proof -
  obtain r d where s: "s = (r, d)" by fastforce
  have h: "ring_holds (bs @ [b]) (Append b r)" "IsBound (Append b r)" "br_lba (Append b r) = 0" "disk_ready d"
    using assms(1) ring_holds_Append by (auto simp: console_def Let_def s Append_def IsBound_def)
  have w: "unat (br_writeCount r + 1) \<le> length bs + 1"
    using assms(1) unat_plus_one_le [of "br_writeCount r"] by (auto simp: console_def Let_def s)
  obtain d' where f: "Flush (Append b r) d = (None, (Append b r)\<lparr>br_writeCount := br_writeCount (Append b r) + 1,
        br_pendingAutoFlush := 0\<rparr>, d')" "disk_ready d'"
      "take 32768 (dk_bytes d') = ringFrame (br_writeCount (Append b r) + 1) (ringPayload (bs @ [b]))"
    using Flush_ready [OF h(1) _ h(2-4)] assms(2) by auto
  then show ?thesis
    using h w by (simp add: console_def Let_def s) (simp add: Append_def IsBound_def)
qed

lemma console_step:
  assumes "console bs s" "length bs + 1 < 2 ^ 64"
  shows "console (bs @ [b]) (BlkPrintk b s)"
proof (cases "b = BlkSentinel \<or> AutoFlushReady (Append b (fst s))")
  case True
  then show ?thesis
    using console_flush [OF assms, of b] by (auto simp: BlkPrintk_def Let_def)
next
  case False
  then have "br_pendingAutoFlush (fst s) + 1 < 4096"
    by (simp add: AutoFlushReady_def BlkAutoFlushBytes_def Append_def)
  then have "console (bs @ [b]) (Append b (fst s), snd s)"
    using assms(1) ring_holds_Append [of bs "fst s" b] by (simp add: console_def Let_def) (simp add: Append_def IsBound_def)
  then show ?thesis using False by (simp add: BlkPrintk_def Let_def)
qed

lemma console_fold:
  "console bs s \<Longrightarrow> length bs + length cs < 2 ^ 64 \<Longrightarrow> console (bs @ cs) (fold BlkPrintk cs s)"
proof (induction cs arbitrary: bs s)
  case (Cons c cs)
  from Cons.IH [OF console_step [OF Cons.prems(1), of c]] Cons.prems(2) show ?case by simp
qed simp

section \<open>Properties\<close>

lemma console_start:
  assumes "BindBlockIO blockIO mediaID blockSize 0 NewBlkRingBuffer = Inr r" "blockIO \<noteq> 0" "disk_ready d"
  shows "console [] (r, d)"
  using assms by (auto simp: BindBlockIO_def console_def IsBound_def ring_holds_def NewBlkRingBuffer_def split: if_splits)

text \<open>At every moment of a run on an accepting device at most 4095 bytes are missing on the disk.\<close>

lemma blk_pending_bounded:
  assumes "BindBlockIO blockIO mediaID blockSize 0 NewBlkRingBuffer = Inr r" "blockIO \<noteq> 0" "disk_ready d"
    and "length bs < 2 ^ 62"
  shows "\<exists>p<4096. p \<le> length bs \<and>
    (p < length bs \<longrightarrow> runStreams (dk_bytes (snd (fold BlkPrintk bs (r, d)))) = Inr (ringPayload (take (length bs - p) bs)))"
proof -
  have "console bs (fold BlkPrintk bs (r, d))"
    using console_fold [OF console_start [OF assms(1-3)], of bs] assms(4) by simp
  then show ?thesis
    using assms(4) runStreams_ringFrame
    by (intro exI [of _ "br_pendingAutoFlush (fst (fold BlkPrintk bs (r, d)))"]) (auto simp: console_def Let_def)
qed



text \<open>
  A full ring reads as blank: after exactly 32752 bytes the payload that would be written is all zero,
  whatever was printed, because a head that has come around to zero is taken for an empty ring.
\<close>

lemma blk_full_ring_blank:
  assumes "length bs = BlkRingPayloadCapacity"
  shows "PayloadBytes (fold Append bs NewBlkRingBuffer) = replicate BlkRingPayloadCapacity 0"
proof -
  have "ring_holds bs (fold Append bs NewBlkRingBuffer)"
    using ring_holds_fold [OF ring_holds_New, of bs] by simp
  then show ?thesis
    using PayloadBytes_holds [of bs] assms by (simp add: ringPayload_def)
qed

end
