(* ===== verification/Slot_Registry.thy ===== *)
theory Slot_Registry
  imports Efi_Memory
begin

text \<open>
  Fixed arrays of slots keyed by the address of a protocol structure, the shape of every registry behind
  a firmware callback: an entry with key zero is free, the first free slot is claimed, and a callback
  finds its entry by scanning for the address it was called with.
\<close>

text \<open>No two live slots have the same address.\<close>

definition slots_ok :: "('e \<Rightarrow> u64) \<Rightarrow> 'e list \<Rightarrow> bool" where
  "slots_ok key reg =
     (\<forall>i<length reg. \<forall>j<i. key (reg ! i) \<noteq> 0 \<longrightarrow> key (reg ! j) \<noteq> key (reg ! i))"

definition vacant :: "('e \<Rightarrow> u64) \<Rightarrow> 'e list \<Rightarrow> nat option" where
  "vacant key reg = find (\<lambda>i. key (reg ! i) = 0) [0..<length reg]"

definition indexIn :: "('e \<Rightarrow> u64) \<Rightarrow> u64 \<Rightarrow> 'e list \<Rightarrow> nat option" where
  "indexIn key this reg = find (\<lambda>i. key (reg ! i) = this \<and> key (reg ! i) \<noteq> 0) [0..<length reg]"

definition lookupIn :: "('e \<Rightarrow> u64) \<Rightarrow> u64 \<Rightarrow> 'e list \<Rightarrow> 'e option" where
  "lookupIn key this reg = find (\<lambda>e. key e = this \<and> key e \<noteq> 0) reg"

locale slot_registry =
  fixes key :: "'e \<Rightarrow> u64" and free :: 'e
  assumes key_free: "key free = 0"
begin

lemma slots_replicate: "slots_ok key (replicate n free)"
  by (simp add: slots_ok_def key_free)

lemma vacant_Some: "vacant key reg = Some i \<Longrightarrow> i < length reg \<and> key (reg ! i) = 0"
  by (auto simp: vacant_def find_Some_iff)

lemma vacant_None: "vacant key reg = None \<longleftrightarrow> (\<forall>e \<in> set reg. key e \<noteq> 0)"
  unfolding vacant_def find_None_iff all_set_conv_all_nth by simp

lemma slots_unique: "slots_ok key reg \<Longrightarrow> i < length reg \<Longrightarrow> j < i \<Longrightarrow> key (reg ! i) \<noteq> 0 \<Longrightarrow> key (reg ! j) \<noteq> key (reg ! i)"
  by (simp add: slots_ok_def)

lemma slots_eq:
  "slots_ok key reg \<Longrightarrow> i < length reg \<Longrightarrow> j < length reg \<Longrightarrow> key (reg ! i) = key (reg ! j) \<Longrightarrow> key (reg ! i) \<noteq> 0 \<Longrightarrow> i = j"
  using slots_unique [of reg i j] slots_unique [of reg j i] by (metis nat_neq_iff)

lemma index_Some:
  assumes "slots_ok key reg"
  shows "indexIn key this reg = Some i \<longleftrightarrow> i < length reg \<and> key (reg ! i) = this \<and> this \<noteq> 0"
proof
  assume "i < length reg \<and> key (reg ! i) = this \<and> this \<noteq> 0"
  then show "indexIn key this reg = Some i"
    using slots_unique [OF assms] unfolding indexIn_def find_Some_iff by (auto intro!: exI [of _ i])
qed (auto simp: indexIn_def find_Some_iff)

lemma index_None: "indexIn key this reg = None \<longleftrightarrow> this = 0 \<or> this \<notin> key ` set reg"
  by (auto simp: indexIn_def find_None_iff image_iff in_set_conv_nth Bex_def)

lemma lookup_index: "slots_ok key reg \<Longrightarrow> lookupIn key this reg = map_option (nth reg) (indexIn key this reg)"
proof (cases "indexIn key this reg")
  case None
  then have "lookupIn key this reg = None" unfolding index_None by (auto simp: lookupIn_def find_None_iff)
  then show ?thesis using None by simp
next
  case (Some i)
  assume ok: "slots_ok key reg"
  then have i: "i < length reg" "key (reg ! i) = this" "this \<noteq> 0" using Some by (simp_all add: index_Some)
  then have "\<forall>j<i. key (reg ! j) \<noteq> this"
    using slots_unique [OF ok] by auto
  then show ?thesis using i Some by (auto simp: lookupIn_def find_Some_iff intro!: exI [of _ i])
qed

lemma lookup_Some:
  "slots_ok key reg \<Longrightarrow> lookupIn key this reg = Some e \<longleftrightarrow> (\<exists>i<length reg. reg ! i = e \<and> key e = this \<and> this \<noteq> 0)"
  by (auto simp: lookup_index index_Some)

lemma slots_claim:
  assumes "slots_ok key reg" "key e \<notin> key ` set reg"
  shows "slots_ok key (reg[i := e])"
proof (cases "i < length reg")
  case True
  have "key (reg ! j) \<noteq> key e" if "j < length reg" for j
    using assms(2) that by (metis imageI nth_mem)
  then show ?thesis
    using assms(1) True by (auto simp: slots_ok_def nth_list_update) metis
qed (simp add: assms list_update_beyond)

lemma slots_release: "slots_ok key reg \<Longrightarrow> slots_ok key (reg[i := free])"
  by (cases "i < length reg") (auto simp: slots_ok_def nth_list_update list_update_beyond key_free)

lemma slots_touch: "slots_ok key reg \<Longrightarrow> key e = key (reg ! i) \<Longrightarrow> slots_ok key (reg[i := e])"
  by (cases "i < length reg") (auto simp: slots_ok_def nth_list_update list_update_beyond)

lemma slots_release_all: "slots_ok key reg \<Longrightarrow> slots_ok key (map (\<lambda>e. if P e then free else e) reg)"
  by (auto simp: slots_ok_def key_free split: if_splits)

end

end
