(* ===== verification/Block_Io.thy ===== *)
theory Block_Io
  imports Slot_Registry
begin

text \<open>
  The published block device, \<^verbatim>\<open>uefiboard/block_io_publish.go\<close>, \<^verbatim>\<open>block_io_publish_handlers.go\<close> and
  \<^verbatim>\<open>block_io_publish_tamago.go\<close>: a registry of disk images in memory and the handlers that firmware calls
  on them. An image is an area of memory, a Go slice by its address and length. The addresses the Go
  allocator returns and the outcome of the firmware's install call are arguments.
\<close>

definition BlockIOLogicalBlockSize :: u64 where "BlockIOLogicalBlockSize = 512"
definition blockIOPublishRegistrySize :: nat where "blockIOPublishRegistrySize = 4"

definition blockIOEFISuccess :: u64 where "blockIOEFISuccess = 0"
definition blockIOEFIInvalidParameter :: u64 where "blockIOEFIInvalidParameter = 0x8000000000000002"
definition blockIOEFINotFound :: u64 where "blockIOEFINotFound = 0x800000000000000E"
definition blockIOEFIWriteProtected :: u64 where "blockIOEFIWriteProtected = 0x8000000000000008"
definition blockIOEFIBadBufferSize :: u64 where "blockIOEFIBadBufferSize = 0x8000000000000005"

record EFIBlockIOMedia =
  bm_MediaId :: u32
  bm_MediaPresent :: bool
  bm_LogicalPartition :: bool
  bm_ReadOnly :: bool
  bm_BlockSize :: u32
  bm_LastBlock :: u64

record blockIOPublishEntry =
  be_proto :: u64
  be_media :: u64
  be_body :: u64
  be_size :: u64
  be_mediaKeepAlive :: "EFIBlockIOMedia option"

definition freeEntry :: blockIOPublishEntry where
  "freeEntry = \<lparr>be_proto = 0, be_media = 0, be_body = 0, be_size = 0, be_mediaKeepAlive = None\<rparr>"

section \<open>Handlers\<close>

definition blockIOLookup :: "u64 \<Rightarrow> blockIOPublishEntry list \<Rightarrow> blockIOPublishEntry option" where
  "blockIOLookup this reg = find (\<lambda>e. be_proto e = this \<and> be_proto e \<noteq> 0) reg"

definition blockIOResetGo :: "u64 \<Rightarrow> blockIOPublishEntry list \<Rightarrow> u64" where
  "blockIOResetGo this reg = (if blockIOLookup this reg = None then blockIOEFINotFound else blockIOEFISuccess)"

text \<open>The byte loop: it counts up, so it matters where source and destination overlap.\<close>

primrec copyBytes :: "nat \<Rightarrow> u64 \<Rightarrow> u64 \<Rightarrow> mem \<Rightarrow> mem" where
  "copyBytes 0 dst src m = m"
| "copyBytes (Suc n) dst src m = copyBytes n (dst + 1) (src + 1) (m(dst := m src))"

definition blockIOReadBlocksGo ::
  "u64 \<Rightarrow> u64 \<Rightarrow> u64 \<Rightarrow> u64 \<Rightarrow> u64 \<Rightarrow> blockIOPublishEntry list \<Rightarrow> mem \<Rightarrow> u64 \<times> mem" where
  "blockIOReadBlocksGo this mediaID lba bufferSize buffer reg m =
     (case blockIOLookup this reg of
        None \<Rightarrow> (blockIOEFINotFound, m)
      | Some ent \<Rightarrow>
          if bufferSize = 0 then (blockIOEFISuccess, m)
          else if bufferSize mod BlockIOLogicalBlockSize \<noteq> 0 then (blockIOEFIBadBufferSize, m)
          else if buffer = 0 then (blockIOEFIInvalidParameter, m)
          else let off = lba * BlockIOLogicalBlockSize in
          if off > be_size ent then (blockIOEFIInvalidParameter, m)
          else let endOff = off + bufferSize in
          if endOff > be_size ent \<or> endOff < off then (blockIOEFIInvalidParameter, m)
          else (blockIOEFISuccess, copyBytes (unat bufferSize) buffer (be_body ent + off) m))"

definition blockIOWriteBlocksGo :: "u64 \<Rightarrow> u64 \<Rightarrow> u64 \<Rightarrow> u64 \<Rightarrow> u64 \<Rightarrow> blockIOPublishEntry list \<Rightarrow> mem \<Rightarrow> u64 \<times> mem" where
  "blockIOWriteBlocksGo this mediaID lba bufferSize buffer reg m =
     (if blockIOLookup this reg = None then (blockIOEFINotFound, m) else (blockIOEFIWriteProtected, m))"

definition blockIOFlushBlocksGo :: "u64 \<Rightarrow> blockIOPublishEntry list \<Rightarrow> u64" where
  "blockIOFlushBlocksGo this reg = (if blockIOLookup this reg = None then blockIOEFINotFound else blockIOEFISuccess)"

section \<open>Publishing\<close>

record blockIOState =
  bs_registry :: "blockIOPublishEntry list"
  bs_published :: "u64 \<rightharpoonup> nat"

definition emptyBlockIO :: blockIOState where
  "emptyBlockIO = \<lparr>bs_registry = replicate blockIOPublishRegistrySize freeEntry, bs_published = Map.empty\<rparr>"

definition freeSlot :: "blockIOPublishEntry list \<Rightarrow> nat option" where
  "freeSlot reg = find (\<lambda>i. be_proto (reg ! i) = 0) [0..<length reg]"

text \<open>
  \<open>bootServices\<close> is the table captured at start, zero when there is none; \<open>install\<close> is the firmware's
  answer, a status that is not success or the handle; \<open>protocol\<close> and \<open>media\<close> are fresh addresses.
\<close>

definition publishedEntry :: "u64 \<Rightarrow> u64 \<Rightarrow> u64 \<Rightarrow> nat \<Rightarrow> blockIOPublishEntry" where
  "publishedEntry protocol media imageBase imageLen =
     \<lparr>be_proto = protocol, be_media = media, be_body = imageBase, be_size = of_nat imageLen,
      be_mediaKeepAlive = Some \<lparr>bm_MediaId = 1, bm_MediaPresent = True, bm_LogicalPartition = False,
        bm_ReadOnly = True, bm_BlockSize = 512, bm_LastBlock = of_nat imageLen div BlockIOLogicalBlockSize - 1\<rparr>\<rparr>"

definition PublishBlockIO ::
  "u64 \<Rightarrow> u64 + u64 \<Rightarrow> u64 \<Rightarrow> u64 \<Rightarrow> u64 \<Rightarrow> nat \<Rightarrow> blockIOState \<Rightarrow> (efi_error + u64) \<times> blockIOState" where
  "PublishBlockIO bootServices install protocol media imageBase imageLen s =
     (if imageLen = 0 then (Inl ErrEmptyBlockImage, s)
      else if imageLen mod unat BlockIOLogicalBlockSize \<noteq> 0 then (Inl ErrBlockIOImageNotAligned, s)
      else if bootServices = 0 then (Inl ErrNoBootServices, s)
      else case freeSlot (bs_registry s) of
        None \<Rightarrow> (Inl ErrBlockIORegistryFull, s)
      | Some slot \<Rightarrow>
          let s1 = s\<lparr>bs_registry := (bs_registry s)[slot := publishedEntry protocol media imageBase imageLen]\<rparr> in
          (case install of
             Inl status \<Rightarrow> (Inl (EFIError status ''InstallMultipleProtocolInterfaces(BlockIO+DevicePath)''),
                            s1\<lparr>bs_registry := (bs_registry s1)[slot := freeEntry]\<rparr>)
           | Inr handle \<Rightarrow> (Inr handle, s1\<lparr>bs_published := (bs_published s1)(handle \<mapsto> slot)\<rparr>)))"

definition UnpublishBlockIO :: "u64 \<Rightarrow> u64 option \<Rightarrow> u64 \<Rightarrow> blockIOState \<Rightarrow> efi_error option \<times> blockIOState" where
  "UnpublishBlockIO bootServices uninstall handle s =
     (if handle = 0 then (Some ErrBlockIONotPublished, s)
      else case bs_published s handle of
        None \<Rightarrow> (Some ErrBlockIONotPublished, s)
      | Some slot \<Rightarrow>
          if bootServices = 0 then (Some ErrNoBootServices, s)
          else case uninstall of
            Some status \<Rightarrow> (Some (EFIError status ''UninstallMultipleProtocolInterfaces(BlockIO+DevicePath)''), s)
          | None \<Rightarrow>
              (None, s\<lparr>bs_registry := (if slot < blockIOPublishRegistrySize then (bs_registry s)[slot := freeEntry] else bs_registry s),
                       bs_published := (bs_published s)(handle := None)\<rparr>))"

section \<open>The registry\<close>

text \<open>
  The registry keeps its four slots, a handle that is out points to a live entry, no entry serves two
  handles, and no two live entries have the same protocol address.
\<close>

definition block_io_ok :: "blockIOState \<Rightarrow> bool" where
  "block_io_ok s =
     (length (bs_registry s) = blockIOPublishRegistrySize \<and> inj_on (bs_published s) (dom (bs_published s)) \<and>
      (\<forall>h i. bs_published s h = Some i \<longrightarrow> i < blockIOPublishRegistrySize \<and> be_proto (bs_registry s ! i) \<noteq> 0) \<and>
      slots_ok be_proto (bs_registry s))"

interpretation block_slots: slot_registry be_proto freeEntry
  by unfold_locales (simp add: freeEntry_def)

lemma blockIOLookup_slots: "blockIOLookup this reg = lookupIn be_proto this reg"
  by (simp add: blockIOLookup_def lookupIn_def)

lemma freeSlot_slots: "freeSlot reg = vacant be_proto reg"
  by (simp add: freeSlot_def vacant_def)

lemma freeSlot_Some: "freeSlot reg = Some i \<Longrightarrow> i < length reg \<and> be_proto (reg ! i) = 0"
  by (simp add: freeSlot_slots block_slots.vacant_Some)

lemma block_io_ok_empty [simp]: "block_io_ok emptyBlockIO"
  by (auto simp: block_io_ok_def emptyBlockIO_def freeEntry_def block_slots.slots_replicate [unfolded freeEntry_def])

lemma block_io_ok_publish:
  assumes "block_io_ok s" "protocol \<notin> be_proto ` set (bs_registry s)" "protocol \<noteq> 0"
    and "\<And>h. install = Inr h \<Longrightarrow> bs_published s h = None"
  shows "block_io_ok (snd (PublishBlockIO bsv install protocol media base len s))"
proof (cases "fst (PublishBlockIO bsv install protocol media base len s)")
  case (Inl e)
  then have "snd (PublishBlockIO bsv install protocol media base len s) = s \<or>
      (\<exists>slot. freeSlot (bs_registry s) = Some slot \<and>
        snd (PublishBlockIO bsv install protocol media base len s) = s\<lparr>bs_registry := (bs_registry s)[slot := freeEntry]\<rparr>)"
    by (auto simp: PublishBlockIO_def Let_def split: option.splits sum.splits if_splits)
  then show ?thesis
    using assms(1)
    by (auto simp: block_io_ok_def nth_list_update freeEntry_def block_slots.slots_release [unfolded freeEntry_def]
        dest!: freeSlot_Some split: if_splits)
next
  case (Inr h)
  then obtain slot where slot: "freeSlot (bs_registry s) = Some slot" "bs_published s h = None"
      "snd (PublishBlockIO bsv install protocol media base len s) =
        s\<lparr>bs_registry := (bs_registry s)[slot := publishedEntry protocol media base len], bs_published := (bs_published s)(h \<mapsto> slot)\<rparr>"
    using assms(4) by (auto simp: PublishBlockIO_def Let_def split: option.splits sum.splits if_splits)
  then have free: "slot < length (bs_registry s)" "be_proto (bs_registry s ! slot) = 0"
    using freeSlot_Some by auto
  have "slots_ok be_proto ((bs_registry s)[slot := publishedEntry protocol media base len])"
    using assms(1,2) by (intro block_slots.slots_claim) (auto simp: block_io_ok_def publishedEntry_def)
  then show ?thesis
    using assms(1,3) slot free unfolding block_io_ok_def
    by (auto simp: nth_list_update inj_on_def dom_def publishedEntry_def split: if_splits)
qed

lemma block_io_ok_unpublish: "block_io_ok s \<Longrightarrow> block_io_ok (snd (UnpublishBlockIO bsv uninstall h s))"
  unfolding block_io_ok_def UnpublishBlockIO_def
  by (auto simp: nth_list_update inj_on_def dom_def block_slots.slots_release split: option.splits if_splits)

lemma blockIOLookup_live:
  assumes "block_io_ok s" "i < blockIOPublishRegistrySize" "be_proto (bs_registry s ! i) \<noteq> 0"
  shows "blockIOLookup (be_proto (bs_registry s ! i)) (bs_registry s) = Some (bs_registry s ! i)"
  using assms by (auto simp: blockIOLookup_slots block_io_ok_def block_slots.lookup_Some)

section \<open>Reading\<close>

lemma copyBytes_apart:
  "apart dst n src n \<Longrightarrow> n < 2 ^ 64 \<Longrightarrow> copyBytes n dst src m = writeMem dst (readMem m src n) m"
proof (induction n arbitrary: dst src m)
  case (Suc n)
  have a: "apart (dst + 1) n (src + 1) n"
    using Suc.prems(1) by (simp add: apart_def)
  have "readMem (m(dst := m src)) (src + 1) n = readMem m (src + 1) n"
  proof (rule nth_equalityI)
    fix i assume "i < length (readMem (m(dst := m src)) (src + 1) n)"
    then have i: "i < n" by simp
    then have "Suc n \<le> unat (src + of_nat (Suc i) - dst)"
      using apart_offset [OF Suc.prems(1), of "Suc i"] Suc.prems(2) by simp
    then have "src + of_nat (Suc i) \<noteq> dst" by auto
    then show "readMem (m(dst := m src)) (src + 1) n ! i = readMem m (src + 1) n ! i"
      using i by (simp add: add.assoc)
  qed simp
  then show ?case
    using Suc.prems(2) by (simp add: readMem_Suc writeMem_Cons Suc.IH [OF a] fun_upd_def)
qed (simp add: readMem_def)

lemma lba_offset: "unat lba < 2 ^ 55 \<Longrightarrow> unat (lba * BlockIOLogicalBlockSize) = unat lba * 512"
  by (simp add: BlockIOLogicalBlockSize_def unat_word_ariths)

lemma bufferSize_mod: "bufferSize mod BlockIOLogicalBlockSize = 0 \<longleftrightarrow> unat bufferSize mod 512 = 0"
  by (simp add: BlockIOLogicalBlockSize_def word_unat_eq_iff unat_mod)

text \<open>What a read of an entry does, for a block address that fits.\<close>

lemma blockIOReadBlocks_entry:
  assumes ent: "blockIOLookup this reg = Some ent" and lba: "unat lba < 2 ^ 55"
    and sep: "apart buffer (unat bufferSize) (be_body ent) (unat (be_size ent))"
    and sz: "unat (be_size ent) < 2 ^ 63"
  shows "blockIOReadBlocksGo this mediaID lba bufferSize buffer reg m =
    (let n = unat bufferSize; off = unat lba * 512; len = unat (be_size ent) in
     if n = 0 then (blockIOEFISuccess, m)
     else if n mod 512 \<noteq> 0 then (blockIOEFIBadBufferSize, m)
     else if buffer = 0 \<or> off + n > len then (blockIOEFIInvalidParameter, m)
     else (blockIOEFISuccess, writeMem buffer (slice (readMem m (be_body ent) len) off (off + n)) m))"
proof (cases "unat lba * 512 + unat bufferSize \<le> unat (be_size ent)")
  case True
  let ?off = "lba * BlockIOLogicalBlockSize"
  have e: "unat (?off + bufferSize) = unat lba * 512 + unat bufferSize"
    using True sz lba_offset [OF lba] by (simp add: unat_word_ariths)
  have c: "\<not> ?off > be_size ent" "\<not> ?off + bufferSize > be_size ent" "\<not> ?off + bufferSize < ?off"
    using True e lba_offset [OF lba] by (simp_all add: word_less_nat_alt)
  have o: "of_nat (unat lba * 512) = ?off"
    by (simp add: BlockIOLogicalBlockSize_def)
  have "copyBytes (unat bufferSize) buffer (be_body ent + ?off) m =
      writeMem buffer (slice (readMem m (be_body ent) (unat (be_size ent))) (unat lba * 512) (unat lba * 512 + unat bufferSize)) m"
    if "0 < unat bufferSize"
    using copyBytes_apart [of buffer "unat bufferSize" "be_body ent + ?off" m] apart_sub [OF sep True that] sz True
    by (simp add: slice_readMem o del: of_nat_mult)
  then show ?thesis
    using c True by (auto simp: blockIOReadBlocksGo_def ent bufferSize_mod Let_def unat_eq_0 unat_gt_0)
next
  case False
  let ?off = "lba * BlockIOLogicalBlockSize"
  have "unat (?off + bufferSize) = unat lba * 512 + unat bufferSize \<or> unat (?off + bufferSize) < unat ?off"
    using lba_offset [OF lba] unsigned_less [where w = bufferSize and 'a = nat]
    by (auto simp: unat_plus_if_size word_size)
  then have "?off + bufferSize > be_size ent \<or> ?off + bufferSize < ?off"
    using False by (auto simp: word_less_nat_alt)
  then show ?thesis
    using False by (auto simp: blockIOReadBlocksGo_def ent bufferSize_mod Let_def unat_eq_0)
qed

section \<open>Properties\<close>

lemma PublishBlockIO_lookup:
  assumes "block_io_ok s" "protocol \<notin> be_proto ` set (bs_registry s)" "protocol \<noteq> 0" "bs_published s h = None"
    and "PublishBlockIO bsv (Inr h) protocol media base len s = (Inr h', s')"
  shows "blockIOLookup protocol (bs_registry s') = Some (publishedEntry protocol media base len)"
proof -
  have ok: "block_io_ok s'"
    using block_io_ok_publish [OF assms(1-3), of "Inr h"] assms(4,5) by (metis sum.inject(2) snd_conv)
  obtain slot where slot: "freeSlot (bs_registry s) = Some slot"
      "bs_registry s' = (bs_registry s)[slot := publishedEntry protocol media base len]"
    using assms(5) by (auto simp: PublishBlockIO_def Let_def split: option.splits if_splits)
  then have "slot < blockIOPublishRegistrySize" "bs_registry s' ! slot = publishedEntry protocol media base len"
    using freeSlot_Some [OF slot(1)] assms(1) by (auto simp: block_io_ok_def)
  then show ?thesis
    using blockIOLookup_live [OF ok, of slot] assms(3) by (simp add: publishedEntry_def)
qed



text \<open>
  A block address wraps: the offset is computed in 64 bits, so a read at an address 2^55 blocks further
  returns the same bytes with success instead of being refused as beyond the device.
\<close>

lemma block_io_lba_wraps:
  "blockIOReadBlocksGo this mediaID (lba + 2 ^ 55) bufferSize buffer reg m = blockIOReadBlocksGo this mediaID lba bufferSize buffer reg m"
proof -
  have "(lba + 2 ^ 55) * BlockIOLogicalBlockSize = lba * BlockIOLogicalBlockSize + 2 ^ 55 * 512"
    by (simp add: BlockIOLogicalBlockSize_def distrib_right)
  also have "(2 ^ 55 * 512 :: u64) = 0" by simp
  finally have "(lba + 2 ^ 55) * BlockIOLogicalBlockSize = lba * BlockIOLogicalBlockSize" by simp
  then show ?thesis unfolding blockIOReadBlocksGo_def by (simp only:)
qed

end
