(* ===== verification/Go_Runes.thy ===== *)
theory Go_Runes
  imports Go_Strings
begin

text \<open>
  Go's text encoding: a rune is a code point, a string holds UTF-8, \<^verbatim>\<open>string(runes)\<close> encodes and a range
  over a string decodes, where a byte that starts no valid sequence counts as U+FFFD of width one
  (package \<^verbatim>\<open>unicode/utf8\<close>).
\<close>

definition runeError :: nat where "runeError = 0xFFFD"

definition validRune :: "nat \<Rightarrow> bool" where
  "validRune r = (r < 0xD800 \<or> 0xDFFF < r \<and> r \<le> 0x10FFFF)"

definition encodeRune :: "nat \<Rightarrow> nat list" where
  "encodeRune r0 =
     (let r = (if validRune r0 then r0 else runeError) in
      if r < 0x80 then [r]
      else if r < 0x800 then [0xC0 + r div 64, 0x80 + r mod 64]
      else if r < 0x10000 then [0xE0 + r div 4096, 0x80 + r div 64 mod 64, 0x80 + r mod 64]
      else [0xF0 + r div 262144, 0x80 + r div 4096 mod 64, 0x80 + r div 64 mod 64, 0x80 + r mod 64])"

text \<open>The number of bytes that a first byte announces, and the range of the byte behind it.\<close>

definition runeSize :: "nat \<Rightarrow> nat" where
  "runeSize b = (if b < 0x80 then 1 else if 0xC2 \<le> b \<and> b \<le> 0xDF then 2
     else if 0xE0 \<le> b \<and> b \<le> 0xEF then 3 else if 0xF0 \<le> b \<and> b \<le> 0xF4 then 4 else 0)"

definition secondOk :: "nat \<Rightarrow> nat \<Rightarrow> bool" where
  "secondOk b c = ((if b = 0xE0 then 0xA0 else if b = 0xF0 then 0x90 else 0x80) \<le> c \<and>
     c \<le> (if b = 0xED then 0x9F else if b = 0xF4 then 0x8F else 0xBF))"

definition contByte :: "nat \<Rightarrow> bool" where "contByte c = (0x80 \<le> c \<and> c \<le> 0xBF)"

fun decodeRune :: "nat list \<Rightarrow> nat \<times> nat" where
  "decodeRune (b # c # d # e # r) =
     (if runeSize b = 1 then (b, 1)
      else if runeSize b = 2 \<and> secondOk b c then (b mod 32 * 64 + c mod 64, 2)
      else if runeSize b = 3 \<and> secondOk b c \<and> contByte d then (b mod 16 * 4096 + c mod 64 * 64 + d mod 64, 3)
      else if runeSize b = 4 \<and> secondOk b c \<and> contByte d \<and> contByte e
        then (b mod 8 * 262144 + c mod 64 * 4096 + d mod 64 * 64 + e mod 64, 4)
      else (runeError, 1))"
| "decodeRune [b, c, d] =
     (if runeSize b = 1 then (b, 1)
      else if runeSize b = 2 \<and> secondOk b c then (b mod 32 * 64 + c mod 64, 2)
      else if runeSize b = 3 \<and> secondOk b c \<and> contByte d then (b mod 16 * 4096 + c mod 64 * 64 + d mod 64, 3)
      else (runeError, 1))"
| "decodeRune [b, c] =
     (if runeSize b = 1 then (b, 1)
      else if runeSize b = 2 \<and> secondOk b c then (b mod 32 * 64 + c mod 64, 2)
      else (runeError, 1))"
| "decodeRune [b] = (if runeSize b = 1 then (b, 1) else (runeError, 1))"
| "decodeRune [] = (runeError, 0)"

lemma decodeRune_width: "bs \<noteq> [] \<Longrightarrow> 0 < snd (decodeRune bs)"
  by (cases bs rule: decodeRune.cases) auto

function decodeRunes :: "nat list \<Rightarrow> nat list" where
  "decodeRunes bs = (if bs = [] then [] else fst (decodeRune bs) # decodeRunes (drop (snd (decodeRune bs)) bs))"
  by pat_completeness auto
termination
  by (relation "measure length") (auto simp: decodeRune_width)

declare decodeRunes.simps [simp del]

definition runesOf :: "string \<Rightarrow> nat list" where
  "runesOf s = decodeRunes (map of_char s)"

definition stringOf :: "nat list \<Rightarrow> string" where
  "stringOf rs = map char_of (concat (map encodeRune rs))"

lemma mod_offset: "k mod n = 0 \<Longrightarrow> q < n \<Longrightarrow> (k + q) mod n = (q :: nat)"
  by (metis add_0 mod_add_left_eq mod_less)

lemmas rune_offsets = mod_offset [of "0xC0" 32] mod_offset [of "0xE0" 16] mod_offset [of "0xF0" 8] mod_offset [of "0x80" 64]

lemma decode_two:
  "0x80 \<le> r \<Longrightarrow> r < 0x800 \<Longrightarrow> runeSize (0xC0 + r div 64) = 2 \<and> secondOk (0xC0 + r div 64) (0x80 + r mod 64) \<and>
    (0xC0 + r div 64) mod 32 * 64 + (0x80 + r mod 64) mod 64 = r"
proof -
  assume r: "0x80 \<le> r" "r < 0x800"
  define q where "q = r div 64"
  define m where "m = r mod 64"
  have "r = q * 64 + m" "m < 64" by (simp_all add: q_def m_def)
  moreover from this r have "2 \<le> q" "q < 32" by simp_all
  ultimately show ?thesis
    unfolding q_def [symmetric] m_def [symmetric] by (auto simp: runeSize_def secondOk_def rune_offsets)
qed

lemma decode_three:
  assumes "0x800 \<le> r" "r < 0x10000" "validRune r"
  shows "runeSize (0xE0 + r div 4096) = 3 \<and> secondOk (0xE0 + r div 4096) (0x80 + r div 64 mod 64) \<and>
    contByte (0x80 + r mod 64) \<and>
    (0xE0 + r div 4096) mod 16 * 4096 + (0x80 + r div 64 mod 64) mod 64 * 64 + (0x80 + r mod 64) mod 64 = r"
proof -
  define q where "q = r div 4096"
  define n where "n = r div 64 mod 64"
  define m where "m = r mod 64"
  have "r div 64 = q * 64 + n"
    using div_mult_mod_eq [of "r div 64" 64] div_mult2_eq [of r 64 64] by (simp add: q_def n_def)
  moreover have "r div 64 * 64 + m = r" by (simp add: m_def)
  ultimately have e: "r = q * 4096 + n * 64 + m" "m < 64" "n < 64"
    by (linarith, simp_all add: m_def n_def)
  moreover from this assms have "q < 16" "q = 0 \<longrightarrow> 32 \<le> n" "q = 13 \<longrightarrow> n < 32"
    by (auto simp: validRune_def)
  ultimately show ?thesis
    unfolding q_def [symmetric] n_def [symmetric] m_def [symmetric]
    by (auto simp: runeSize_def secondOk_def contByte_def rune_offsets)
qed

lemma decode_four:
  assumes "0x10000 \<le> r" "r \<le> 0x10FFFF"
  shows "runeSize (0xF0 + r div 262144) = 4 \<and> secondOk (0xF0 + r div 262144) (0x80 + r div 4096 mod 64) \<and>
    contByte (0x80 + r div 64 mod 64) \<and> contByte (0x80 + r mod 64) \<and>
    (0xF0 + r div 262144) mod 8 * 262144 + (0x80 + r div 4096 mod 64) mod 64 * 4096 +
      (0x80 + r div 64 mod 64) mod 64 * 64 + (0x80 + r mod 64) mod 64 = r"
proof -
  define q where "q = r div 262144"
  define k where "k = r div 4096 mod 64"
  define n where "n = r div 64 mod 64"
  define m where "m = r mod 64"
  have "r div 4096 = q * 64 + k" "r div 64 = r div 4096 * 64 + n"
    using div_mult_mod_eq [of "r div 4096" 64] div_mult_mod_eq [of "r div 64" 64]
      div_mult2_eq [of r 64 64] div_mult2_eq [of r 4096 64]
    by (simp_all add: q_def k_def n_def)
  moreover have "r div 64 * 64 + m = r" by (simp add: m_def)
  ultimately have e: "r = q * 262144 + k * 4096 + n * 64 + m" "m < 64" "n < 64" "k < 64"
    by (linarith, simp_all add: m_def n_def k_def)
  moreover from this assms have "q < 5" "q = 0 \<longrightarrow> 16 \<le> k" "q = 4 \<longrightarrow> k < 16"
    by auto
  ultimately show ?thesis
    unfolding q_def [symmetric] n_def [symmetric] m_def [symmetric] k_def [symmetric]
    by (auto simp: runeSize_def secondOk_def contByte_def rune_offsets)
qed

lemma decodeRune_encode:
  assumes "validRune r"
  shows "decodeRune (encodeRune r @ bs) = (r, length (encodeRune r))"
proof -
  have top: "r \<le> 0x10FFFF" using assms by (auto simp: validRune_def)
  consider "r < 0x80" | "0x80 \<le> r" "r < 0x800" | "0x800 \<le> r" "r < 0x10000" | "0x10000 \<le> r" by linarith
  then show ?thesis
  proof cases
    case 1
    then show ?thesis
      using assms by (cases bs rule: decodeRune.cases) (auto simp: encodeRune_def runeSize_def)
  next
    case 2
    then show ?thesis
      using assms decode_two [OF 2] by (cases bs rule: decodeRune.cases) (auto simp: encodeRune_def)
  next
    case 3
    then show ?thesis
      using assms decode_three [OF 3 assms] by (cases bs) (auto simp: encodeRune_def)
  next
    case 4
    then show ?thesis
      using assms decode_four [OF 4 top] by (auto simp: encodeRune_def)
  qed
qed

lemma encodeRune_nonempty [simp]: "encodeRune r \<noteq> []"
  by (simp add: encodeRune_def Let_def)

lemma decodeRunes_encode: "list_all validRune rs \<Longrightarrow> decodeRunes (concat (map encodeRune rs)) = rs"
proof (induction rs)
  case Nil
  then show ?case by (simp add: decodeRunes.simps)
next
  case (Cons r rs)
  then show ?case
    by (subst decodeRunes.simps) (simp add: decodeRune_encode)
qed

lemma encodeRune_byte: "b \<in> set (encodeRune r) \<Longrightarrow> b < 256"
proof -
  assume b: "b \<in> set (encodeRune r)"
  define r' where "r' = (if validRune r then r else runeError)"
  have "r' \<le> 0x10FFFF" by (auto simp: r'_def validRune_def runeError_def)
  then have "r' div 262144 < 8" "r' < 0x10000 \<longrightarrow> r' div 4096 < 16" "r' < 0x800 \<longrightarrow> r' div 64 < 32"
    by (simp_all add: less_mult_imp_div_less)
  with b show ?thesis
    by (auto simp: encodeRune_def Let_def simp flip: r'_def split: if_splits)
qed

lemma runesOf_stringOf [simp]: "list_all validRune rs \<Longrightarrow> runesOf (stringOf rs) = rs"
proof -
  assume v: "list_all validRune rs"
  have "map (of_char \<circ> (char_of :: nat \<Rightarrow> char)) (concat (map encodeRune rs)) = concat (map encodeRune rs)"
    by (rule map_idI) (auto dest: encodeRune_byte)
  then show ?thesis
    using decodeRunes_encode [OF v] by (simp add: runesOf_def stringOf_def comp_def)
qed

text \<open>Decoding a string gives valid runes only, whatever bytes it holds.\<close>

lemma cont_mod: "0x80 \<le> c \<Longrightarrow> c \<le> 0xBF \<Longrightarrow> c mod 64 = c - 0x80" for c :: nat
  using mod_offset [of "0x80" 64 "c - 0x80"] by simp

lemma three_bytes_valid:
  assumes "0xE0 \<le> b" "b \<le> 0xEF" "secondOk b c"
  shows "validRune (b mod 16 * 4096 + c mod 64 * 64 + d mod 64)"
proof -
  have b: "b mod 16 = b - 0xE0" using assms(1,2) mod_offset [of "0xE0" 16 "b - 0xE0"] by simp
  have c: "c mod 64 = c - 0x80" "0x80 \<le> c" "c \<le> 0xBF" "b = 0xED \<Longrightarrow> c \<le> 0x9F"
    using assms(3) by (auto simp: secondOk_def intro!: cont_mod split: if_splits)
  have d: "d mod 64 < 64" by simp
  show ?thesis
    unfolding validRune_def b c(1) using assms(1,2) c(2-4) d
    by (cases "b = 0xED"; cases "b < 0xED") auto
qed

lemma four_bytes_valid:
  assumes "0xF0 \<le> b" "b \<le> 0xF4" "secondOk b c"
  shows "validRune (b mod 8 * 262144 + c mod 64 * 4096 + d mod 64 * 64 + e mod 64)"
proof -
  have b: "b mod 8 = b - 0xF0" using assms(1,2) mod_offset [of "0xF0" 8 "b - 0xF0"] by simp
  have c: "c mod 64 = c - 0x80" "0x80 \<le> c" "c \<le> 0xBF" "b = 0xF4 \<Longrightarrow> c \<le> 0x8F" "b = 0xF0 \<Longrightarrow> 0x90 \<le> c"
    using assms(3) by (auto simp: secondOk_def intro!: cont_mod split: if_splits)
  have d: "d mod 64 < 64" "e mod 64 < 64" by simp_all
  show ?thesis
    unfolding validRune_def b c(1) using assms(1,2) c(2-5) d
    by (cases "b = 0xF4"; cases "b = 0xF0") auto
qed

lemma one_byte_valid: "runeSize b = 1 \<Longrightarrow> validRune b"
  by (simp add: runeSize_def validRune_def split: if_splits)

lemma two_bytes_valid: "validRune (b mod 32 * 64 + c mod 64)"
proof -
  have "b mod 32 < 32" "c mod 64 < 64" by simp_all
  then have "b mod 32 * 64 + c mod 64 < 0xD800" by linarith
  then show ?thesis by (simp add: validRune_def)
qed

lemma runeError_valid: "validRune runeError"
  by (simp add: validRune_def runeError_def)

lemma runeSize_range: "runeSize b = 3 \<Longrightarrow> 0xE0 \<le> b \<and> b \<le> 0xEF" "runeSize b = 4 \<Longrightarrow> 0xF0 \<le> b \<and> b \<le> 0xF4"
  by (simp_all add: runeSize_def split: if_splits)

lemma decodeRune_valid: "bs \<noteq> [] \<Longrightarrow> validRune (fst (decodeRune bs))"
  by (cases bs rule: decodeRune.cases)
    (simp_all add: one_byte_valid two_bytes_valid runeError_valid three_bytes_valid four_bytes_valid runeSize_range)

lemma runesOf_valid: "list_all validRune (runesOf s)"
proof -
  have "list_all validRune (decodeRunes bs)" for bs
  proof (induction bs rule: decodeRunes.induct)
    case (1 bs)
    then show ?case by (subst decodeRunes.simps) (simp add: decodeRune_valid)
  qed
  then show ?thesis by (simp add: runesOf_def)
qed

end
