(* ===== verification/Sfs.thy ===== *)
theory Sfs
  imports Efi_Memory Go_Runes
begin

unbundle bit_operations_syntax

text \<open>
  The published file system, \<^verbatim>\<open>uefiboard/sfs_publish.go\<close>, \<^verbatim>\<open>sfs_publish_handlers.go\<close> and
  \<^verbatim>\<open>sfs_publish_tamago.go\<close>: registries of volumes and of open files, and the handlers that a loader calls
  on them through firmware pointers. The backing file system is a third-party interface and thus a
  parameter; the addresses the Go allocator returns are arguments.
\<close>

section \<open>State\<close>

definition sfsEFISuccess :: u64 where "sfsEFISuccess = 0"
definition sfsEFIInvalidParameter :: u64 where "sfsEFIInvalidParameter = 0x8000000000000002"
definition sfsEFIUnsupported :: u64 where "sfsEFIUnsupported = 0x8000000000000003"
definition sfsEFIBufferTooSmall :: u64 where "sfsEFIBufferTooSmall = 0x8000000000000005"
definition sfsEFIDeviceError :: u64 where "sfsEFIDeviceError = 0x8000000000000007"
definition sfsEFIWriteProtected :: u64 where "sfsEFIWriteProtected = 0x8000000000000008"
definition sfsEFIOutOfResources :: u64 where "sfsEFIOutOfResources = 0x8000000000000009"
definition sfsEFINotFound :: u64 where "sfsEFINotFound = 0x800000000000000E"
definition sfsEFIWarnDeleteFailure :: u64 where "sfsEFIWarnDeleteFailure = 2"

definition sfsFileAttrReadOnly :: u64 where "sfsFileAttrReadOnly = 0x01"
definition sfsFileAttrDirectory :: u64 where "sfsFileAttrDirectory = 0x10"
definition sfsFileModeRead :: u64 where "sfsFileModeRead = 1"
definition sfsFileModeWrite :: u64 where "sfsFileModeWrite = 2"
definition sfsFileModeCreate :: u64 where "sfsFileModeCreate = 0x8000000000000000"
definition sfsPositionEnd :: u64 where "sfsPositionEnd = 0xFFFFFFFFFFFFFFFF"
definition sfsPublishRegistrySize :: nat where "sfsPublishRegistrySize = 4"
definition sfsFileHandleRegistrySize :: nat where "sfsFileHandleRegistrySize = 32"

text \<open>
  The interface \<^verbatim>\<open>filesystem.Filesystem\<close> as far as the handlers use it; \<open>None\<close> is an error. \<open>fs_Stat\<close>
  gives mode and size, an entry of \<open>fs_ListDir\<close> is name, inode and file type.
\<close>

record filesystem =
  fs_Stat :: "string \<Rightarrow> (u16 \<times> u64) option"
  fs_ListDir :: "string \<Rightarrow> (string \<times> u64 \<times> u8) list option"
  fs_ReadFile :: "string \<Rightarrow> bytes option"

record sfsPublishEntry =
  pe_proto :: u64
  pe_rootFileProto :: u64
  pe_fs :: filesystem

record dirEntryCached =
  dc_name :: string
  dc_inode :: u64
  dc_isDir :: bool
  dc_size :: u64
  dc_mode :: u16

record sfsFileHandleEntry =
  fh_proto :: u64
  fh_owner :: u64
  fh_path :: string
  fh_isDir :: bool
  fh_pos :: u64
  fh_body :: "bytes option"
  fh_bodyErr :: bool
  fh_dirents :: "dirEntryCached list option"
  fh_direntI :: nat

record sfsState =
  ss_publish :: "sfsPublishEntry list"
  ss_handles :: "sfsFileHandleEntry list"
  ss_published :: "u64 \<rightharpoonup> u64 \<times> nat"

definition freeVolume :: sfsPublishEntry where
  "freeVolume = \<lparr>pe_proto = 0, pe_rootFileProto = 0,
     pe_fs = \<lparr>fs_Stat = (\<lambda>_. None), fs_ListDir = (\<lambda>_. None), fs_ReadFile = (\<lambda>_. None)\<rparr>\<rparr>"

definition freeHandle :: sfsFileHandleEntry where
  "freeHandle = \<lparr>fh_proto = 0, fh_owner = 0, fh_path = [], fh_isDir = False, fh_pos = 0, fh_body = None,
     fh_bodyErr = False, fh_dirents = None, fh_direntI = 0\<rparr>"

definition emptySFS :: sfsState where
  "emptySFS = \<lparr>ss_publish = replicate sfsPublishRegistrySize freeVolume,
     ss_handles = replicate sfsFileHandleRegistrySize freeHandle, ss_published = Map.empty\<rparr>"

section \<open>Lookups\<close>

definition sfsPublishLookup :: "u64 \<Rightarrow> sfsState \<Rightarrow> sfsPublishEntry option" where
  "sfsPublishLookup this s = find (\<lambda>e. pe_proto e = this \<and> pe_proto e \<noteq> 0) (ss_publish s)"

definition sfsFileHandleLookup :: "u64 \<Rightarrow> sfsState \<Rightarrow> nat option" where
  "sfsFileHandleLookup this s =
     find (\<lambda>i. fh_proto (ss_handles s ! i) = this \<and> fh_proto (ss_handles s ! i) \<noteq> 0) [0..<length (ss_handles s)]"

definition sfsAllocFileHandle :: "sfsState \<Rightarrow> nat option" where
  "sfsAllocFileHandle s = find (\<lambda>i. fh_proto (ss_handles s ! i) = 0) [0..<length (ss_handles s)]"

section \<open>Names and paths\<close>

primrec readUCS2Loop :: "nat \<Rightarrow> u64 \<Rightarrow> mem \<Rightarrow> nat list" where
  "readUCS2Loop 0 p m = []"
| "readUCS2Loop (Suc n) p m =
     (let w = unat (readU16 m p) in
      if w = 0 then []
      else (if 0xD800 \<le> w \<and> w \<le> 0xDFFF then of_char CHR ''?'' else w) # readUCS2Loop n (p + 2) m)"

definition sfsReadUCS2 :: "u64 \<Rightarrow> mem \<Rightarrow> string" where
  "sfsReadUCS2 p m = (if p = 0 then [] else stringOf (readUCS2Loop 65536 p m))"

fun writeUCS2Loop :: "nat list \<Rightarrow> nat \<Rightarrow> bytes" where
  "writeUCS2Loop [] room = (if 2 \<le> room then [0, 0] else [])"
| "writeUCS2Loop (r # rs) room =
     (if room < 2 then []
      else putLE16 (of_nat (if r > 0xFFFF then of_char CHR ''?'' else r)) @ writeUCS2Loop rs (room - 2))"

definition sfsWriteUCS2 :: "string \<Rightarrow> nat \<Rightarrow> bytes" where
  "sfsWriteUCS2 s room = writeUCS2Loop (runesOf s) room"

definition pathStep :: "string \<Rightarrow> string list \<Rightarrow> string list" where
  "pathStep p stack =
     (if p = [] \<or> p = ''.'' then stack
      else if p = ''..'' then (if stack \<noteq> [] then butlast stack else stack)
      else stack @ [p])"

definition sfsJoinPath :: "string \<Rightarrow> string \<Rightarrow> string" where
  "sfsJoinPath cur name =
     (let inp = map (\<lambda>c. if c = CHR 0x5C then CHR ''/'' else c) name;
          stack = (if HasPrefix inp ''/'' then []
                   else filter (\<lambda>p. p \<noteq> []) (Split (TrimPrefix cur ''/'') (CHR ''/'')));
          stack' = fold pathStep (Split inp (CHR ''/'')) stack in
      if stack' = [] then ''/'' else ''/'' @ Join stack' (CHR ''/''))"

definition sfsBaseName :: "string \<Rightarrow> string" where
  "sfsBaseName path =
     (if path = [] \<or> path = ''/'' then []
      else case LastIndexByte path (CHR ''/'') of
        Some i \<Rightarrow> drop (i + 1) path
      | None \<Rightarrow> path)"

section \<open>Directory entries and file information\<close>

definition isDirMode :: "u16 \<Rightarrow> bool" where "isDirMode mode = (mode AND 0xF000 = 0x4000)"

definition direntOf :: "filesystem \<Rightarrow> string \<Rightarrow> string \<times> u64 \<times> u8 \<Rightarrow> dirEntryCached" where
  "direntOf fs path e =
     (case e of (name, inode, ftype) \<Rightarrow>
        (case fs_Stat fs (sfsJoinPath path name) of
           Some (mode, sz) \<Rightarrow>
             \<lparr>dc_name = name, dc_inode = inode, dc_isDir = isDirMode mode, dc_size = sz, dc_mode = mode\<rparr>
         | None \<Rightarrow> \<lparr>dc_name = name, dc_inode = inode, dc_isDir = (ftype = 4), dc_size = 0, dc_mode = 0\<rparr>))"

definition sfsLoadDirents :: "filesystem \<Rightarrow> string \<Rightarrow> sfsFileHandleEntry \<Rightarrow> sfsFileHandleEntry option" where
  "sfsLoadDirents fs path slot =
     (case fs_ListDir fs path of
        None \<Rightarrow> None
      | Some entries \<Rightarrow>
          Some (slot\<lparr>fh_dirents := Some (map (direntOf fs path) (filter (\<lambda>e. fst e \<noteq> ''.'' \<and> fst e \<noteq> ''..'') entries)),
                     fh_direntI := 0\<rparr>))"

definition sfsFileInfoHeaderSize :: nat where "sfsFileInfoHeaderSize = 80"

definition sfsFileInfoSizeForName :: "string \<Rightarrow> nat" where
  "sfsFileInfoSizeForName name = sfsFileInfoHeaderSize + 2 * (length (runesOf name) + 1)"

text \<open>The bytes needed, and the structure when the destination has room for it.\<close>

definition sfsWriteFileInfo :: "nat \<Rightarrow> string \<Rightarrow> u64 \<Rightarrow> u64 \<Rightarrow> nat \<times> bytes option" where
  "sfsWriteFileInfo room name sz attr =
     (let total = sfsFileInfoSizeForName name in
      if room < total then (total, None)
      else (total, Some (putLE64 (of_nat total) @ putLE64 sz @ putLE64 sz @ replicate 48 0 @ putLE64 attr @
                         sfsWriteUCS2 name (total - sfsFileInfoHeaderSize))))"

section \<open>Handlers\<close>

definition setHandle :: "nat \<Rightarrow> sfsFileHandleEntry \<Rightarrow> sfsState \<Rightarrow> sfsState" where
  "setHandle i h s = s\<lparr>ss_handles := (ss_handles s)[i := h]\<rparr>"

definition sfsOpenVolumeGo :: "u64 \<Rightarrow> u64 \<Rightarrow> sfsState \<Rightarrow> mem \<Rightarrow> u64 \<times> mem" where
  "sfsOpenVolumeGo this outRoot s m =
     (case sfsPublishLookup this s of
        None \<Rightarrow> (sfsEFINotFound, m)
      | Some ent \<Rightarrow>
          if outRoot = 0 then (sfsEFIInvalidParameter, m)
          else (sfsEFISuccess, writeU64 outRoot (pe_rootFileProto ent) m))"

definition sfsFileOpenGo ::
  "u64 \<Rightarrow> u64 \<Rightarrow> u64 \<Rightarrow> u64 \<Rightarrow> u64 \<Rightarrow> u64 \<Rightarrow> sfsState \<Rightarrow> mem \<Rightarrow> u64 \<times> sfsState \<times> mem" where
  "sfsFileOpenGo addr this outNew fileName openMode attributes s m =
     (case sfsFileHandleLookup this s of
        None \<Rightarrow> (sfsEFINotFound, s, m)
      | Some i \<Rightarrow>
          let parent = ss_handles s ! i in
          (case sfsPublishLookup (fh_owner parent) s of
             None \<Rightarrow> (sfsEFINotFound, s, m)
           | Some owner \<Rightarrow>
               if outNew = 0 then (sfsEFIInvalidParameter, s, m)
               else if openMode AND sfsFileModeWrite \<noteq> 0 \<or> openMode AND sfsFileModeCreate \<noteq> 0 then (sfsEFIWriteProtected, s, m)
               else if openMode AND sfsFileModeRead = 0 then (sfsEFIInvalidParameter, s, m)
               else let name = sfsReadUCS2 fileName m in
               if name = [] then (sfsEFIInvalidParameter, s, m)
               else let full = sfsJoinPath (fh_path parent) name in
               (case fs_Stat (pe_fs owner) full of
                  None \<Rightarrow> (sfsEFINotFound, s, m)
                | Some (mode, _) \<Rightarrow>
                    (case sfsAllocFileHandle s of
                       None \<Rightarrow> (sfsEFIOutOfResources, s, m)
                     | Some slot \<Rightarrow>
                         (sfsEFISuccess,
                          setHandle slot (freeHandle\<lparr>fh_proto := addr, fh_owner := fh_owner parent, fh_path := full,
                            fh_isDir := isDirMode mode\<rparr>) s,
                          writeU64 outNew addr m)))))"

definition sfsFileCloseGo :: "u64 \<Rightarrow> sfsState \<Rightarrow> u64 \<times> sfsState" where
  "sfsFileCloseGo this s =
     (case sfsFileHandleLookup this s of
        None \<Rightarrow> (sfsEFISuccess, s)
      | Some i \<Rightarrow>
          (case sfsPublishLookup (fh_owner (ss_handles s ! i)) s of
             Some owner \<Rightarrow>
               if pe_rootFileProto owner \<noteq> 0 \<and> fh_proto (ss_handles s ! i) = pe_rootFileProto owner then (sfsEFISuccess, s)
               else (sfsEFISuccess, setHandle i freeHandle s)
           | None \<Rightarrow> (sfsEFISuccess, setHandle i freeHandle s)))"

definition sfsFileDeleteGo :: "u64 \<Rightarrow> sfsState \<Rightarrow> u64 \<times> sfsState" where
  "sfsFileDeleteGo this s =
     (if sfsFileHandleLookup this s = None then (sfsEFINotFound, s)
      else (sfsEFIWarnDeleteFailure, snd (sfsFileCloseGo this s)))"

text \<open>Loading the contents of a regular file once; the error is remembered.\<close>

definition loadBody :: "filesystem \<Rightarrow> sfsFileHandleEntry \<Rightarrow> bool \<times> sfsFileHandleEntry" where
  "loadBody fs slot =
     (if fh_body slot = None \<and> \<not> fh_bodyErr slot then
        (case fs_ReadFile fs (fh_path slot) of
           None \<Rightarrow> (False, slot\<lparr>fh_bodyErr := True\<rparr>)
         | Some body \<Rightarrow> (True, slot\<lparr>fh_body := Some body\<rparr>))
      else (\<not> fh_bodyErr slot, slot))"

definition readDirectory :: "filesystem \<Rightarrow> nat \<Rightarrow> u64 \<Rightarrow> u64 \<Rightarrow> sfsState \<Rightarrow> mem \<Rightarrow> u64 \<times> sfsState \<times> mem" where
  "readDirectory fs i bufferSize buffer s m =
     (let slot0 = ss_handles s ! i;
          bs = readU64 m bufferSize in
      case (if fh_dirents slot0 = None then sfsLoadDirents fs (fh_path slot0) slot0 else Some slot0) of
        None \<Rightarrow> (sfsEFIDeviceError, s, m)
      | Some slot \<Rightarrow>
          let s1 = setHandle i slot s; dirents = the (fh_dirents slot) in
          if fh_direntI slot \<ge> length dirents then (sfsEFISuccess, s1, writeU64 bufferSize 0 m)
          else let e = dirents ! fh_direntI slot;
                   attr = (if dc_isDir e then sfsFileAttrReadOnly OR sfsFileAttrDirectory else sfsFileAttrReadOnly);
                   need = sfsFileInfoSizeForName (dc_name e) in
          if unat bs < need then (sfsEFIBufferTooSmall, s1, writeU64 bufferSize (of_nat need) m)
          else if buffer = 0 then (sfsEFIInvalidParameter, s1, m)
          else case sfsWriteFileInfo need (dc_name e) (dc_size e) attr of
            (_, None) \<Rightarrow> (sfsEFIDeviceError, s1, m)
          | (written, Some info) \<Rightarrow>
              (sfsEFISuccess, setHandle i (slot\<lparr>fh_direntI := fh_direntI slot + 1\<rparr>) s1,
               writeU64 bufferSize (of_nat written) (writeMem buffer info m)))"

definition readRegular :: "filesystem \<Rightarrow> nat \<Rightarrow> u64 \<Rightarrow> u64 \<Rightarrow> sfsState \<Rightarrow> mem \<Rightarrow> u64 \<times> sfsState \<times> mem" where
  "readRegular fs i bufferSize buffer s m =
     (let bs = readU64 m bufferSize;
          (ok, slot) = loadBody fs (ss_handles s ! i);
          s1 = setHandle i slot s in
      if \<not> ok then (sfsEFIDeviceError, s1, m)
      else let body = the (fh_body slot);
               remaining = (if unat (fh_pos slot) < length body then of_nat (length body) - fh_pos slot else 0);
               want = (if bs > remaining then remaining else bs) in
      if want = 0 then (sfsEFISuccess, s1, writeU64 bufferSize 0 m)
      else if buffer = 0 then (sfsEFIInvalidParameter, s1, m)
      else (sfsEFISuccess, setHandle i (slot\<lparr>fh_pos := fh_pos slot + want\<rparr>) s1,
            writeU64 bufferSize want
              (writeMem buffer (slice body (unat (fh_pos slot)) (unat (fh_pos slot) + unat want)) m)))"

definition sfsFileReadGo :: "u64 \<Rightarrow> u64 \<Rightarrow> u64 \<Rightarrow> sfsState \<Rightarrow> mem \<Rightarrow> u64 \<times> sfsState \<times> mem" where
  "sfsFileReadGo this bufferSize buffer s m =
     (case sfsFileHandleLookup this s of
        None \<Rightarrow> (sfsEFINotFound, s, m)
      | Some i \<Rightarrow>
          if bufferSize = 0 then (sfsEFIInvalidParameter, s, m)
          else case sfsPublishLookup (fh_owner (ss_handles s ! i)) s of
            None \<Rightarrow> (sfsEFINotFound, s, m)
          | Some owner \<Rightarrow>
              if fh_isDir (ss_handles s ! i) then readDirectory (pe_fs owner) i bufferSize buffer s m
              else readRegular (pe_fs owner) i bufferSize buffer s m)"

definition sfsFileWriteGo :: "u64 \<Rightarrow> u64 \<Rightarrow> u64 \<Rightarrow> sfsState \<Rightarrow> u64" where
  "sfsFileWriteGo this bufferSize buffer s =
     (if sfsFileHandleLookup this s = None then sfsEFINotFound else sfsEFIWriteProtected)"

definition sfsFileGetPositionGo :: "u64 \<Rightarrow> u64 \<Rightarrow> sfsState \<Rightarrow> mem \<Rightarrow> u64 \<times> mem" where
  "sfsFileGetPositionGo this outPos s m =
     (case sfsFileHandleLookup this s of
        None \<Rightarrow> (sfsEFINotFound, m)
      | Some i \<Rightarrow>
          if fh_isDir (ss_handles s ! i) then (sfsEFIUnsupported, m)
          else if outPos = 0 then (sfsEFIInvalidParameter, m)
          else (sfsEFISuccess, writeU64 outPos (fh_pos (ss_handles s ! i)) m))"

definition sfsFileSetPositionGo :: "u64 \<Rightarrow> u64 \<Rightarrow> sfsState \<Rightarrow> u64 \<times> sfsState" where
  "sfsFileSetPositionGo this pos s =
     (case sfsFileHandleLookup this s of
        None \<Rightarrow> (sfsEFINotFound, s)
      | Some i \<Rightarrow>
          let slot = ss_handles s ! i in
          if fh_isDir slot then
            (if pos \<noteq> 0 then (sfsEFIUnsupported, s) else (sfsEFISuccess, setHandle i (slot\<lparr>fh_direntI := 0\<rparr>) s))
          else case sfsPublishLookup (fh_owner slot) s of
            None \<Rightarrow> (sfsEFINotFound, s)
          | Some owner \<Rightarrow>
              if pos = sfsPositionEnd then
                (case loadBody (pe_fs owner) slot of
                   (False, slot') \<Rightarrow> (sfsEFIDeviceError, setHandle i slot' s)
                 | (True, slot') \<Rightarrow> (sfsEFISuccess, setHandle i (slot'\<lparr>fh_pos := of_nat (length (the (fh_body slot')))\<rparr>) s))
              else (sfsEFISuccess, setHandle i (slot\<lparr>fh_pos := pos\<rparr>) s))"

definition EFIFileInfoGUID :: bytes where
  "EFIFileInfoGUID = putLE32 0x09576e92 @ putLE16 0x6d3f @ putLE16 0x11d2 @ [0x8e, 0x39, 0x00, 0xa0, 0xc9, 0x69, 0x72, 0x3b]"

definition sfsFileGetInfoGo :: "u64 \<Rightarrow> u64 \<Rightarrow> u64 \<Rightarrow> u64 \<Rightarrow> sfsState \<Rightarrow> mem \<Rightarrow> u64 \<times> mem" where
  "sfsFileGetInfoGo this typeGUID bufferSize buffer s m =
     (case sfsFileHandleLookup this s of
        None \<Rightarrow> (sfsEFINotFound, m)
      | Some i \<Rightarrow>
          let slot = ss_handles s ! i in
          if typeGUID = 0 \<or> bufferSize = 0 then (sfsEFIInvalidParameter, m)
          else if readMem m typeGUID 16 \<noteq> EFIFileInfoGUID then (sfsEFIUnsupported, m)
          else case sfsPublishLookup (fh_owner slot) s of
            None \<Rightarrow> (sfsEFINotFound, m)
          | Some owner \<Rightarrow>
              let name = sfsBaseName (fh_path slot);
                  attr = (if fh_isDir slot then sfsFileAttrReadOnly OR sfsFileAttrDirectory else sfsFileAttrReadOnly);
                  sz = (if fh_isDir slot then 0
                        else case fs_Stat (pe_fs owner) (fh_path slot) of
                          Some (_, n) \<Rightarrow> n
                        | None \<Rightarrow> (case fh_body slot of Some body \<Rightarrow> of_nat (length body) | None \<Rightarrow> 0));
                  need = sfsFileInfoSizeForName name;
                  room = readU64 m bufferSize in
              if unat room < need then (sfsEFIBufferTooSmall, writeU64 bufferSize (of_nat need) m)
              else if buffer = 0 then (sfsEFIInvalidParameter, m)
              else case sfsWriteFileInfo need name sz attr of
                (_, None) \<Rightarrow> (sfsEFIDeviceError, m)
              | (written, Some info) \<Rightarrow> (sfsEFISuccess, writeU64 bufferSize (of_nat written) (writeMem buffer info m)))"

definition sfsFileSetInfoGo :: "u64 \<Rightarrow> u64 \<Rightarrow> u64 \<Rightarrow> u64 \<Rightarrow> sfsState \<Rightarrow> u64" where
  "sfsFileSetInfoGo this typeGUID bufferSize buffer s =
     (if sfsFileHandleLookup this s = None then sfsEFINotFound else sfsEFIWriteProtected)"

definition sfsFileFlushGo :: "u64 \<Rightarrow> sfsState \<Rightarrow> u64" where
  "sfsFileFlushGo this s = (if sfsFileHandleLookup this s = None then sfsEFINotFound else sfsEFISuccess)"

section \<open>Publishing\<close>

text \<open>
  \<open>fs\<close> is \<open>None\<close> for a nil interface; \<open>protocol\<close> and \<open>rootProto\<close> are fresh addresses; \<open>install\<close> is the
  answer of the firmware to the install call for \<open>handle\<close>.
\<close>

definition PublishSFS ::
  "u64 \<Rightarrow> (u64 \<Rightarrow> u64 + u64) \<Rightarrow> u64 \<Rightarrow> u64 \<Rightarrow> u64 \<Rightarrow> filesystem option \<Rightarrow> sfsState \<Rightarrow> (efi_error + u64) \<times> sfsState" where
  "PublishSFS bootServices install protocol rootProto handle fs s =
     (case fs of
        None \<Rightarrow> (Inl ErrSFSNilFilesystem, s)
      | Some backing \<Rightarrow>
          if bootServices = 0 then (Inl ErrNoBootServices, s)
          else case find (\<lambda>i. pe_proto (ss_publish s ! i) = 0) [0..<length (ss_publish s)] of
            None \<Rightarrow> (Inl ErrSFSRegistryFull, s)
          | Some slot \<Rightarrow>
              (case sfsAllocFileHandle s of
                 None \<Rightarrow> (Inl ErrSFSHandleRegistryFull, s\<lparr>ss_publish := (ss_publish s)[slot := freeVolume]\<rparr>)
               | Some rootSlot \<Rightarrow>
                   (case install handle of
                      Inl status \<Rightarrow>
                        (Inl (EFIError status ''InstallProtocolInterface(SFS)''),
                         setHandle rootSlot freeHandle (s\<lparr>ss_publish := (ss_publish s)[slot := freeVolume]\<rparr>))
                    | Inr out \<Rightarrow>
                        (Inr out,
                         setHandle rootSlot (freeHandle\<lparr>fh_proto := rootProto, fh_owner := protocol, fh_path := ''/'', fh_isDir := True\<rparr>)
                           (s\<lparr>ss_publish := (ss_publish s)[slot := \<lparr>pe_proto = protocol, pe_rootFileProto = rootProto, pe_fs = backing\<rparr>],
                              ss_published := (ss_published s)(out \<mapsto> (protocol, slot))\<rparr>)))))"

definition UnpublishSFS :: "u64 \<Rightarrow> u64 option \<Rightarrow> u64 \<Rightarrow> sfsState \<Rightarrow> efi_error option \<times> sfsState" where
  "UnpublishSFS bootServices uninstall handle s =
     (if handle = 0 then (Some ErrSFSNotPublished, s)
      else case ss_published s handle of
        None \<Rightarrow> (Some ErrSFSNotPublished, s)
      | Some (protocol, slot) \<Rightarrow>
          if bootServices = 0 then (Some ErrNoBootServices, s)
          else case uninstall of
            Some status \<Rightarrow> (Some (EFIError status ''UninstallProtocolInterface(SFS)''), s)
          | None \<Rightarrow>
              (None, s\<lparr>ss_publish := (if slot < sfsPublishRegistrySize then (ss_publish s)[slot := freeVolume] else ss_publish s),
                       ss_handles := map (\<lambda>h. if fh_owner h = protocol then freeHandle else h) (ss_handles s),
                       ss_published := (ss_published s)(handle := None)\<rparr>))"

end
