(* ===== verification/Sfs_Path.thy ===== *)
theory Sfs_Path
  imports Sfs
begin

text \<open>
  Path resolution of the published file system: a resolved path is absolute and clean, so no name a
  loader passes leads above the root of the volume.
\<close>

text \<open>A component that names an entry of a directory.\<close>

definition comp_ok :: "string \<Rightarrow> bool" where
  "comp_ok c = (c \<noteq> [] \<and> c \<noteq> ''.'' \<and> c \<noteq> ''..'' \<and> CHR ''/'' \<notin> set c \<and> CHR 0x5C \<notin> set c)"

definition pathOf :: "string list \<Rightarrow> string" where
  "pathOf cs = ''/'' @ Join cs (CHR ''/'')"

definition clean_path :: "string \<Rightarrow> bool" where
  "clean_path p = (\<exists>cs. list_all comp_ok cs \<and> p = pathOf cs)"

text \<open>The components of a path or of a name with either separator.\<close>

definition components :: "string \<Rightarrow> string list" where
  "components s = filter (\<lambda>p. p \<noteq> []) (Split (map (\<lambda>c. if c = CHR 0x5C then CHR ''/'' else c) s) (CHR ''/''))"

definition is_absolute :: "string \<Rightarrow> bool" where
  "is_absolute s = (s \<noteq> [] \<and> hd s \<in> {CHR ''/'', CHR 0x5C})"

lemma pathOf_Nil [simp]: "pathOf [] = ''/''"
  by (simp add: pathOf_def)

lemma clean_root [simp]: "clean_path ''/''"
  unfolding clean_path_def by (rule exI [of _ "[]"]) simp

lemma comp_ok_no_backslash: "list_all comp_ok cs \<Longrightarrow> CHR 0x5C \<notin> set (Join cs (CHR ''/''))"
  by (induction cs "CHR ''/''" rule: Join.induct) (auto simp: comp_ok_def)

lemma filter_Split_Join:
  assumes "list_all comp_ok cs"
  shows "filter (\<lambda>p. p \<noteq> []) (Split (Join cs (CHR ''/'')) (CHR ''/'')) = cs"
proof (cases "cs = []")
  case False
  then have "Split (Join cs (CHR ''/'')) (CHR ''/'') = cs"
    using assms by (intro Split_Join) (auto simp: list_all_iff comp_ok_def)
  moreover have "filter (\<lambda>p. p \<noteq> []) cs = cs"
    using assms by (auto simp: filter_id_conv list_all_iff comp_ok_def)
  ultimately show ?thesis by simp
qed simp

lemma components_pathOf: "list_all comp_ok cs \<Longrightarrow> components (pathOf cs) = cs"
proof -
  assume cs: "list_all comp_ok cs"
  have "map (\<lambda>c. if c = CHR 0x5C then CHR ''/'' else c) (Join cs (CHR ''/'')) = Join cs (CHR ''/'')"
    using comp_ok_no_backslash [OF cs] by (intro map_idI) auto
  then show ?thesis
    using filter_Split_Join [OF cs] by (simp add: components_def pathOf_def)
qed

lemma pathStep_Nil: "fold pathStep (filter (\<lambda>p. p \<noteq> []) ps) st = fold pathStep ps st"
  by (induction ps arbitrary: st) (auto simp: pathStep_def)

lemma pathStep_ok:
  assumes "list_all comp_ok st" "\<forall>p \<in> set ps. CHR ''/'' \<notin> set p \<and> CHR 0x5C \<notin> set p"
  shows "list_all comp_ok (fold pathStep ps st)"
  using assms
proof (induction ps arbitrary: st)
  case (Cons p ps)
  have "list_all comp_ok (pathStep p st)"
    using Cons.prems by (auto simp: pathStep_def comp_ok_def list_all_iff dest: in_set_butlastD)
  then show ?case using Cons by simp
qed simp

lemma pathStep_plain: "list_all comp_ok cs \<Longrightarrow> fold pathStep cs st = st @ cs"
  by (induction cs arbitrary: st) (auto simp: pathStep_def comp_ok_def)

text \<open>Resolution in terms of components.\<close>

definition resolve :: "string list \<Rightarrow> string \<Rightarrow> string list" where
  "resolve cur name = fold pathStep (components name) (if is_absolute name then [] else cur)"

lemma Split_set: "p \<in> set (Split t c) \<Longrightarrow> set p \<subseteq> set t"
proof (induction t arbitrary: p)
  case (Cons x t)
  obtain q qs where q: "Split t c = q # qs" by (cases "Split t c") auto
  have "set q \<subseteq> set t" "\<And>r. r \<in> set qs \<Longrightarrow> set r \<subseteq> set t" using Cons.IH q by auto
  then show ?case using Cons.prems q by (auto split: if_splits)
qed simp

lemma components_parts: "p \<in> set (components s) \<Longrightarrow> CHR ''/'' \<notin> set p \<and> CHR 0x5C \<notin> set p"
proof -
  let ?s = "map (\<lambda>c. if c = CHR 0x5C then CHR ''/'' else c) s"
  assume "p \<in> set (components s)"
  then have p: "p \<in> set (Split ?s (CHR ''/''))" by (simp add: components_def)
  have "set p \<subseteq> set ?s" using Split_set [OF p] .
  moreover have "CHR 0x5C \<notin> set ?s" by auto
  ultimately show ?thesis using Split_no_sep [OF p] by blast
qed

lemma sfsJoinPath_resolve:
  assumes "list_all comp_ok cs"
  shows "sfsJoinPath (pathOf cs) name = pathOf (resolve cs name) \<and> list_all comp_ok (resolve cs name)"
proof -
  have t: "filter (\<lambda>p. p \<noteq> []) (Split (TrimPrefix (pathOf cs) ''/'') (CHR ''/'')) = cs"
    using filter_Split_Join [OF assms] by (simp add: TrimPrefix_def HasPrefix_def pathOf_def)
  have h: "HasPrefix (map (\<lambda>c. if c = CHR 0x5C then CHR ''/'' else c) name) ''/'' = is_absolute name"
    by (cases name) (auto simp: HasPrefix_def is_absolute_def)
  have "list_all comp_ok (resolve cs name)"
    unfolding resolve_def using assms components_parts by (intro pathStep_ok) (auto simp: list_all_iff)
  then show ?thesis
    by (simp add: sfsJoinPath_def Let_def t h resolve_def components_def pathStep_Nil pathOf_def [of "fold _ _ _"])
qed

lemma sfsJoinPath_clean: "clean_path cur \<Longrightarrow> clean_path (sfsJoinPath cur name)"
  using sfsJoinPath_resolve unfolding clean_path_def by blast

text \<open>
  Names are confined to the volume: resolving any name against a clean path gives a clean absolute
  path, the one obtained by following the components of the name one by one from the current directory,
  or from the root for an absolute name, where \<^verbatim>\<open>..\<close> never leads above the root. A resolved path
  resolves to itself.
\<close>

lemma sfs_path_confined:
  assumes "list_all comp_ok cs"
  shows "list_all comp_ok (resolve cs name) \<and> sfsJoinPath (pathOf cs) name = pathOf (resolve cs name) \<and>
    components (sfsJoinPath (pathOf cs) name) = resolve cs name \<and>
    sfsJoinPath cur (sfsJoinPath (pathOf cs) name) = sfsJoinPath (pathOf cs) name"
proof -
  let ?r = "resolve cs name"
  have r: "list_all comp_ok ?r" "sfsJoinPath (pathOf cs) name = pathOf ?r"
    using sfsJoinPath_resolve [OF assms] by auto
  have "HasPrefix (map (\<lambda>c. if c = CHR 0x5C then CHR ''/'' else c) (pathOf ?r)) ''/''"
    by (simp add: HasPrefix_def pathOf_def)
  then have "sfsJoinPath cur (pathOf ?r) = sfsJoinPath (pathOf []) (pathOf ?r)"
    by (simp add: sfsJoinPath_def Let_def)
  also have "\<dots> = pathOf (resolve [] (pathOf ?r))"
    using sfsJoinPath_resolve [of "[]" "pathOf ?r"] by simp
  also have "resolve [] (pathOf ?r) = ?r"
    using r(1) by (simp add: resolve_def components_pathOf pathStep_plain)
  finally show ?thesis
    using r components_pathOf by simp
qed

end
