(* ===== verification/Sfs_Reach.thy ===== *)
theory Sfs_Reach
  imports Sfs_Path Slot_Registry
begin

text \<open>
  The registries of the published file system through any sequence of calls: what is open belongs to a
  volume that is published, what is cached is what the file system answers, and the root of a published
  volume stays open.
\<close>

section \<open>The registries are slot registries\<close>

interpretation volumes: slot_registry pe_proto freeVolume
  by unfold_locales (simp add: freeVolume_def)

interpretation handles: slot_registry fh_proto freeHandle
  by unfold_locales (simp add: freeHandle_def)

lemma sfsPublishLookup_slots: "sfsPublishLookup this s = lookupIn pe_proto this (ss_publish s)"
  by (simp add: sfsPublishLookup_def lookupIn_def)

lemma sfsFileHandleLookup_slots: "sfsFileHandleLookup this s = indexIn fh_proto this (ss_handles s)"
  by (simp add: sfsFileHandleLookup_def indexIn_def)

lemma sfsAllocFileHandle_slots: "sfsAllocFileHandle s = vacant fh_proto (ss_handles s)"
  by (simp add: sfsAllocFileHandle_def vacant_def)

lemmas sfs_slots = sfsPublishLookup_slots sfsFileHandleLookup_slots sfsAllocFileHandle_slots

section \<open>The invariant\<close>

definition listing :: "filesystem \<Rightarrow> string \<Rightarrow> (string \<times> u64 \<times> u8) list \<Rightarrow> dirEntryCached list" where
  "listing fs path es = map (direntOf fs path) (filter (\<lambda>e. fst e \<noteq> ''.'' \<and> fst e \<noteq> ''..'') es)"

text \<open>An open file holds a clean path, and caches only what the file system answers for that path.\<close>

definition handle_ok :: "filesystem \<Rightarrow> sfsFileHandleEntry \<Rightarrow> bool" where
  "handle_ok fs h =
     (clean_path (fh_path h) \<and>
      (\<forall>b. fh_body h = Some b \<longrightarrow> fs_ReadFile fs (fh_path h) = Some b) \<and>
      (fh_bodyErr h \<longrightarrow> fs_ReadFile fs (fh_path h) = None) \<and>
      (\<forall>ds. fh_dirents h = Some ds \<longrightarrow> fh_direntI h \<le> length ds \<and>
         (\<exists>es. fs_ListDir fs (fh_path h) = Some es \<and> ds = listing fs (fh_path h) es)))"

definition owned_ok :: "sfsPublishEntry list \<Rightarrow> sfsFileHandleEntry \<Rightarrow> bool" where
  "owned_ok vs h = (\<exists>j<length vs. pe_proto (vs ! j) = fh_owner h \<and> fh_owner h \<noteq> 0 \<and> handle_ok (pe_fs (vs ! j)) h)"

definition is_root :: "sfsPublishEntry \<Rightarrow> sfsFileHandleEntry \<Rightarrow> bool" where
  "is_root v h = (fh_proto h = pe_rootFileProto v \<and> fh_proto h \<noteq> 0 \<and> fh_owner h = pe_proto v \<and>
     fh_path h = ''/'' \<and> fh_isDir h)"

definition rooted :: "sfsFileHandleEntry list \<Rightarrow> sfsPublishEntry \<Rightarrow> bool" where
  "rooted hs v = (\<exists>i<length hs. is_root v (hs ! i))"

definition sfs_ok :: "sfsState \<Rightarrow> bool" where
  "sfs_ok s =
     (length (ss_publish s) = sfsPublishRegistrySize \<and> length (ss_handles s) = sfsFileHandleRegistrySize \<and>
      slots_ok pe_proto (ss_publish s) \<and> slots_ok fh_proto (ss_handles s) \<and>
      (\<forall>i<length (ss_handles s). ss_handles s ! i = freeHandle \<or>
         fh_proto (ss_handles s ! i) \<noteq> 0 \<and> owned_ok (ss_publish s) (ss_handles s ! i)) \<and>
      (\<forall>j<length (ss_publish s). ss_publish s ! j = freeVolume \<or>
         pe_proto (ss_publish s ! j) \<noteq> 0 \<and> rooted (ss_handles s) (ss_publish s ! j)) \<and>
      (\<forall>k p j. ss_published s k = Some (p, j) \<longrightarrow> j < length (ss_publish s) \<and> p \<noteq> 0 \<and> pe_proto (ss_publish s ! j) = p) \<and>
      inj_on (ss_published s) (dom (ss_published s)))"

lemma sfs_ok_empty [simp]: "sfs_ok emptySFS"
  by (simp add: sfs_ok_def emptySFS_def volumes.slots_replicate handles.slots_replicate)

text \<open>The three ways a handler changes the table of open files.\<close>

lemma rooted_update:
  assumes "rooted hs v" "\<And>k. k < length hs \<Longrightarrow> is_root v (hs ! k) \<Longrightarrow> k = i \<Longrightarrow> is_root v h"
  shows "rooted (hs[i := h]) v"
  using assms unfolding rooted_def by (metis length_list_update nth_list_update_eq nth_list_update_neq)

lemma not_root_free [simp]: "\<not> is_root v freeHandle"
  by (simp add: is_root_def handles.key_free)

lemma sfs_ok_touch:
  assumes ok: "sfs_ok s" and i: "i < length (ss_handles s)" and live: "fh_proto (ss_handles s ! i) \<noteq> 0"
    and same: "fh_proto h = fh_proto (ss_handles s ! i)" "fh_owner h = fh_owner (ss_handles s ! i)"
      "fh_path h = fh_path (ss_handles s ! i)" "fh_isDir h = fh_isDir (ss_handles s ! i)"
    and h: "owned_ok (ss_publish s) h"
  shows "sfs_ok (setHandle i h s)"
proof -
  have "is_root v h = is_root v (ss_handles s ! i)" for v
    by (simp add: is_root_def same)
  then have "rooted ((ss_handles s)[i := h]) v" if "rooted (ss_handles s) v" for v
    using that by (auto intro: rooted_update)
  then show ?thesis
    using ok i live h same(1) handles.slots_touch [of "ss_handles s" h i]
    by (auto simp: sfs_ok_def setHandle_def nth_list_update)
qed

lemma sfs_ok_claim:
  assumes ok: "sfs_ok s" and i: "i < length (ss_handles s)" and free: "ss_handles s ! i = freeHandle"
    and fresh: "fh_proto h \<notin> fh_proto ` set (ss_handles s)" "fh_proto h \<noteq> 0" and h: "owned_ok (ss_publish s) h"
  shows "sfs_ok (setHandle i h s)"
proof -
  have "rooted ((ss_handles s)[i := h]) v" if "rooted (ss_handles s) v" for v
    using that free by (auto intro: rooted_update)
  then show ?thesis
    using ok i fresh h handles.slots_claim [of "ss_handles s" h i]
    by (auto simp: sfs_ok_def setHandle_def nth_list_update)
qed

lemma sfs_ok_release:
  assumes ok: "sfs_ok s" and i: "i < length (ss_handles s)"
    and root: "\<And>j. j < length (ss_publish s) \<Longrightarrow> ss_publish s ! j \<noteq> freeVolume \<Longrightarrow> \<not> is_root (ss_publish s ! j) (ss_handles s ! i)"
  shows "sfs_ok (setHandle i freeHandle s)"
proof -
  have "rooted ((ss_handles s)[i := freeHandle]) (ss_publish s ! j)"
    if "rooted (ss_handles s) (ss_publish s ! j)" "j < length (ss_publish s)" "ss_publish s ! j \<noteq> freeVolume" for j
    using that root by (auto intro!: rooted_update)
  then show ?thesis
    using ok i handles.slots_release [of "ss_handles s" i]
    by (auto simp: sfs_ok_def setHandle_def nth_list_update)
qed

section \<open>Handlers keep the invariant\<close>

lemma owned_lookup:
  "sfs_ok s \<Longrightarrow> owned_ok (ss_publish s) h \<longleftrightarrow> (\<exists>v. sfsPublishLookup (fh_owner h) s = Some v \<and> handle_ok (pe_fs v) h)"
  by (auto simp: sfs_ok_def owned_ok_def sfs_slots volumes.lookup_Some)

lemma handle_found:
  assumes "sfs_ok s" "sfsFileHandleLookup this s = Some i"
  obtains v where "i < length (ss_handles s)" "fh_proto (ss_handles s ! i) = this" "this \<noteq> 0"
    "sfsPublishLookup (fh_owner (ss_handles s ! i)) s = Some v" "handle_ok (pe_fs v) (ss_handles s ! i)"
proof -
  have i: "i < length (ss_handles s)" "fh_proto (ss_handles s ! i) = this" "this \<noteq> 0"
    using assms by (auto simp: sfs_ok_def sfs_slots handles.index_Some)
  then have "owned_ok (ss_publish s) (ss_handles s ! i)"
    using assms(1) handles.key_free unfolding sfs_ok_def by metis
  then show ?thesis using i that owned_lookup [OF assms(1)] by blast
qed

lemma vacant_handle:
  assumes "sfs_ok s" "sfsAllocFileHandle s = Some i"
  shows "i < length (ss_handles s)" "ss_handles s ! i = freeHandle"
  using handles.vacant_Some [of "ss_handles s" i] assms by (auto simp: sfs_ok_def sfs_slots)

lemma volume_of: "sfs_ok s \<Longrightarrow> j < length (ss_publish s) \<Longrightarrow> ss_publish s ! j \<noteq> freeVolume \<Longrightarrow>
    sfsPublishLookup (pe_proto (ss_publish s ! j)) s = Some (ss_publish s ! j)"
  by (auto simp: sfs_ok_def sfs_slots volumes.lookup_Some)

lemma handle_ok_new [simp]:
  "handle_ok fs (freeHandle\<lparr>fh_proto := a, fh_owner := w, fh_path := p, fh_isDir := d\<rparr>) = clean_path p"
  by (simp add: handle_ok_def freeHandle_def)

lemma sfs_ok_open:
  assumes ok: "sfs_ok s" and fresh: "addr \<notin> fh_proto ` set (ss_handles s)" "addr \<noteq> 0"
  shows "sfs_ok (fst (snd (sfsFileOpenGo addr this outNew fileName openMode attributes s m)))"
proof (cases "sfsFileHandleLookup this s")
  case (Some i)
  then obtain v where v: "sfsPublishLookup (fh_owner (ss_handles s ! i)) s = Some v" "handle_ok (pe_fs v) (ss_handles s ! i)"
    using handle_found [OF ok] by blast
  let ?full = "sfsJoinPath (fh_path (ss_handles s ! i)) (sfsReadUCS2 fileName m)"
  have "sfs_ok (setHandle k (freeHandle\<lparr>fh_proto := addr, fh_owner := fh_owner (ss_handles s ! i), fh_path := ?full, fh_isDir := d\<rparr>) s)"
    if "sfsAllocFileHandle s = Some k" for k d
    using v vacant_handle [OF ok that] fresh
    by (intro sfs_ok_claim [OF ok]) (auto simp: owned_lookup [OF ok] handle_ok_def [of _ "ss_handles s ! i"] intro: sfsJoinPath_clean)
  then show ?thesis
    using ok Some v by (auto simp: sfsFileOpenGo_def Let_def split: option.splits)
qed (simp add: sfsFileOpenGo_def ok)

lemma sfs_ok_close:
  assumes ok: "sfs_ok s"
  shows "sfs_ok (snd (sfsFileCloseGo this s))"
proof (cases "sfsFileHandleLookup this s")
  case (Some i)
  then obtain v where v: "i < length (ss_handles s)" "sfsPublishLookup (fh_owner (ss_handles s ! i)) s = Some v"
    using handle_found [OF ok] by blast
  have "sfs_ok (setHandle i freeHandle s)" if "\<not> (pe_rootFileProto v \<noteq> 0 \<and> fh_proto (ss_handles s ! i) = pe_rootFileProto v)"
    using that v volume_of [OF ok] by (intro sfs_ok_release [OF ok]) (auto simp: is_root_def)
  then show ?thesis
    using ok Some v by (simp add: sfsFileCloseGo_def)
qed (simp add: sfsFileCloseGo_def ok)

lemma sfs_ok_delete: "sfs_ok s \<Longrightarrow> sfs_ok (snd (sfsFileDeleteGo this s))"
  by (simp add: sfsFileDeleteGo_def sfs_ok_close)

text \<open>What reading and positioning change of an open file: only the position and the caches.\<close>

definition advanced :: "filesystem \<Rightarrow> sfsFileHandleEntry \<Rightarrow> sfsFileHandleEntry \<Rightarrow> bool" where
  "advanced fs h h' = (fh_proto h' = fh_proto h \<and> fh_owner h' = fh_owner h \<and> fh_path h' = fh_path h \<and>
     fh_isDir h' = fh_isDir h \<and> (handle_ok fs h \<longrightarrow> handle_ok fs h'))"

lemma sfs_ok_advanced:
  assumes ok: "sfs_ok s" and i: "sfsFileHandleLookup this s = Some i"
    and v: "sfsPublishLookup (fh_owner (ss_handles s ! i)) s = Some v" and a: "advanced (pe_fs v) (ss_handles s ! i) h"
  shows "sfs_ok (setHandle i h s)"
proof -
  have h: "i < length (ss_handles s)" "fh_proto (ss_handles s ! i) \<noteq> 0" "handle_ok (pe_fs v) (ss_handles s ! i)"
    using handle_found [OF ok i] v by (metis option.inject)+
  then have "owned_ok (ss_publish s) h"
    using a v by (simp add: advanced_def owned_lookup [OF ok])
  then show ?thesis
    using sfs_ok_touch [OF ok h(1,2)] a by (simp add: advanced_def)
qed

lemma loadBody_advanced: "advanced fs h (snd (loadBody fs h))"
  by (auto simp: loadBody_def advanced_def handle_ok_def split: option.splits)

lemma advanced_pos [simp]: "advanced fs h (h'\<lparr>fh_pos := p\<rparr>) = advanced fs h h'"
  by (simp add: advanced_def handle_ok_def)

lemma sfsLoadDirents_advanced: "sfsLoadDirents fs (fh_path h) h = Some h' \<Longrightarrow> advanced fs h h'"
  by (auto simp: sfsLoadDirents_def advanced_def handle_ok_def listing_def split: option.splits)

lemma setHandle_setHandle [simp]: "setHandle i h (setHandle i h' s) = setHandle i h s"
  by (simp add: setHandle_def)

lemma setHandle_id [simp]: "setHandle i (ss_handles s ! i) s = s"
  by (simp add: setHandle_def)

lemma readRegular_advanced:
  "\<exists>h. fst (snd (readRegular fs i bufferSize buffer s m)) = setHandle i h s \<and> advanced fs (ss_handles s ! i) h"
  using loadBody_advanced [of fs "ss_handles s ! i"]
  by (auto simp: readRegular_def Let_def split: prod.splits)

lemma readDirectory_advanced:
  "\<exists>h. fst (snd (readDirectory fs i bufferSize buffer s m)) = setHandle i h s \<and> advanced fs (ss_handles s ! i) h"
proof -
  let ?h = "ss_handles s ! i"
  have refl: "advanced fs h h" for h by (simp add: advanced_def)
  show ?thesis
  proof (cases "if fh_dirents ?h = None then sfsLoadDirents fs (fh_path ?h) ?h else Some ?h")
    case None
    then show ?thesis using refl by (auto simp: readDirectory_def Let_def intro!: exI [of _ ?h])
  next
    case (Some h)
    have a: "advanced fs ?h h" "\<exists>ds. fh_dirents h = Some ds"
      using Some refl sfsLoadDirents_advanced [of fs ?h h]
      by (auto split: if_splits simp: sfsLoadDirents_def split: option.splits)
    then have n: "advanced fs ?h (h\<lparr>fh_direntI := fh_direntI h + 1\<rparr>)" if "fh_direntI h < length (the (fh_dirents h))"
      using that by (auto simp: advanced_def handle_ok_def)
    show ?thesis
      using Some a(1) n
      by (auto simp: readDirectory_def Let_def sfsWriteFileInfo_def split: option.splits)
  qed
qed

lemma sfs_ok_read:
  assumes ok: "sfs_ok s"
  shows "sfs_ok (fst (snd (sfsFileReadGo this bufferSize buffer s m)))"
proof (cases "sfsFileHandleLookup this s")
  case (Some i)
  then obtain v where v: "sfsPublishLookup (fh_owner (ss_handles s ! i)) s = Some v"
    using handle_found [OF ok] by blast
  have "sfs_ok (fst (snd (readRegular (pe_fs v) i bufferSize buffer s m)))"
       "sfs_ok (fst (snd (readDirectory (pe_fs v) i bufferSize buffer s m)))"
    using readRegular_advanced readDirectory_advanced sfs_ok_advanced [OF ok Some v] by metis+
  then show ?thesis
    using ok Some v by (simp add: sfsFileReadGo_def)
qed (simp add: sfsFileReadGo_def ok)

lemma sfs_ok_setPosition:
  assumes ok: "sfs_ok s"
  shows "sfs_ok (snd (sfsFileSetPositionGo this pos s))"
proof (cases "sfsFileHandleLookup this s")
  case (Some i)
  then obtain v where v: "sfsPublishLookup (fh_owner (ss_handles s ! i)) s = Some v"
    using handle_found [OF ok] by blast
  let ?h = "ss_handles s ! i"
  have "advanced (pe_fs v) ?h (?h\<lparr>fh_direntI := 0\<rparr>)" "advanced (pe_fs v) ?h ?h"
    by (auto simp: advanced_def handle_ok_def)
  then show ?thesis
    using ok Some v loadBody_advanced [of "pe_fs v" ?h] sfs_ok_advanced [OF ok Some v]
    by (auto simp: sfsFileSetPositionGo_def Let_def split: prod.splits bool.splits)
qed (simp add: sfsFileSetPositionGo_def ok)

section \<open>Publishing keeps the invariant\<close>

lemma owned_claim:
  "owned_ok vs h \<Longrightarrow> pe_proto (vs ! j) = 0 \<Longrightarrow> owned_ok (vs[j := v]) h"
  unfolding owned_ok_def by (metis length_list_update nth_list_update_neq)

lemma owned_release:
  "owned_ok vs h \<Longrightarrow> fh_owner h \<noteq> pe_proto (vs ! j) \<Longrightarrow> owned_ok (vs[j := v]) h"
  unfolding owned_ok_def by (metis length_list_update nth_list_update_neq)

lemma rooted_release_all:
  "rooted hs v \<Longrightarrow> pe_proto v \<noteq> p \<Longrightarrow> rooted (map (\<lambda>h. if fh_owner h = p then freeHandle else h) hs) v"
  unfolding rooted_def by (auto simp: is_root_def)

lemma PublishSFS_cases:
  assumes ok: "sfs_ok s"
  shows "snd (PublishSFS bootServices install protocol rootProto handle fs s) = s \<or>
    (\<exists>j i out backing. vacant pe_proto (ss_publish s) = Some j \<and> sfsAllocFileHandle s = Some i \<and>
       snd (PublishSFS bootServices install protocol rootProto handle fs s) =
         setHandle i (freeHandle\<lparr>fh_proto := rootProto, fh_owner := protocol, fh_path := ''/'', fh_isDir := True\<rparr>)
           (s\<lparr>ss_publish := (ss_publish s)[j := \<lparr>pe_proto = protocol, pe_rootFileProto = rootProto, pe_fs = backing\<rparr>],
              ss_published := (ss_published s)(out \<mapsto> (protocol, j))\<rparr>))"
proof -
  have v: "(ss_publish s)[j := freeVolume] = ss_publish s" if "vacant pe_proto (ss_publish s) = Some j" for j
    using volumes.vacant_Some [OF that] ok by (metis list_update_id sfs_ok_def)
  have h: "setHandle i freeHandle s = s" if "sfsAllocFileHandle s = Some i" for i
    using vacant_handle [OF ok that] by (metis setHandle_id)
  show ?thesis
    using v h by (auto simp: PublishSFS_def vacant_def split: option.splits sum.splits)
qed

lemma sfs_ok_publish:
  assumes ok: "sfs_ok s" and fresh: "protocol \<notin> pe_proto ` set (ss_publish s)" "protocol \<noteq> 0"
      "rootProto \<notin> fh_proto ` set (ss_handles s)" "rootProto \<noteq> 0"
  shows "sfs_ok (snd (PublishSFS bootServices install protocol rootProto handle fs s))"
proof -
  have "sfs_ok (setHandle i r (s\<lparr>ss_publish := (ss_publish s)[j := v], ss_published := (ss_published s)(out \<mapsto> (protocol, j))\<rparr>))"
    if ji: "vacant pe_proto (ss_publish s) = Some j" "sfsAllocFileHandle s = Some i"
      and r: "r = freeHandle\<lparr>fh_proto := rootProto, fh_owner := protocol, fh_path := ''/'', fh_isDir := True\<rparr>"
      and v: "v = \<lparr>pe_proto = protocol, pe_rootFileProto = rootProto, pe_fs = backing\<rparr>" for i j out backing r v
  proof -
    have j: "j < length (ss_publish s)" "pe_proto (ss_publish s ! j) = 0"
      using volumes.vacant_Some [OF ji(1)] by simp_all
    note i = vacant_handle [OF ok ji(2)]
    have R: "is_root v r" "owned_ok ((ss_publish s)[j := v]) r" "fh_proto r = rootProto" "pe_proto v = protocol"
      using fresh j by (auto simp: is_root_def r v owned_ok_def intro!: exI [of _ j])
    have rooted: "rooted ((ss_handles s)[i := r]) w" if "rooted (ss_handles s) w" for w
      using that i(2) by (auto intro: rooted_update)
    have rooted_v: "rooted ((ss_handles s)[i := r]) v"
      using i(1) R(1) by (auto simp: rooted_def intro!: exI [of _ i])
    have inj: "inj_on ((ss_published s)(out \<mapsto> (protocol, j))) (insert out (dom (ss_published s)))"
    proof (rule inj_onI)
      have no: "ss_published s k \<noteq> Some (protocol, j)" for k
        using ok j(2) unfolding sfs_ok_def by metis
      fix x y assume "x \<in> insert out (dom (ss_published s))" "y \<in> insert out (dom (ss_published s))"
        and eq: "((ss_published s)(out \<mapsto> (protocol, j))) x = ((ss_published s)(out \<mapsto> (protocol, j))) y"
      then show "x = y"
        using ok no [of x] no [of y] unfolding sfs_ok_def inj_on_def
        by (cases "x = out"; cases "y = out") auto
    qed
    have pub: "\<forall>k p l. ((ss_published s)(out \<mapsto> (protocol, j))) k = Some (p, l) \<longrightarrow>
        l < length (ss_publish s) \<and> p \<noteq> 0 \<and> pe_proto ((ss_publish s)[j := v] ! l) = p"
      using ok j fresh R(4) unfolding sfs_ok_def by (auto simp: nth_list_update split: if_splits)
    show ?thesis
      using ok i(1) j fresh R rooted rooted_v owned_claim [OF _ j(2)] inj pub
        volumes.slots_claim [of "ss_publish s" v j] handles.slots_claim [of "ss_handles s" r i]
      unfolding sfs_ok_def by (auto simp: setHandle_def nth_list_update)
  qed
  then show ?thesis
    using PublishSFS_cases [OF ok, of bootServices install protocol rootProto handle fs] ok by auto
qed

lemma sfs_ok_unpublish:
  assumes ok: "sfs_ok s"
  shows "sfs_ok (snd (UnpublishSFS bootServices uninstall handle s))"
proof -
  have "sfs_ok (s\<lparr>ss_publish := (ss_publish s)[j := freeVolume],
      ss_handles := map (\<lambda>h. if fh_owner h = p then freeHandle else h) (ss_handles s),
      ss_published := (ss_published s)(handle := None)\<rparr>)"
    if pub: "ss_published s handle = Some (p, j)" for p j
  proof -
    have j: "j < length (ss_publish s)" "p \<noteq> 0" "pe_proto (ss_publish s ! j) = p"
      using ok pub by (auto simp: sfs_ok_def)
    have other: "pe_proto (ss_publish s ! k) \<noteq> p" if "k < length (ss_publish s)" "k \<noteq> j" for k
      using ok j that volumes.slots_eq [of "ss_publish s" k j] by (auto simp: sfs_ok_def)
    have uniq: "l \<noteq> j" if "ss_published s k = Some (q, l)" "k \<noteq> handle" for k q l
      using ok that pub unfolding sfs_ok_def inj_on_def dom_def by (metis (mono_tags, lifting) mem_Collect_eq option.distinct(1))
    show ?thesis
      using ok j other uniq owned_release [of "ss_publish s" _ j freeVolume] rooted_release_all
        volumes.slots_release [of "ss_publish s" j] handles.slots_release_all [of "ss_handles s" "\<lambda>h. fh_owner h = p"]
      by (auto simp: sfs_ok_def nth_list_update inj_on_def dom_def)
  qed
  moreover have "j < sfsPublishRegistrySize" if "ss_published s handle = Some (p, j)" for p j
    using ok that unfolding sfs_ok_def by metis
  ultimately show ?thesis
    using ok by (auto simp: UnpublishSFS_def split: option.splits)
qed

section \<open>Sequences of calls\<close>

text \<open>
  The calls that change the registries, in any order and with any arguments; only the addresses of new
  structures are constrained, to be addresses not in use.
\<close>

inductive sfs_step :: "sfsState \<Rightarrow> sfsState \<Rightarrow> bool" where
  step_publish: "protocol \<notin> pe_proto ` set (ss_publish s) \<Longrightarrow> protocol \<noteq> 0 \<Longrightarrow>
     rootProto \<notin> fh_proto ` set (ss_handles s) \<Longrightarrow> rootProto \<noteq> 0 \<Longrightarrow>
     sfs_step s (snd (PublishSFS bootServices install protocol rootProto handle fs s))"
| step_unpublish: "sfs_step s (snd (UnpublishSFS bootServices uninstall handle s))"
| step_open: "addr \<notin> fh_proto ` set (ss_handles s) \<Longrightarrow> addr \<noteq> 0 \<Longrightarrow>
     sfs_step s (fst (snd (sfsFileOpenGo addr this outNew fileName openMode attributes s m)))"
| step_close: "sfs_step s (snd (sfsFileCloseGo this s))"
| step_delete: "sfs_step s (snd (sfsFileDeleteGo this s))"
| step_read: "sfs_step s (fst (snd (sfsFileReadGo this bufferSize buffer s m)))"
| step_setPosition: "sfs_step s (snd (sfsFileSetPositionGo this pos s))"

lemma sfs_step_ok: "sfs_step s s' \<Longrightarrow> sfs_ok s \<Longrightarrow> sfs_ok s'"
  by (induction rule: sfs_step.induct)
    (simp_all add: sfs_ok_publish sfs_ok_unpublish sfs_ok_open sfs_ok_close sfs_ok_delete sfs_ok_read sfs_ok_setPosition)

lemma sfs_reachable_ok: "sfs_step\<^sup>*\<^sup>* emptySFS s \<Longrightarrow> sfs_ok s"
  by (induction rule: rtranclp_induct) (auto intro: sfs_step_ok)

end
