(* ===== verification/Sfs_Props.thy ===== *)
theory Sfs_Props
  imports Sfs_Reach
begin

text \<open>
  What a loader sees of the published file system: it reaches the root, opens a file by name and reads
  it in buffers of any sizes, or lists a directory.
\<close>

section \<open>A client that reads\<close>

text \<open>
  Successive reads of one open file: the size of the buffer goes into the cell at \<open>szp\<close>, the call leaves the
  number of bytes there and the bytes at \<open>buf\<close>. The outcome of each read is its status and its bytes.
\<close>

fun sfsReads :: "u64 \<Rightarrow> u64 \<Rightarrow> u64 \<Rightarrow> u64 list \<Rightarrow> sfsState \<Rightarrow> mem \<Rightarrow> (u64 \<times> bytes) list" where
  "sfsReads this szp buf [] s m = []"
| "sfsReads this szp buf (n # ns) s m =
     (case sfsFileReadGo this szp buf s (writeU64 szp n m) of
        (status, s', m') \<Rightarrow> (status, readMem m' buf (unat (readU64 m' szp))) # sfsReads this szp buf ns s' m')"

text \<open>A sequence of bytes cut into pieces of the given sizes; the pieces are empty once it is used up.\<close>

fun cut :: "nat list \<Rightarrow> 'a list \<Rightarrow> 'a list list" where
  "cut [] b = []"
| "cut (n # ns) b = take n b # cut ns (drop n b)"

lemma concat_cut: "concat (cut ns b) = take (sum_list ns) b"
  by (induction ns b rule: cut.induct) (auto simp: take_add)

section \<open>Regular files\<close>

text \<open>The open file \<open>this\<close> is the regular file at \<open>path\<close> of \<open>fs\<close>.\<close>

definition opened :: "sfsState \<Rightarrow> u64 \<Rightarrow> nat \<Rightarrow> filesystem \<Rightarrow> string \<Rightarrow> bool \<Rightarrow> bool" where
  "opened s this i fs path dir =
     (sfs_ok s \<and> sfsFileHandleLookup this s = Some i \<and> fh_path (ss_handles s ! i) = path \<and>
      fh_isDir (ss_handles s ! i) = dir \<and>
      (\<exists>v. sfsPublishLookup (fh_owner (ss_handles s ! i)) s = Some v \<and> pe_fs v = fs))"

lemma sfsPublishLookup_setHandle [simp]: "sfsPublishLookup p (setHandle i h s) = sfsPublishLookup p s"
  by (simp add: sfsPublishLookup_def setHandle_def)

lemma opened_handle:
  assumes "opened s this i fs path dir"
  shows "i < length (ss_handles s)" "fh_proto (ss_handles s ! i) = this" "this \<noteq> 0" "handle_ok fs (ss_handles s ! i)"
  using handle_found [of s this i] assms unfolding opened_def by (metis option.inject)+

lemma opened_advanced:
  assumes "opened s this i fs path dir" "advanced fs (ss_handles s ! i) h"
  shows "opened (setHandle i h s) this i fs path dir"
proof -
  note o = opened_handle [OF assms(1)]
  have ok: "sfs_ok (setHandle i h s)"
    using assms sfs_ok_advanced unfolding opened_def by blast
  moreover have "sfsFileHandleLookup this (setHandle i h s) = Some i"
    using ok o assms(2) by (simp add: sfs_ok_def sfs_slots handles.index_Some) (simp add: setHandle_def advanced_def)
  ultimately show ?thesis
    using assms o(1) by (auto simp: opened_def advanced_def) (simp_all add: setHandle_def)
qed

lemma loadBody_ok:
  assumes "handle_ok fs h" "fs_ReadFile fs (fh_path h) = Some body"
  shows "fst (loadBody fs h)" "fh_body (snd (loadBody fs h)) = Some body" "fh_pos (snd (loadBody fs h)) = fh_pos h"
  using assms by (cases "fh_body h"; auto simp: loadBody_def handle_ok_def)+

lemma read_buffer:
  "apart buf (length bs) szp 8 \<Longrightarrow> length bs < 2 ^ 64 \<Longrightarrow> readMem (writeU64 szp v (writeMem buf bs m)) buf (length bs) = bs"
  by (simp add: apart_def readMem_writeMem_same)

lemma remaining_unat:
  assumes "length body < 2 ^ 63"
  shows "unat (if unat pos < length body then of_nat (length body) - pos else (0 :: u64)) = length body - unat pos"
proof -
  have "unat (of_nat (length body) :: u64) = length body"
    using assms by (intro unat_of_nat_u64) simp
  then show ?thesis by (simp add: unat_sub_if')
qed

lemma sfsFileReadGo_regular:
  assumes o: "opened s this i fs path False" and b: "fs_ReadFile fs path = Some body" "length body < 2 ^ 63"
    and p: "szp \<noteq> 0" "buf \<noteq> 0" "apart buf (unat n) szp 8"
  defines "pos \<equiv> unat (fh_pos (ss_handles s ! i))"
  shows "\<exists>s' m'. sfsFileReadGo this szp buf s (writeU64 szp n m) = (sfsEFISuccess, s', m') \<and>
    readMem m' buf (unat (readU64 m' szp)) = take (unat n) (drop pos body) \<and>
    opened s' this i fs path False \<and> drop (unat (fh_pos (ss_handles s' ! i))) body = drop (unat n) (drop pos body)"
proof -
  define h where "h = ss_handles s ! i"
  define h' where "h' = snd (loadBody fs h)"
  define rem where "rem = (if unat (fh_pos h) < length body then of_nat (length body) - fh_pos h else 0)"
  define want where "want = (if n > rem then rem else n)"
  have hp: "handle_ok fs h" "fh_path h = path" using opened_handle(4) [OF o] o by (auto simp: h_def opened_def)
  have l: "loadBody fs h = (True, h')" "fh_body h' = Some body" "fh_pos h' = fh_pos h"
    using loadBody_ok [OF hp(1)] hp(2) b(1) by (simp_all add: h'_def prod_eq_iff)
  have w: "unat want = min (unat n) (length body - pos)"
    using remaining_unat [OF b(2), of "fh_pos h"] by (auto simp: want_def rem_def pos_def h_def word_less_nat_alt)
  have a: "advanced fs h (h'\<lparr>fh_pos := fh_pos h + want\<rparr>)" "advanced fs h h'"
    using loadBody_advanced [of fs h] by (simp_all add: h'_def)
  let ?m = "writeU64 szp n m"
  have step: "sfsFileReadGo this szp buf s ?m =
      (if want = 0 then (sfsEFISuccess, setHandle i h' s, writeU64 szp 0 ?m)
       else (sfsEFISuccess, setHandle i (h'\<lparr>fh_pos := fh_pos h + want\<rparr>) s,
             writeU64 szp want (writeMem buf (slice body pos (pos + unat want)) ?m)))"
  proof -
    have eq: "sfsFileReadGo this szp buf s ?m = readRegular fs i szp buf s ?m"
      using o p(1) by (auto simp: opened_def sfsFileReadGo_def)
    show ?thesis
      by (simp only: p(2) eq readRegular_def h_def [symmetric] l Let_def prod.case option.sel readU64_writeU64 want_def rem_def
          pos_def not_True_eq_False if_False setHandle_setHandle)
  qed
  show ?thesis
  proof (cases "want = 0")
    case True
    have "take (unat n) (drop pos body) = [] \<and> drop (unat n) (drop pos body) = drop pos body"
      using w True by (auto simp: min_def split: if_splits)
    then show ?thesis
      using step True opened_advanced [OF o a(2) [unfolded h_def]] opened_handle(1) [OF o] l(3)
      by (simp add: pos_def h_def readMem_def) (simp add: setHandle_def h_def)
  next
    case False
    have s: "slice body pos (pos + unat want) = take (unat n) (drop pos body)" "length (slice body pos (pos + unat want)) = unat want"
      using w by (auto simp: slice_def min_def)
    have "apart buf (unat want) szp 8"
      using p(3) w by (auto simp: apart_def)
    moreover have le: "pos + unat want \<le> length body"
    proof -
      have "0 < unat want" using False by (simp add: unat_gt_0)
      then show ?thesis using w by (simp add: min_def split: if_splits)
    qed
    moreover have "drop (unat (fh_pos h + want)) body = drop (unat n) (drop pos body)"
    proof -
      have "unat (fh_pos h + want) = pos + unat want"
        using le b(2) by (simp add: unat_plus_if_size word_size pos_def h_def)
      then show ?thesis using w by (auto simp: min_def add.commute)
    qed
    ultimately show ?thesis
      using step False s opened_advanced [OF o a(1) [unfolded h_def]] opened_handle(1) [OF o]
        read_buffer [of buf "slice body pos (pos + unat want)" szp] unsigned_less [of want]
      by (simp add: h_def) (simp add: setHandle_def)
  qed
qed

lemma sfsReads_regular:
  assumes "opened s this i fs path False" "fs_ReadFile fs path = Some body" "length body < 2 ^ 63"
    and "szp \<noteq> 0" "buf \<noteq> 0" "\<forall>n \<in> set ns. apart buf (unat n) szp 8"
  shows "sfsReads this szp buf ns s m = map (Pair sfsEFISuccess) (cut (map unat ns) (drop (unat (fh_pos (ss_handles s ! i))) body))"
  using assms(1,6)
proof (induction ns arbitrary: s m)
  case (Cons n ns)
  obtain s' m' where r: "sfsFileReadGo this szp buf s (writeU64 szp n m) = (sfsEFISuccess, s', m')"
      "readMem m' buf (unat (readU64 m' szp)) = take (unat n) (drop (unat (fh_pos (ss_handles s ! i))) body)"
      "opened s' this i fs path False"
      "drop (unat (fh_pos (ss_handles s' ! i))) body = drop (unat n) (drop (unat (fh_pos (ss_handles s ! i))) body)"
    using sfsFileReadGo_regular [OF Cons.prems(1) assms(2-5)] Cons.prems(2) by (metis list.set_intros(1))
  then show ?case
    using Cons.IH [OF r(3)] Cons.prems(2) by simp
qed simp

section \<open>Opening\<close>

lemma opened_open:
  assumes ok: "sfs_ok s" and fresh: "addr \<notin> fh_proto ` set (ss_handles s)" "addr \<noteq> 0"
    and dir: "sfsFileHandleLookup this s = Some i" "sfsPublishLookup (fh_owner (ss_handles s ! i)) s = Some v"
    and op: "sfsFileOpenGo addr this outNew fileName openMode attributes s m = (sfsEFISuccess, s', m')"
  defines "full \<equiv> sfsJoinPath (fh_path (ss_handles s ! i)) (sfsReadUCS2 fileName m)"
  shows "\<exists>k mode sz. opened s' addr k (pe_fs v) full (isDirMode mode) \<and> fs_Stat (pe_fs v) full = Some (mode, sz) \<and>
    fh_pos (ss_handles s' ! k) = 0 \<and> fh_dirents (ss_handles s' ! k) = None \<and> m' = writeU64 outNew addr m"
proof -
  obtain k mode sz where k: "sfsAllocFileHandle s = Some k" "fs_Stat (pe_fs v) full = Some (mode, sz)"
      "s' = setHandle k (freeHandle\<lparr>fh_proto := addr, fh_owner := fh_owner (ss_handles s ! i), fh_path := full,
         fh_isDir := isDirMode mode\<rparr>) s" "m' = writeU64 outNew addr m"
    using op dir
    by (auto simp: sfsFileOpenGo_def Let_def full_def sfsEFISuccess_def sfsEFINotFound_def sfsEFIInvalidParameter_def
        sfsEFIWriteProtected_def sfsEFIOutOfResources_def split: option.splits if_splits prod.splits)
  have ok': "sfs_ok s'"
    using sfs_ok_open [OF ok fresh, of this outNew fileName openMode attributes m] op by simp
  have "sfsFileHandleLookup addr s' = Some k"
    using ok' fresh(2) vacant_handle [OF ok k(1)]
    by (simp add: sfs_ok_def sfs_slots handles.index_Some) (simp add: k(3) setHandle_def)
  then show ?thesis
    using ok' k dir(2) vacant_handle [OF ok k(1)]
    by (intro exI [of _ k] exI [of _ mode] exI [of _ sz]) (simp add: opened_def, simp add: setHandle_def freeHandle_def)
qed

section \<open>Directories\<close>

text \<open>The information structure of an entry, with the name at its end.\<close>

definition entryInfo :: "dirEntryCached \<Rightarrow> bytes" where
  "entryInfo e =
     (let total = sfsFileInfoSizeForName (dc_name e) in
      putLE64 (of_nat total) @ putLE64 (dc_size e) @ putLE64 (dc_size e) @ replicate 48 0 @
      putLE64 (if dc_isDir e then sfsFileAttrReadOnly OR sfsFileAttrDirectory else sfsFileAttrReadOnly) @
      sfsWriteUCS2 (dc_name e) (total - sfsFileInfoHeaderSize))"

lemma length_writeUCS2Loop: "2 * (length rs + 1) \<le> room \<Longrightarrow> length (writeUCS2Loop rs room) = 2 * (length rs + 1)"
  by (induction rs room rule: writeUCS2Loop.induct) auto

lemma length_entryInfo [simp]: "length (entryInfo e) = sfsFileInfoSizeForName (dc_name e)"
  by (simp add: entryInfo_def Let_def sfsWriteUCS2_def sfsFileInfoSizeForName_def sfsFileInfoHeaderSize_def length_writeUCS2Loop)

text \<open>The entries a directory still has to deliver.\<close>

definition pending :: "filesystem \<Rightarrow> sfsFileHandleEntry \<Rightarrow> dirEntryCached list" where
  "pending fs h =
     (case fh_dirents h of
        Some ds \<Rightarrow> drop (fh_direntI h) ds
      | None \<Rightarrow> (case fs_ListDir fs (fh_path h) of Some es \<Rightarrow> listing fs (fh_path h) es | None \<Rightarrow> []))"

lemma loaded_dirents:
  assumes "fs_ListDir fs (fh_path h) = Some es"
  obtains h' ds where "(if fh_dirents h = None then sfsLoadDirents fs (fh_path h) h else Some h) = Some h'"
    "fh_dirents h' = Some ds" "pending fs h = drop (fh_direntI h') ds" "advanced fs h h'"
proof (cases "fh_dirents h")
  case None
  let ?h = "h\<lparr>fh_dirents := Some (listing fs (fh_path h) es), fh_direntI := 0\<rparr>"
  have l: "sfsLoadDirents fs (fh_path h) h = Some ?h"
    using assms by (simp add: sfsLoadDirents_def listing_def)
  then show ?thesis
    using that [of ?h "listing fs (fh_path h) es"] None assms sfsLoadDirents_advanced [OF l] by (simp add: pending_def)
next
  case (Some ds)
  then show ?thesis using that [of h ds] by (simp add: pending_def advanced_def)
qed

lemma sfsFileReadGo_directory:
  assumes o: "opened s this i fs path True" and l: "fs_ListDir fs path = Some es"
    and p: "szp \<noteq> 0" "buf \<noteq> 0" "apart buf (unat n) szp 8"
    and room: "\<forall>e \<in> set (pending fs (ss_handles s ! i)). sfsFileInfoSizeForName (dc_name e) \<le> unat n"
  defines "ps \<equiv> pending fs (ss_handles s ! i)"
  shows "\<exists>s' m'. sfsFileReadGo this szp buf s (writeU64 szp n m) = (sfsEFISuccess, s', m') \<and>
    readMem m' buf (unat (readU64 m' szp)) = (if ps = [] then [] else entryInfo (hd ps)) \<and>
    opened s' this i fs path True \<and> pending fs (ss_handles s' ! i) = tl ps"
proof -
  let ?m = "writeU64 szp n m"
  have "fs_ListDir fs (fh_path (ss_handles s ! i)) = Some es" using o l by (simp add: opened_def)
  then obtain h ds where h: "(if fh_dirents (ss_handles s ! i) = None then sfsLoadDirents fs (fh_path (ss_handles s ! i)) (ss_handles s ! i)
        else Some (ss_handles s ! i)) = Some h"
      "fh_dirents h = Some ds" "ps = drop (fh_direntI h) ds" "advanced fs (ss_handles s ! i) h"
    using loaded_dirents unfolding ps_def by metis
  have eq: "sfsFileReadGo this szp buf s ?m = readDirectory fs i szp buf s ?m"
    using o p(1) by (auto simp: opened_def sfsFileReadGo_def)
  note i = opened_handle(1) [OF o]
  show ?thesis
  proof (cases "ps = []")
    case True
    then have "sfsFileReadGo this szp buf s ?m = (sfsEFISuccess, setHandle i h s, writeU64 szp 0 ?m)"
      using h by (simp add: eq readDirectory_def Let_def)
    then show ?thesis
      using True h i opened_advanced [OF o h(4)] by (simp add: readMem_def) (simp add: setHandle_def pending_def)
  next
    case False
    let ?e = "ds ! fh_direntI h" and ?h = "h\<lparr>fh_direntI := fh_direntI h + 1\<rparr>"
    have e: "hd ps = ?e" "fh_direntI h < length ds" "?e \<in> set ps" "tl ps = drop (fh_direntI h + 1) ds"
      using False h(3) by (auto simp: hd_drop_conv_nth tl_drop drop_Suc in_set_conv_nth intro: exI [of _ 0])
    then have need: "sfsFileInfoSizeForName (dc_name ?e) \<le> unat n" using room ps_def by blast
    then have u: "unat (of_nat (sfsFileInfoSizeForName (dc_name ?e)) :: u64) = sfsFileInfoSizeForName (dc_name ?e)"
      using unsigned_less [where w = n and 'a = nat] by (intro unat_of_nat_u64) simp
    have "sfsFileReadGo this szp buf s ?m =
        (sfsEFISuccess, setHandle i ?h s, writeU64 szp (of_nat (sfsFileInfoSizeForName (dc_name ?e))) (writeMem buf (entryInfo ?e) ?m))"
      using h e(2) need p(2) by (simp add: eq readDirectory_def Let_def sfsWriteFileInfo_def entryInfo_def)
    moreover have "opened (setHandle i ?h s) this i fs path True"
      using h e(2) by (intro opened_advanced [OF o]) (auto simp: advanced_def handle_ok_def)
    moreover have "apart buf (length (entryInfo ?e)) szp 8" "length (entryInfo ?e) < 2 ^ 64"
      using p(3) need unsigned_less [where w = n and 'a = nat] by (simp_all add: apart_def)
    ultimately show ?thesis
      using False e i h(2) u read_buffer [of buf "entryInfo ?e" szp]
      by simp (simp add: setHandle_def pending_def)
  qed
qed

lemma sfsReads_directory:
  assumes "opened s this i fs path True" "fs_ListDir fs path = Some es" "szp \<noteq> 0" "buf \<noteq> 0"
    and "\<forall>n \<in> set ns. apart buf (unat n) szp 8 \<and>
      (\<forall>e \<in> set (pending fs (ss_handles s ! i)). sfsFileInfoSizeForName (dc_name e) \<le> unat n)"
  shows "sfsReads this szp buf ns s m =
    map (\<lambda>k. (sfsEFISuccess, if k < length (pending fs (ss_handles s ! i)) then entryInfo (pending fs (ss_handles s ! i) ! k) else []))
      [0..<length ns]"
  using assms(1,5)
proof (induction ns arbitrary: s m)
  case (Cons n ns)
  let ?ps = "pending fs (ss_handles s ! i)"
  obtain s' m' where r: "sfsFileReadGo this szp buf s (writeU64 szp n m) = (sfsEFISuccess, s', m')"
      "readMem m' buf (unat (readU64 m' szp)) = (if ?ps = [] then [] else entryInfo (hd ?ps))"
      "opened s' this i fs path True" "pending fs (ss_handles s' ! i) = tl ?ps"
    using sfsFileReadGo_directory [OF Cons.prems(1) assms(2-4), of n m] Cons.prems(2) by auto
  have "sfsReads this szp buf ns s' m' =
      map (\<lambda>k. (sfsEFISuccess, if k < length (tl ?ps) then entryInfo (tl ?ps ! k) else [])) [0..<length ns]"
  proof -
    have "set (tl ?ps) \<subseteq> set ?ps" by (cases ?ps) auto
    then show ?thesis using Cons.IH [OF r(3), of m'] Cons.prems(2) unfolding r(4) by (meson list.set_intros(2) subset_iff)
  qed
  also have "\<dots> = map (\<lambda>k. (sfsEFISuccess, if k < length ?ps then entryInfo (?ps ! k) else [])) [1..<length (n # ns)]"
    by (cases ?ps) (simp_all add: map_Suc_upt [symmetric] del: upt_Suc)
  finally show ?case
    using r(1,2) by (cases ?ps) (simp_all add: upt_conv_Cons del: upt_Suc)
qed simp

section \<open>An example volume\<close>

definition demoFS :: filesystem where
  "demoFS = \<lparr>fs_Stat = (\<lambda>p. if p = ''/'' then Some (0x41ED, 0) else if p = ''/a'' then Some (0x81A4, 3) else None),
     fs_ListDir = (\<lambda>p. if p = ''/'' then Some [(''.'', 2, 4), (''..'', 2, 4), (''a'', 5, 8)] else None),
     fs_ReadFile = (\<lambda>p. if p = ''/a'' then Some [7, 8, 9] else None)\<rparr>"

definition demoSFS :: sfsState where
  "demoSFS = snd (PublishSFS 8 (\<lambda>_. Inr 77) 64 128 0 (Some demoFS) emptySFS)"

definition demoRoot :: sfsFileHandleEntry where
  "demoRoot = freeHandle\<lparr>fh_proto := 128, fh_owner := 64, fh_path := ''/'', fh_isDir := True\<rparr>"

lemma demo_reachable: "sfs_step\<^sup>*\<^sup>* emptySFS demoSFS"
  unfolding demoSFS_def
  by (intro r_into_rtranclp step_publish) (auto simp: emptySFS_def volumes.key_free handles.key_free)

lemma demo_handles: "ss_handles demoSFS = demoRoot # replicate 31 freeHandle"
  using replicate_Suc [of 31 freeHandle]
  by (simp add: demoSFS_def PublishSFS_def emptySFS_def sfsAllocFileHandle_def sfsPublishRegistrySize_def
      sfsFileHandleRegistrySize_def volumes.key_free handles.key_free upt_conv_Cons setHandle_def demoRoot_def)

lemma demo_publish:
  "ss_publish demoSFS = \<lparr>pe_proto = 64, pe_rootFileProto = 128, pe_fs = demoFS\<rparr> # replicate 3 freeVolume"
  using replicate_Suc [of 3 freeVolume]
  by (simp add: demoSFS_def PublishSFS_def emptySFS_def sfsAllocFileHandle_def sfsPublishRegistrySize_def
      sfsFileHandleRegistrySize_def volumes.key_free handles.key_free upt_conv_Cons setHandle_def)

lemma demo_lookups:
  "sfsFileHandleLookup 128 demoSFS = Some 0"
  "sfsPublishLookup 64 demoSFS = Some \<lparr>pe_proto = 64, pe_rootFileProto = 128, pe_fs = demoFS\<rparr>"
  "ss_handles demoSFS ! 0 = demoRoot" "fh_owner demoRoot = 64" "fh_path demoRoot = ''/''"
  "(256 :: u64) \<notin> fh_proto ` set (ss_handles demoSFS)" "sfsAllocFileHandle demoSFS = Some 1"
  by (simp_all add: sfsFileHandleLookup_def sfsPublishLookup_def sfsAllocFileHandle_def demo_handles demo_publish upt_conv_Cons demoRoot_def freeHandle_def)

text \<open>A memory with the name \<^verbatim>\<open>a\<close> at 4096 and the name \<^verbatim>\<open>/\<close> at 4100.\<close>

definition demoMem :: mem where
  "demoMem = (\<lambda>a. if a = 4096 then 97 else if a = 4100 then 47 else 0)"

lemma demo_words:
  "readU16 demoMem 4096 = 97" "readU16 demoMem 4098 = 0" "readU16 demoMem 4100 = 47" "readU16 demoMem 4102 = 0"
  by (simp_all add: readU16_def readMem_def demoMem_def leU16_def upt_rec)

lemma demo_names: "sfsReadUCS2 4096 demoMem = ''a''" "sfsReadUCS2 4100 demoMem = ''/''"
proof -
  have c: "char_of (97 :: nat) = CHR ''a''" "char_of (47 :: nat) = CHR ''/''" by code_simp+
  have "readUCS2Loop 65536 p demoMem = [unat (readU16 demoMem p)]"
    if "readU16 demoMem p \<in> {47, 97}" "readU16 demoMem (p + 2) = 0" for p
    using that readUCS2Loop.simps(2) [of 65535 p demoMem] readUCS2Loop.simps(2) [of 65534 "p + 2" demoMem]
    by (auto simp: Let_def)
  then show "sfsReadUCS2 4096 demoMem = ''a''" "sfsReadUCS2 4100 demoMem = ''/''"
    by (simp_all add: sfsReadUCS2_def demo_words stringOf_def encodeRune_def runeError_def validRune_def c)
qed

section \<open>Properties\<close>

text \<open>
  C27. The registries stay well formed: after any sequence of calls that publish and withdraw volumes and open, close,
  delete, read and position files, every open file belongs to a volume that is published, its path is
  absolute and without dots, and the contents and the listing it caches are those the volume's file system
  returns for that path.
\<close>

theorem sfs_handles_well_formed:
  assumes "sfs_step\<^sup>*\<^sup>* emptySFS s" "sfsFileHandleLookup this s = Some i"
  shows "fh_proto (ss_handles s ! i) = this \<and>
    (\<exists>v. sfsPublishLookup (fh_owner (ss_handles s ! i)) s = Some v \<and> handle_ok (pe_fs v) (ss_handles s ! i))"
  using handle_found [OF sfs_reachable_ok [OF assms(1)] assms(2)] by metis

theorem sfs_handles_well_formed_witness:
  "handle_ok demoFS (ss_handles demoSFS ! 0)"
  using sfs_handles_well_formed [OF demo_reachable demo_lookups(1)] by (simp add: demo_lookups)

text \<open>
  C28. The root of a published volume cannot be closed: after any sequence of calls, opening the volume
  yields an open directory with path / that belongs to it, although loaders close and delete what they are
  given.
\<close>

theorem sfs_root_stays_open:
  assumes "sfs_step\<^sup>*\<^sup>* emptySFS s" "sfsPublishLookup this s = Some v" "outRoot \<noteq> 0"
  shows "\<exists>root i. sfsOpenVolumeGo this outRoot s m = (sfsEFISuccess, writeU64 outRoot root m) \<and>
    sfsFileHandleLookup root s = Some i \<and> fh_owner (ss_handles s ! i) = this \<and>
    fh_path (ss_handles s ! i) = ''/'' \<and> fh_isDir (ss_handles s ! i)"
proof -
  have ok: "sfs_ok s" by (rule sfs_reachable_ok [OF assms(1)])
  then obtain j where j: "j < length (ss_publish s)" "ss_publish s ! j = v" "pe_proto v = this" "this \<noteq> 0"
    using assms(2) by (auto simp: sfs_ok_def sfs_slots volumes.lookup_Some)
  then have "rooted (ss_handles s) v"
    using ok volumes.key_free unfolding sfs_ok_def by metis
  then obtain i where "i < length (ss_handles s)" "is_root v (ss_handles s ! i)"
    by (auto simp: rooted_def)
  then have "sfsFileHandleLookup (pe_rootFileProto v) s = Some i" "fh_owner (ss_handles s ! i) = this"
      "fh_path (ss_handles s ! i) = ''/''" "fh_isDir (ss_handles s ! i)"
    using ok j(3) by (auto simp: sfs_ok_def sfs_slots handles.index_Some is_root_def)
  then show ?thesis
    using assms(2,3) by (auto simp: sfsOpenVolumeGo_def)
qed

theorem sfs_root_stays_open_witness:
  "\<exists>root i. sfsOpenVolumeGo 64 512 demoSFS demoMem = (sfsEFISuccess, writeU64 512 root demoMem) \<and>
    sfsFileHandleLookup root demoSFS = Some i \<and> fh_owner (ss_handles demoSFS ! i) = 64 \<and>
    fh_path (ss_handles demoSFS ! i) = ''/'' \<and> fh_isDir (ss_handles demoSFS ! i)"
  by (rule sfs_root_stays_open [OF demo_reachable demo_lookups(2)]) simp

text \<open>
  C29. Files are read whole and in order: once a regular file is opened by name, reading it with buffers of any sizes delivers its
  contents cut into pieces of these sizes, each read with success, and empty reads at the end. The name is
  resolved against the directory it was opened from. The buffer shares no byte with the cell of its size.
\<close>

theorem sfs_open_read:
  assumes "sfs_step\<^sup>*\<^sup>* emptySFS s" "addr \<notin> fh_proto ` set (ss_handles s)" "addr \<noteq> 0"
    and "sfsFileHandleLookup this s = Some i" "sfsPublishLookup (fh_owner (ss_handles s ! i)) s = Some v"
    and "sfsFileOpenGo addr this outNew fileName openMode attributes s m = (sfsEFISuccess, s', m')"
    and "full = sfsJoinPath (fh_path (ss_handles s ! i)) (sfsReadUCS2 fileName m)"
    and "fs_Stat (pe_fs v) full = Some (mode, sz)" "\<not> isDirMode mode" "fs_ReadFile (pe_fs v) full = Some body"
    and "length body < 2 ^ 63" "szp \<noteq> 0" "buf \<noteq> 0" "\<forall>n \<in> set ns. apart buf (unat n) szp 8"
  shows "readU64 m' outNew = addr \<and> sfsReads addr szp buf ns s' m' = map (Pair sfsEFISuccess) (cut (map unat ns) body)"
proof -
  obtain k where k: "opened s' addr k (pe_fs v) full False" "fh_pos (ss_handles s' ! k) = 0" "m' = writeU64 outNew addr m"
    using opened_open [OF sfs_reachable_ok [OF assms(1)] assms(2-6)] assms(7-9) by auto
  show ?thesis
    using sfsReads_regular [OF k(1) assms(10-14)] k(2,3) by simp
qed

theorem sfs_open_read_witness:
  "\<exists>s' m'. sfsFileOpenGo 256 128 512 4096 1 0 demoSFS demoMem = (sfsEFISuccess, s', m') \<and>
    sfsReads 256 1024 2048 [2, 2, 2] s' m' = map (Pair sfsEFISuccess) [[7, 8], [9], []]"
proof -
  have full: "sfsJoinPath ''/'' ''a'' = ''/a''"
    by (simp add: sfsJoinPath_def HasPrefix_def TrimPrefix_def pathStep_def)
  obtain s' m' where op: "sfsFileOpenGo 256 128 512 4096 1 0 demoSFS demoMem = (sfsEFISuccess, s', m')"
    by (simp add: sfsFileOpenGo_def demo_lookups full Let_def demo_names(1) demoFS_def sfsFileModeWrite_def sfsFileModeCreate_def
        sfsFileModeRead_def)
  have "sfsReads 256 1024 2048 [2, 2, 2] s' m' = map (Pair sfsEFISuccess) (cut (map unat [2, 2, 2 :: u64]) [7, 8, 9])"
    using sfs_open_read [OF demo_reachable demo_lookups(6) _ demo_lookups(1) _ op refl,
        of "\<lparr>pe_proto = 64, pe_rootFileProto = 128, pe_fs = demoFS\<rparr>" "0x81A4" 3 "[7, 8, 9]" 1024 2048 "[2, 2, 2]"]
    by (simp add: demo_lookups demo_names full demoFS_def isDirMode_def apart_def)
  then show ?thesis using op by auto
qed

text \<open>
  C30. Directories are listed whole and in order: once a directory is opened by name, each read with a large enough
  buffer delivers the information structure of the next entry, the entries for the directory itself and its
  parent left out, and empty reads follow the last one.
\<close>

theorem sfs_open_list:
  assumes "sfs_step\<^sup>*\<^sup>* emptySFS s" "addr \<notin> fh_proto ` set (ss_handles s)" "addr \<noteq> 0"
    and "sfsFileHandleLookup this s = Some i" "sfsPublishLookup (fh_owner (ss_handles s ! i)) s = Some v"
    and "sfsFileOpenGo addr this outNew fileName openMode attributes s m = (sfsEFISuccess, s', m')"
    and "full = sfsJoinPath (fh_path (ss_handles s ! i)) (sfsReadUCS2 fileName m)"
    and "fs_Stat (pe_fs v) full = Some (mode, sz)" "isDirMode mode" "fs_ListDir (pe_fs v) full = Some es"
    and "ls = map (direntOf (pe_fs v) full) (filter (\<lambda>e. fst e \<noteq> ''.'' \<and> fst e \<noteq> ''..'') es)"
    and "szp \<noteq> 0" "buf \<noteq> 0"
    and "\<forall>n \<in> set ns. apart buf (unat n) szp 8 \<and> (\<forall>e \<in> set ls. sfsFileInfoSizeForName (dc_name e) \<le> unat n)"
  shows "sfsReads addr szp buf ns s' m' =
    map (\<lambda>k. (sfsEFISuccess, if k < length ls then entryInfo (ls ! k) else [])) [0..<length ns]"
proof -
  obtain k where k: "opened s' addr k (pe_fs v) full True" "fh_dirents (ss_handles s' ! k) = None"
    using opened_open [OF sfs_reachable_ok [OF assms(1)] assms(2-6)] assms(7-9) by auto
  have p: "pending (pe_fs v) (ss_handles s' ! k) = ls"
    using k assms(10,11) by (simp add: pending_def opened_def listing_def)
  show ?thesis
    using sfsReads_directory [OF k(1) assms(10,12,13), of ns m'] assms(14) by (simp add: p)
qed

theorem sfs_open_list_witness:
  "\<exists>s' m'. sfsFileOpenGo 256 128 512 4100 1 0 demoSFS demoMem = (sfsEFISuccess, s', m') \<and>
    sfsReads 256 1024 2048 [100, 100] s' m' =
      [(sfsEFISuccess, entryInfo \<lparr>dc_name = ''a'', dc_inode = 5, dc_isDir = False, dc_size = 3, dc_mode = 0x81A4\<rparr>),
       (sfsEFISuccess, [])]"
proof -
  have full: "sfsJoinPath ''/'' ''/'' = ''/''" "sfsJoinPath ''/'' ''a'' = ''/a''"
    by (simp_all add: sfsJoinPath_def HasPrefix_def TrimPrefix_def pathStep_def)
  obtain s' m' where op: "sfsFileOpenGo 256 128 512 4100 1 0 demoSFS demoMem = (sfsEFISuccess, s', m')"
    by (simp add: sfsFileOpenGo_def demo_lookups full Let_def demo_names(2) demoFS_def sfsFileModeWrite_def sfsFileModeCreate_def
        sfsFileModeRead_def)
  have "sfsFileInfoSizeForName ''a'' = 84"
    by (simp add: sfsFileInfoSizeForName_def sfsFileInfoHeaderSize_def runesOf_def decodeRunes.simps)
  then have "sfsReads 256 1024 2048 [100, 100] s' m' =
      [(sfsEFISuccess, entryInfo \<lparr>dc_name = ''a'', dc_inode = 5, dc_isDir = False, dc_size = 3, dc_mode = 0x81A4\<rparr>), (sfsEFISuccess, [])]"
    using sfs_open_list [OF demo_reachable demo_lookups(6) _ demo_lookups(1) _ op refl,
        of "\<lparr>pe_proto = 64, pe_rootFileProto = 128, pe_fs = demoFS\<rparr>" "0x41ED" 0
        "[(''.'', 2, 4), (''..'', 2, 4), (''a'', 5, 8)]"
        "[\<lparr>dc_name = ''a'', dc_inode = 5, dc_isDir = False, dc_size = 3, dc_mode = 0x81A4\<rparr>]" 1024 2048 "[100, 100]"]
    by (simp add: demo_lookups demo_names full demoFS_def isDirMode_def apart_def direntOf_def)
  then show ?thesis using op by auto
qed

end
