(* ===== verification/Efi_Firmware.thy ===== *)
theory Efi_Firmware
  imports Efi_Memory
begin

text \<open>
  The calls into firmware, \<^verbatim>\<open>uefiboard/protocols_tamago.go\<close>, \<^verbatim>\<open>loadimage_tamago.go\<close>,
  \<^verbatim>\<open>install_config_table_tamago.go\<close>. Firmware is a parameter: for each boot service, a function from the
  arguments to a status that is not success, or to the output. The wrappers add what the Go code adds.
\<close>

record EFIGUID =
  Data1 :: u32
  Data2 :: u16
  Data3 :: u16
  Data4 :: bytes

definition guidBytes :: "EFIGUID \<Rightarrow> bytes" where
  "guidBytes g = putLE32 (Data1 g) @ putLE16 (Data2 g) @ putLE16 (Data3 g) @ Data4 g"

definition efiInvalidParameter :: u64 where "efiInvalidParameter = 0x8000000000000002"
definition efiBufferTooSmall :: u64 where "efiBufferTooSmall = 0x8000000000000005"

definition EfiLoaderData :: u32 where "EfiLoaderData = 2"
definition EfiBootServicesData :: u32 where "EfiBootServicesData = 4"

text \<open>
  \<open>fw_BootServices\<close> is what \<^verbatim>\<open>getBootServices\<close> returns and \<open>fw_ImageHandle\<close> the handle captured at entry; both
  are zero when entry did not run. \<open>fw_LocateHandleBuffer\<close> gives a count and the address of an array.
  \<open>fw_LoadImage\<close> takes the device path or the source buffer.
\<close>

record firmware =
  fw_BootServices :: u64
  fw_ImageHandle :: u64
  fw_HandleProtocol :: "u64 \<Rightarrow> EFIGUID \<Rightarrow> u64 + u64"
  fw_LocateHandleBuffer :: "EFIGUID \<Rightarrow> u64 + u64 \<times> u64"
  fw_AllocatePool :: "u32 \<Rightarrow> nat \<Rightarrow> u64 + u64"
  fw_LoadImage :: "bytes + bytes \<Rightarrow> u64 + u64"
  fw_StartImage :: "u64 \<Rightarrow> u64"
  fw_UnloadImage :: "u64 \<Rightarrow> u64"

definition HandleProtocol :: "firmware \<Rightarrow> u64 \<Rightarrow> EFIGUID \<Rightarrow> efi_error + u64" where
  "HandleProtocol fw handle guid =
     (if fw_BootServices fw = 0 then Inl ErrNoBootServices
      else case fw_HandleProtocol fw handle guid of
        Inl status \<Rightarrow> Inl (EFIError status ''HandleProtocol'')
      | Inr iface \<Rightarrow> Inr iface)"

definition LocateHandleBuffer :: "firmware \<Rightarrow> EFIGUID \<Rightarrow> mem \<Rightarrow> efi_error + u64 list" where
  "LocateHandleBuffer fw guid m =
     (if fw_BootServices fw = 0 then Inl ErrNoBootServices
      else case fw_LocateHandleBuffer fw guid of
        Inl status \<Rightarrow> Inl (EFIError status ''LocateHandleBuffer'')
      | Inr (count, handles) \<Rightarrow>
          if count = 0 \<or> handles = 0 then Inr []
          else Inr (map (\<lambda>i. readU64 m (handles + of_nat (8 * i))) [0..<unat count]))"

definition AllocatePool :: "firmware \<Rightarrow> u32 \<Rightarrow> nat \<Rightarrow> efi_error + u64" where
  "AllocatePool fw memoryType sz =
     (if fw_BootServices fw = 0 then Inl ErrNoBootServices
      else if sz = 0 then Inr 0
      else case fw_AllocatePool fw memoryType sz of
        Inl status \<Rightarrow> Inl (EFIError status ''AllocatePool'')
      | Inr addr \<Rightarrow> if addr = 0 then Inl (EFIError efiInvalidParameter ''AllocatePool: NULL'') else Inr addr)"

definition LoadImage :: "firmware \<Rightarrow> bytes \<Rightarrow> efi_error + u64" where
  "LoadImage fw srcBuf =
     (if srcBuf = [] then Inl ErrLoadImageNoSource
      else if fw_BootServices fw = 0 then Inl ErrNoBootServices
      else if fw_ImageHandle fw = 0 then Inl ErrNoBootServices
      else case fw_LoadImage fw (Inr srcBuf) of
        Inl status \<Rightarrow> Inl (EFIError status ''LoadImage'')
      | Inr child \<Rightarrow> Inr child)"

text \<open>The status is returned beside the error.\<close>

definition StartImage :: "firmware \<Rightarrow> u64 \<Rightarrow> u64 \<times> efi_error option" where
  "StartImage fw h =
     (if fw_BootServices fw = 0 then (0, Some ErrNoBootServices)
      else let status = fw_StartImage fw h in
        if status \<noteq> 0 then (status, Some (EFIError status ''StartImage'')) else (status, None))"

definition UnloadImage :: "firmware \<Rightarrow> u64 \<Rightarrow> efi_error option" where
  "UnloadImage fw h =
     (if fw_BootServices fw = 0 then Some ErrNoBootServices
      else let status = fw_UnloadImage fw h in
        if status \<noteq> 0 then Some (EFIError status ''UnloadImage'') else None)"

end
