(* ===== verification/Device_Path.thy ===== *)
theory Device_Path
  imports Efi_Firmware Go_Runes
begin

text \<open>
  Device paths, \<^verbatim>\<open>uefiboard/device_path.go\<close>, \<^verbatim>\<open>sfs_filter.go\<close>, \<^verbatim>\<open>sfs_filter_tamago.go\<close> and
  \<^verbatim>\<open>loadimage_sfs_tamago.go\<close>: walking a path in firmware memory, the prefix test that finds the file system
  on a published disk, and the path of a file on it.
\<close>

definition devPathTypeMedia :: byte where "devPathTypeMedia = 0x04"
definition devPathSubTypeFilePath :: byte where "devPathSubTypeFilePath = 0x04"
definition devPathTypeEnd :: byte where "devPathTypeEnd = 0x7F"
definition devPathSubTypeEndWhole :: byte where "devPathSubTypeEndWhole = 0xFF"

definition EFIDevicePathProtocolGUID :: EFIGUID where
  "EFIDevicePathProtocolGUID = \<lparr>Data1 = 0x09576e91, Data2 = 0x6d3f, Data3 = 0x11d2,
     Data4 = [0x8e, 0x39, 0x00, 0xa0, 0xc9, 0x69, 0x72, 0x3b]\<rparr>"

section \<open>The prefix test\<close>

text \<open>The loop over the nodes of \<open>body\<close>; \<open>None\<close> is an early return.\<close>

function prefixLoop :: "bytes \<Rightarrow> bytes \<Rightarrow> nat \<Rightarrow> nat option" where
  "prefixLoop body full p =
     (if p < length body then
        if p + 4 > length body \<or> p + 4 > length full then None
        else let ln = unat (leU16 (slice body (p + 2) (p + 4))) in
          if ln < 4 then None
          else if p + ln > length body \<or> p + ln > length full then None
          else if slice body p (p + ln) \<noteq> slice full p (p + ln) then None
          else prefixLoop body full (p + ln)
      else Some p)"
  by pat_completeness auto
termination
  by (relation "measure (\<lambda>(body, full, p). length body - p)") auto

declare prefixLoop.simps [simp del]

definition devicePathPrefix :: "bytes \<Rightarrow> bytes \<Rightarrow> bool" where
  "devicePathPrefix pre full =
     (if length pre < 4 then False
      else let endIdx = length pre - 4 in
      if pre ! endIdx \<noteq> devPathTypeEnd \<or> pre ! (endIdx + 1) \<noteq> devPathSubTypeEndWhole then False
      else let body = take endIdx pre in
      if length body \<ge> length full then False
      else case prefixLoop body full 0 of
        None \<Rightarrow> False
      | Some p \<Rightarrow>
          if p + 4 > length full then False
          else if full ! p = devPathTypeEnd \<and> full ! (p + 1) = devPathSubTypeEndWhole then False
          else True)"

text \<open>A node: its length field counts its header and its payload.\<close>

definition node_ok :: "bytes \<Rightarrow> bool" where
  "node_ok n = (4 \<le> length n \<and> unat (leU16 (slice n 2 4)) = length n)"

definition is_end :: "bytes \<Rightarrow> bool" where
  "is_end n = (2 \<le> length n \<and> n ! 0 = devPathTypeEnd \<and> n ! 1 = devPathSubTypeEndWhole)"

lemma slice_of_drop: "slice (drop p b) i j = slice b (p + i) (p + j)"
  by (simp add: slice_def add.commute)

lemma slice_take_drop: "slice b p (p + n) = take n (drop p b)"
  by (simp add: slice_def)

lemma nodes_Cons:
  assumes "ln = unat (leU16 (slice b 2 4))" "4 \<le> ln" "ln \<le> length b"
  shows "(\<exists>ns. list_all node_ok ns \<and> b = concat ns) \<longleftrightarrow> (\<exists>ns. list_all node_ok ns \<and> drop ln b = concat ns)"
proof
  assume "\<exists>ns. list_all node_ok ns \<and> drop ln b = concat ns"
  then obtain ns where ns: "list_all node_ok ns" "drop ln b = concat ns" by blast
  have "slice (take ln b) 2 4 = slice b 2 4"
    using assms(2) by (simp add: slice_def take_drop min_absorb2)
  then have "node_ok (take ln b)" using assms by (simp add: node_ok_def)
  then show "\<exists>ns. list_all node_ok ns \<and> b = concat ns"
    using ns by (intro exI [of _ "take ln b # ns"]) (simp add: ns(2) [symmetric])
next
  assume "\<exists>ns. list_all node_ok ns \<and> b = concat ns"
  then obtain ns where ns: "list_all node_ok ns" "b = concat ns" by blast
  with assms(2,3) obtain n ns' where n: "ns = n # ns'" by (cases ns) auto
  have "slice (n @ r) 2 4 = slice n 2 4" for r
    using ns n by (simp add: node_ok_def slice_def)
  then have "length n = ln" using ns n assms(1) by (simp add: node_ok_def)
  then show "\<exists>ns. list_all node_ok ns \<and> drop ln b = concat ns"
    using ns n by auto
qed

lemma nodes_short: "b \<noteq> [] \<Longrightarrow> length b < 4 \<or> unat (leU16 (slice b 2 4)) < 4 \<or> unat (leU16 (slice b 2 4)) > length b \<Longrightarrow>
    \<not> (list_all node_ok ns \<and> b = concat ns)"
proof (cases ns)
  case (Cons n ns')
  assume a: "b \<noteq> []" "length b < 4 \<or> unat (leU16 (slice b 2 4)) < 4 \<or> unat (leU16 (slice b 2 4)) > length b"
  have "slice (n @ r) 2 4 = slice n 2 4" if "4 \<le> length n" for r
    using that by (simp add: slice_def)
  then show ?thesis using a Cons by (auto simp: node_ok_def)
qed auto

lemma prefix_split:
  assumes "n \<le> length b"
  shows "b = take (length b) f \<longleftrightarrow> n \<le> length f \<and> take n b = take n f \<and> drop n b = take (length b - n) (drop n f)"
proof
  assume b: "b = take (length b) f"
  then have "length b \<le> length f" by (metis length_take min.absorb_iff2 min.commute)
  moreover have "take n b = take n f"
    using assms by (subst b) (simp add: min_absorb1)
  moreover have "drop n b = take (length b - n) (drop n f)"
    by (subst b) (simp add: drop_take)
  ultimately show "n \<le> length f \<and> take n b = take n f \<and> drop n b = take (length b - n) (drop n f)"
    using assms by simp
next
  assume a: "n \<le> length f \<and> take n b = take n f \<and> drop n b = take (length b - n) (drop n f)"
  have "b = take n f @ take (length b - n) (drop n f)"
    using a by (metis append_take_drop_id)
  also have "\<dots> = take (length b) f"
    using assms by (simp add: take_add [symmetric])
  finally show "b = take (length b) f" .
qed

lemma prefixLoop_spec:
  "prefixLoop body full p =
     (if (\<exists>ns. list_all node_ok ns \<and> drop p body = concat ns) \<and> drop p body = take (length body - p) (drop p full)
      then Some (max p (length body)) else None)"
proof (induction body full p rule: prefixLoop.induct)
  case (1 body full p)
  let ?b = "drop p body" and ?f = "drop p full"
  let ?ln = "unat (leU16 (slice body (p + 2) (p + 4)))"
  show ?case
  proof (cases "p < length body")
    case False
    then show ?thesis
      by (subst prefixLoop.simps) (auto intro!: exI [of _ "[]"])
  next
    case True
    have ln: "?ln = unat (leU16 (slice ?b 2 4))" by (simp add: slice_of_drop)
    show ?thesis
    proof (cases "p + 4 \<le> length body \<and> 4 \<le> ?ln \<and> p + ?ln \<le> length body")
      case F: False
      then have "prefixLoop body full p = None"
        using True by (subst prefixLoop.simps) (auto simp: Let_def)
      moreover have "\<not> (list_all node_ok ns \<and> ?b = concat ns)" for ns
        using F True ln by (intro nodes_short) auto
      ultimately show ?thesis by auto
    next
      case ok: True
      have le: "?ln \<le> length ?b" using ok by (simp add: le_diff_conv2)
      have eq: "?b = take (length body - p) ?f \<longleftrightarrow>
          p + ?ln \<le> length full \<and> slice body p (p + ?ln) = slice full p (p + ?ln) \<and>
          drop (p + ?ln) body = take (length body - (p + ?ln)) (drop (p + ?ln) full)"
      proof -
        have "p + ?ln \<le> length full \<longleftrightarrow> ?ln \<le> length ?f" using ok by (simp add: le_diff_conv2) arith
        then show ?thesis using prefix_split [OF le, of ?f] by (simp add: slice_take_drop add.commute)
      qed
      have nodes: "(\<exists>ns. list_all node_ok ns \<and> ?b = concat ns) \<longleftrightarrow> (\<exists>ns. list_all node_ok ns \<and> drop (p + ?ln) body = concat ns)"
        using nodes_Cons [OF ln _ le] ok by (simp add: add.commute)
      show ?thesis
        using True ok 1 [OF True _ refl] unfolding eq nodes
        by (subst prefixLoop.simps) (auto simp: Let_def)
    qed
  qed
qed

lemma devicePathPrefix_iff:
  "devicePathPrefix pre full \<longleftrightarrow>
     (\<exists>ns l1 l2 rest. list_all node_ok ns \<and> pre = concat ns @ [devPathTypeEnd, devPathSubTypeEndWhole, l1, l2] \<and>
        full = concat ns @ rest \<and> 4 \<le> length rest \<and> \<not> is_end rest)"
proof
  assume d: "devicePathPrefix pre full"
  let ?k = "length pre - 4"
  have p: "4 \<le> length pre" "pre ! ?k = devPathTypeEnd" "pre ! (?k + 1) = devPathSubTypeEndWhole" "?k < length full"
    using d by (auto simp: devicePathPrefix_def Let_def split: if_splits)
  obtain ns where ns: "list_all node_ok ns" "take ?k pre = concat ns" "take ?k pre = take ?k full"
    using d p by (auto simp: devicePathPrefix_def Let_def prefixLoop_spec min_absorb1 split: if_splits)
  have rest: "4 \<le> length (drop ?k full)" "\<not> is_end (drop ?k full)"
    using d p by (auto simp: devicePathPrefix_def Let_def prefixLoop_spec is_end_def min_absorb1 split: if_splits)
  have "length (drop ?k pre) = Suc (Suc (Suc (Suc 0)))" using p(1) by simp
  then obtain a b l1 l2 where l: "drop ?k pre = [a, b, l1, l2]" by (auto simp only: length_Suc_conv length_0_conv)
  have "pre ! ?k = drop ?k pre ! 0" "pre ! (?k + 1) = drop ?k pre ! 1" using p(1) by simp_all
  then have "pre = concat ns @ [devPathTypeEnd, devPathSubTypeEndWhole, l1, l2]"
    using ns(2) p(2,3) l append_take_drop_id [of ?k pre] by simp
  moreover have "full = concat ns @ drop ?k full"
    using ns(2,3) by (metis append_take_drop_id)
  ultimately show "\<exists>ns l1 l2 rest. list_all node_ok ns \<and> pre = concat ns @ [devPathTypeEnd, devPathSubTypeEndWhole, l1, l2] \<and>
        full = concat ns @ rest \<and> 4 \<le> length rest \<and> \<not> is_end rest"
    using ns(1) rest by blast
next
  assume "\<exists>ns l1 l2 rest. list_all node_ok ns \<and> pre = concat ns @ [devPathTypeEnd, devPathSubTypeEndWhole, l1, l2] \<and>
        full = concat ns @ rest \<and> 4 \<le> length rest \<and> \<not> is_end rest"
  then obtain ns l1 l2 rest where e: "list_all node_ok ns" "pre = concat ns @ [devPathTypeEnd, devPathSubTypeEndWhole, l1, l2]"
      "full = concat ns @ rest" "4 \<le> length rest" "\<not> is_end rest" by blast
  then have "prefixLoop (concat ns) full 0 = Some (length (concat ns))"
    by (auto simp: prefixLoop_spec)
  then show "devicePathPrefix pre full"
    using e by (auto simp: devicePathPrefix_def Let_def is_end_def nth_append)
qed

section \<open>Walking a path in memory\<close>

text \<open>
  The walk of \<^verbatim>\<open>devicePathBytes\<close>: from \<open>p\<close>, with the bytes collected so far. The loop has no bound of its own
  but the check on what was collected.
\<close>

partial_function (option) walkNodes :: "mem \<Rightarrow> u64 \<Rightarrow> bytes \<Rightarrow> (efi_error + bytes) option" where
  "walkNodes m p out =
     (if p = 0 then Some (Inl (ErrText ''uefi: DevicePath walk hit NULL''))
      else let t = m p; st = m (p + 1); ln = readU16 m (p + 2) in
      if ln < 4 then Some (Inl (ErrText ''uefi: DevicePath node length < 4 (malformed)''))
      else let out' = out @ readMem m p (unat ln) in
      if t = devPathTypeEnd \<and> st = devPathSubTypeEndWhole then Some (Inr out')
      else let p' = p + ucast ln in
      if length out' > 65536 then Some (Inl (ErrText ''uefi: DevicePath grew past 64 KiB without END node''))
      else walkNodes m p' out')"

definition devicePathBytes :: "firmware \<Rightarrow> u64 \<Rightarrow> mem \<Rightarrow> (efi_error + bytes) option" where
  "devicePathBytes fw handle m =
     (if handle = 0 then Some (Inl (ErrText ''uefi: devicePathBytes called with zero handle''))
      else case HandleProtocol fw handle EFIDevicePathProtocolGUID of
        Inl e \<Rightarrow> Some (Inl e)
      | Inr iface \<Rightarrow>
          if iface = 0 then Some (Inl (ErrText ''uefi: handle does not publish DevicePath''))
          else walkNodes m iface [])"

text \<open>A complete path: nodes that are not END, then an END node.\<close>

definition path_ok :: "bytes \<Rightarrow> bool" where
  "path_ok bs = (\<exists>ns e. list_all (\<lambda>n. node_ok n \<and> \<not> is_end n) ns \<and> node_ok e \<and> is_end e \<and> bs = concat ns @ e)"

lemma slice_readMem_head: "4 \<le> n \<Longrightarrow> slice (readMem m p n) 2 4 = readMem m (p + 2) 2"
  using slice_readMem [of 2 2 n m p] by simp

lemma node_in_memory:
  assumes "4 \<le> unat (readU16 m (p + 2))"
  shows "node_ok (readMem m p (unat (readU16 m (p + 2))))"
    "is_end (readMem m p (unat (readU16 m (p + 2)))) \<longleftrightarrow> m p = devPathTypeEnd \<and> m (p + 1) = devPathSubTypeEndWhole"
  using assms by (simp_all add: node_ok_def is_end_def slice_readMem_head readU16_def)

lemma walkNodes_total: "\<exists>r. walkNodes m p out = Some r"
proof (induction "65537 - length out" arbitrary: p out rule: less_induct)
  case less
  show ?case
    using less [of "out @ readMem m p (unat (readU16 m (p + 2)))" "p + ucast (readU16 m (p + 2))"]
    by (subst walkNodes.simps) (auto simp: Let_def word_less_nat_alt)
qed

lemma walkNodes_sound:
  "walkNodes m p out = Some (Inr bs) \<Longrightarrow> length out \<le> 65536 \<Longrightarrow>
     \<exists>k. bs = out @ readMem m p k \<and> path_ok (readMem m p k) \<and> length bs \<le> 65536 + 65535"
proof (induction "65537 - length out" arbitrary: p out rule: less_induct)
  case less
  let ?n = "unat (readU16 m (p + 2))"
  let ?out = "out @ readMem m p ?n"
  have n: "4 \<le> ?n"
    using less.prems(1) by (subst (asm) walkNodes.simps) (auto simp: Let_def word_less_nat_alt split: if_splits)
  have n': "?n < 65536" using unsigned_less [of "readU16 m (p + 2)"] by simp
  note node = node_in_memory [OF n]
  show ?case
  proof (cases "is_end (readMem m p ?n)")
    case True
    then have "bs = ?out"
      using less.prems(1) node(2) by (subst (asm) walkNodes.simps) (auto simp: Let_def split: if_splits)
    moreover have "path_ok (readMem m p ?n)"
      using True node(1) unfolding path_ok_def by (intro exI [of _ "[]"] exI [of _ "readMem m p ?n"]) simp
    moreover have "length out + ?n \<le> 131071" using n' less.prems(2) by linarith
    ultimately show ?thesis by (intro exI [of _ ?n]) simp
  next
    case False
    then have rec: "walkNodes m (p + of_nat ?n) ?out = Some (Inr bs)" "length ?out \<le> 65536"
      using less.prems(1) node(2) by (subst (asm) walkNodes.simps, auto simp: Let_def split: if_splits)+
    then obtain k where k: "bs = ?out @ readMem m (p + of_nat ?n) k" "path_ok (readMem m (p + of_nat ?n) k)"
        "length bs \<le> 65536 + 65535"
    proof -
      have "65537 - length ?out < 65537 - length out" using n less.prems(2) by simp
      then show ?thesis using less.hyps rec that by blast
    qed
    obtain ns e where e: "list_all (\<lambda>n. node_ok n \<and> \<not> is_end n) ns" "node_ok e" "is_end e"
        "readMem m (p + of_nat ?n) k = concat ns @ e"
      using k(2) by (auto simp: path_ok_def)
    then have "path_ok (readMem m p (?n + k))"
      using False node(1) unfolding path_ok_def readMem_append
      by (intro exI [of _ "readMem m p ?n # ns"] exI [of _ e]) simp
    then show ?thesis
      using k by (intro exI [of _ "?n + k"]) (simp add: readMem_append)
  qed
qed

text \<open>The walk finds a path that lies in memory, if its nodes take at most 64 KiB before the END node.\<close>

lemma walkNodes_complete:
  assumes "list_all (\<lambda>n. node_ok n \<and> \<not> is_end n) ns" "node_ok e" "is_end e" "readMem m p (length (concat ns @ e)) = concat ns @ e"
    and "length out + length (concat ns) \<le> 65536" "p \<noteq> 0" "unat p + length (concat ns @ e) < 2 ^ 64"
  shows "walkNodes m p out = Some (Inr (out @ concat ns @ e))"
  using assms
proof (induction ns arbitrary: p out)
  case Nil
  have e: "readMem m p (length e) = e" "4 \<le> length e" using Nil by (simp_all add: node_ok_def)
  have "unat (readU16 m (p + 2)) = length e"
    using Nil(2) e slice_readMem_head [of "length e" m p] by (simp add: node_ok_def readU16_def)
  then show ?case
    using Nil e node_in_memory [of m p] by (subst walkNodes.simps) (auto simp: Let_def word_less_nat_alt)
next
  case (Cons n ns)
  have split: "readMem m p (length n) = n" "readMem m (p + of_nat (length n)) (length (concat ns @ e)) = concat ns @ e"
    using Cons.prems(4) readMem_append [of m p "length n" "length (concat ns @ e)"] by simp_all
  have n: "4 \<le> length n" "node_ok n" "\<not> is_end n" using Cons.prems(1) by (simp_all add: node_ok_def)
  have u: "unat (readU16 m (p + 2)) = length n"
    using n split(1) slice_readMem_head [of "length n" m p] by (simp add: node_ok_def readU16_def)
  have nxt: "unat (p + of_nat (length n)) = unat p + length n"
    using Cons.prems(7) by (simp add: unat_plus_if_size word_size unat_of_nat_u64)
  then have "walkNodes m (p + of_nat (length n)) (out @ n) = Some (Inr ((out @ n) @ concat ns @ e))"
    using Cons.prems n split(2) by (intro Cons.IH) (auto simp: unat_eq_0 [symmetric])
  moreover have "ucast (readU16 m (p + 2)) = (of_nat (length n) :: u64)"
    using u by (metis of_nat_unat)
  ultimately show ?case
    using Cons.prems(5,6) n u split(1) node_in_memory [of m p]
    by (subst walkNodes.simps) (auto simp: Let_def word_less_nat_alt)
qed

section \<open>Finding the file system on a disk\<close>

definition EFISimpleFileSystemProtocolGUID :: EFIGUID where
  "EFISimpleFileSystemProtocolGUID = \<lparr>Data1 = 0x964e5b22, Data2 = 0x6459, Data3 = 0x11d2,
     Data4 = [0x8e, 0x39, 0x00, 0xa0, 0xc9, 0x69, 0x72, 0x3b]\<rparr>"

primrec childLoop :: "firmware \<Rightarrow> mem \<Rightarrow> bytes \<Rightarrow> u64 list \<Rightarrow> (efi_error + u64 \<times> bytes) option" where
  "childLoop fw m parentDP [] = Some (Inl ErrNoMatchingSFS)"
| "childLoop fw m parentDP (h # hs) =
     (case devicePathBytes fw h m of
        None \<Rightarrow> None
      | Some (Inl _) \<Rightarrow> childLoop fw m parentDP hs
      | Some (Inr childDP) \<Rightarrow>
          if devicePathPrefix parentDP childDP then Some (Inr (h, childDP)) else childLoop fw m parentDP hs)"

definition FindSFSChildOf :: "firmware \<Rightarrow> u64 \<Rightarrow> mem \<Rightarrow> (efi_error + u64 \<times> bytes) option" where
  "FindSFSChildOf fw parentHandle m =
     (if parentHandle = 0 then Some (Inl (ErrText ''uefi: FindSFSChildOf called with zero parent handle''))
      else case devicePathBytes fw parentHandle m of
        None \<Rightarrow> None
      | Some (Inl e) \<Rightarrow> Some (Inl e)
      | Some (Inr parentDP) \<Rightarrow>
          (case LocateHandleBuffer fw EFISimpleFileSystemProtocolGUID m of
             Inl e \<Rightarrow> Some (Inl e)
           | Inr sfsHandles \<Rightarrow> childLoop fw m parentDP sfsHandles))"

lemma devicePathBytes_total: "\<exists>r. devicePathBytes fw handle m = Some r"
  using walkNodes_total by (auto simp: devicePathBytes_def split: sum.split)

lemma devicePathBytes_ok:
  assumes "devicePathBytes fw handle m = Some (Inr bs)"
  shows "path_ok bs \<and> length bs \<le> 131071"
proof -
  obtain iface where "walkNodes m iface [] = Some (Inr bs)"
    using assms by (auto simp: devicePathBytes_def split: if_splits sum.splits)
  then show ?thesis using walkNodes_sound [of m iface "[]" bs] by auto
qed

text \<open>A handle whose path continues the given one.\<close>

definition sits_on :: "firmware \<Rightarrow> mem \<Rightarrow> bytes \<Rightarrow> u64 \<Rightarrow> bool" where
  "sits_on fw m parentDP h = (\<exists>d. devicePathBytes fw h m = Some (Inr d) \<and> devicePathPrefix parentDP d)"

lemma childLoop_find:
  "childLoop fw m parentDP hs =
     Some (case find (sits_on fw m parentDP) hs of
             None \<Rightarrow> Inl ErrNoMatchingSFS
           | Some h \<Rightarrow> Inr (h, projr (the (devicePathBytes fw h m))))"
proof (induction hs)
  case (Cons h hs)
  then show ?case using devicePathBytes_total [of fw h m] by (auto simp: sits_on_def split: sum.split)
qed simp

section \<open>The path of a file\<close>

primrec ucs2Path :: "nat list \<Rightarrow> efi_error + bytes" where
  "ucs2Path [] = Inr []"
| "ucs2Path (r # rs) =
     (if r > 0xFFFF then Inl (ErrText ''uefi: filepath contains non-BMP char'')
      else case ucs2Path rs of Inl e \<Rightarrow> Inl e | Inr b \<Rightarrow> Inr (putLE16 (of_nat r) @ b))"

definition buildFilePathDevicePath :: "bytes \<Rightarrow> string \<Rightarrow> efi_error + bytes" where
  "buildFilePathDevicePath parent efiPath =
     (if length parent < 4 then Inl (ErrText ''uefi: parent device path too short'')
      else let endIdx = length parent - 4 in
      if parent ! endIdx \<noteq> devPathTypeEnd \<or> parent ! (endIdx + 1) \<noteq> devPathSubTypeEndWhole then
        Inl (ErrText ''uefi: parent device path not END-terminated'')
      else case ucs2Path (runesOf efiPath) of
        Inl e \<Rightarrow> Inl e
      | Inr b \<Rightarrow>
          let ucs2 = b @ [0, 0];
              ln = (of_nat (4 + length ucs2) :: u16);
              node = [devPathTypeMedia, devPathSubTypeFilePath] @ putLE16 ln @ ucs2 in
          Inr (take endIdx parent @ node @ [devPathTypeEnd, devPathSubTypeEndWhole, 0x04, 0x00]))"

definition LoadImageFromSFS :: "firmware \<Rightarrow> bytes \<Rightarrow> string \<Rightarrow> efi_error + u64" where
  "LoadImageFromSFS fw sfsParentDevicePath efiPath =
     (if fw_BootServices fw = 0 then Inl ErrNoBootServices
      else if fw_ImageHandle fw = 0 then Inl ErrNoBootServices
      else case buildFilePathDevicePath sfsParentDevicePath efiPath of
        Inl e \<Rightarrow> Inl e
      | Inr dp \<Rightarrow>
          (case fw_LoadImage fw (Inl dp) of
             Inl status \<Rightarrow> Inl (EFIError status ''LoadImage(SFS+FilePath)'')
           | Inr child \<Rightarrow> Inr child))"

lemma ucs2Path_length: "ucs2Path rs = Inr b \<Longrightarrow> length b = 2 * length rs"
  by (induction rs arbitrary: b) (auto split: if_splits sum.splits)

text \<open>
  The node of a file is well formed when the name has fewer than 32766 characters; the length field has
  sixteen bits.
\<close>

lemma file_path_ok:
  assumes p: "list_all (\<lambda>n. node_ok n \<and> \<not> is_end n) ns" "parent = concat ns @ [devPathTypeEnd, devPathSubTypeEndWhole, 4, 0]"
    and b: "buildFilePathDevicePath parent efiPath = Inr dp" and len: "length (runesOf efiPath) < 32765"
  shows "path_ok dp \<and> devicePathPrefix parent dp"
proof -
  obtain b where u: "ucs2Path (runesOf efiPath) = Inr b"
    using b by (auto simp: buildFilePathDevicePath_def Let_def split: if_splits sum.splits)
  let ?ln = "of_nat (4 + length (b @ [0 :: byte, 0])) :: u16"
  let ?n = "[devPathTypeMedia, devPathSubTypeFilePath] @ putLE16 ?ln @ b @ [0, 0]"
  have dp: "dp = concat ns @ ?n @ [devPathTypeEnd, devPathSubTypeEndWhole, 4, 0]"
    using b u p(2) by (auto simp: buildFilePathDevicePath_def Let_def nth_append)
  have l: "unat ?ln = length ?n"
  proof -
    have "unat ?ln = 4 + length (b @ [0 :: byte, 0])"
      using ucs2Path_length [OF u] len by (simp only: unat_of_nat) (simp add: mod_less)
    then show ?thesis by simp
  qed
  have n: "node_ok ?n" "\<not> is_end ?n"
    using l by (simp_all add: node_ok_def is_end_def devPathTypeMedia_def devPathTypeEnd_def slice_def)
  have e: "node_ok [devPathTypeEnd, devPathSubTypeEndWhole, 4, 0]" "is_end [devPathTypeEnd, devPathSubTypeEndWhole, 4, 0]"
    by (simp_all add: node_ok_def is_end_def slice_def leU16_def)
  have "path_ok dp"
    using p(1) n e unfolding path_ok_def dp
    by (intro exI [of _ "ns @ [?n]"] exI [of _ "[devPathTypeEnd, devPathSubTypeEndWhole, 4, 0]"]) simp
  moreover have "list_all node_ok ns" using p(1) by (simp add: list_all_iff)
  ultimately show ?thesis
    using n(2) unfolding devicePathPrefix_iff p(2) dp
    by (intro conjI exI [of _ ns] exI [of _ 4] exI [of _ 0] exI [of _ "?n @ [devPathTypeEnd, devPathSubTypeEndWhole, 4, 0]"])
      (simp_all add: is_end_def)
qed

section \<open>An example\<close>

definition demoDisk :: bytes where "demoDisk = [1, 1, 4, 0]"
definition demoPart :: bytes where "demoPart = [4, 1, 4, 0]"
definition demoEnd :: bytes where "demoEnd = [0x7F, 0xFF, 4, 0]"

definition demoPaths :: mem where
  "demoPaths = writeMem 4096 (demoDisk @ demoEnd) (writeMem 4352 (demoDisk @ demoPart @ demoEnd) (writeU64 8192 2 (\<lambda>_. 0)))"

definition demoFirmware :: firmware where
  "demoFirmware = \<lparr>fw_BootServices = 8, fw_ImageHandle = 16,
     fw_HandleProtocol = (\<lambda>h _. if h = 1 then Inr 4096 else if h = 2 then Inr 4352 else Inl 14),
     fw_LocateHandleBuffer = (\<lambda>_. Inr (1, 8192)), fw_AllocatePool = (\<lambda>_ _. Inl 9), fw_LoadImage = (\<lambda>_. Inl 14),
     fw_StartImage = (\<lambda>_. 0), fw_UnloadImage = (\<lambda>_. 0)\<rparr>"

lemma demo_nodes: "node_ok demoDisk" "\<not> is_end demoDisk" "node_ok demoPart" "\<not> is_end demoPart" "node_ok demoEnd" "is_end demoEnd"
  by (simp_all add: node_ok_def is_end_def demoDisk_def demoPart_def demoEnd_def slice_def leU16_def devPathTypeEnd_def
      devPathSubTypeEndWhole_def)

lemma demo_walks:
  "walkNodes demoPaths 4096 [] = Some (Inr (demoDisk @ demoEnd))"
  "walkNodes demoPaths 4352 [] = Some (Inr (demoDisk @ demoPart @ demoEnd))"
proof -
  let ?p = "demoDisk @ demoEnd" and ?c = "demoDisk @ demoPart @ demoEnd"
  have l: "length demoDisk = 4" "length demoPart = 4" "length demoEnd = 4" by (simp_all add: demoDisk_def demoPart_def demoEnd_def)
  have "readMem demoPaths 4096 (length ?p) = ?p"
    unfolding demoPaths_def by (rule readMem_writeMem_same) (simp add: l)
  then show "walkNodes demoPaths 4096 [] = Some (Inr ?p)"
    using walkNodes_complete [of "[demoDisk]" demoEnd demoPaths 4096 "[]"] demo_nodes by (simp add: l)
  have "readMem demoPaths 4352 (length ?c) = ?c"
    using readMem_writeMem_same [of ?c 4352] unfolding demoPaths_def
    by (subst readMem_writeMem_apart) (simp_all add: apart_def l)
  then show "walkNodes demoPaths 4352 [] = Some (Inr ?c)"
    using walkNodes_complete [of "[demoDisk, demoPart]" demoEnd demoPaths 4352 "[]"] demo_nodes by (simp add: l)
qed

section \<open>Properties\<close>

text \<open>
  The prefix test is exact: one path is a strict prefix of another precisely when the first is a sequence of
  nodes and an END node, and the second continues the same nodes with at least one that is not END.
\<close>

lemma device_path_prefix_exact:
  "devicePathPrefix pre full \<longleftrightarrow>
     (\<exists>ns l1 l2 rest. list_all node_ok ns \<and> pre = concat ns @ [devPathTypeEnd, devPathSubTypeEndWhole, l1, l2] \<and>
        full = concat ns @ rest \<and> 4 \<le> length rest \<and> \<not> is_end rest)"
  by (rule devicePathPrefix_iff)

text \<open>
  C31. The search for the file system on a disk ends, whatever the device paths in memory look like, and a handle it returns is
  registered as a file system and has a complete device path that continues the nodes of the disk's path
  by at least one more.
\<close>

theorem find_sfs_child:
  "\<exists>r. FindSFSChildOf fw parentHandle m = Some r \<and>
     (\<forall>h dp. r = Inr (h, dp) \<longrightarrow>
        (\<exists>hs ns l1 l2 rest. LocateHandleBuffer fw EFISimpleFileSystemProtocolGUID m = Inr hs \<and> h \<in> set hs \<and>
           devicePathBytes fw h m = Some (Inr dp) \<and> path_ok dp \<and>
           devicePathBytes fw parentHandle m = Some (Inr (concat ns @ [devPathTypeEnd, devPathSubTypeEndWhole, l1, l2])) \<and>
           list_all node_ok ns \<and> dp = concat ns @ rest \<and> \<not> is_end rest))"
proof -
  obtain r where r: "devicePathBytes fw parentHandle m = Some r" using devicePathBytes_total by blast
  show ?thesis
  proof (cases "parentHandle = 0 \<or> (\<exists>e. r = Inl e) \<or> (\<exists>e. LocateHandleBuffer fw EFISimpleFileSystemProtocolGUID m = Inl e)")
    case True
    then show ?thesis using r by (auto simp: FindSFSChildOf_def split: sum.split)
  next
    case False
    then obtain pdp hs where p: "r = Inr pdp" "LocateHandleBuffer fw EFISimpleFileSystemProtocolGUID m = Inr hs" "parentHandle \<noteq> 0"
      by (metis sum.exhaust)
    have f: "FindSFSChildOf fw parentHandle m = childLoop fw m pdp hs"
      using p r by (simp add: FindSFSChildOf_def)
    have "\<exists>ns l1 l2 rest. h \<in> set hs \<and> devicePathBytes fw h m = Some (Inr dp) \<and> path_ok dp \<and>
        pdp = concat ns @ [devPathTypeEnd, devPathSubTypeEndWhole, l1, l2] \<and> list_all node_ok ns \<and> dp = concat ns @ rest \<and> \<not> is_end rest"
      if "childLoop fw m pdp hs = Some (Inr (h, dp))" for h dp
    proof -
      have "h \<in> set hs" "sits_on fw m pdp h" "dp = projr (the (devicePathBytes fw h m))"
        using that by (auto simp: childLoop_find find_Some_iff split: option.splits)
      then have h: "h \<in> set hs" "devicePathBytes fw h m = Some (Inr dp)" "devicePathPrefix pdp dp"
        by (auto simp: sits_on_def)
      then show ?thesis
        using devicePathBytes_ok [OF h(2)] unfolding devicePathPrefix_iff by blast
    qed
    then show ?thesis
      using f r p by (auto simp: childLoop_find)
  qed
qed

theorem find_sfs_child_witness:
  "\<exists>dp rest. FindSFSChildOf demoFirmware 1 demoPaths = Some (Inr (2, dp)) \<and> path_ok dp \<and> dp = demoDisk @ rest \<and> \<not> is_end rest"
proof -
  have hs: "LocateHandleBuffer demoFirmware EFISimpleFileSystemProtocolGUID demoPaths = Inr [2]"
    by (simp add: LocateHandleBuffer_def demoFirmware_def demoPaths_def apart_def demoDisk_def demoPart_def demoEnd_def)
  have d: "devicePathBytes demoFirmware 1 demoPaths = Some (Inr (demoDisk @ demoEnd))"
      "devicePathBytes demoFirmware 2 demoPaths = Some (Inr (demoDisk @ demoPart @ demoEnd))"
    using demo_walks by (simp_all add: devicePathBytes_def HandleProtocol_def demoFirmware_def)
  have "devicePathPrefix (demoDisk @ demoEnd) (demoDisk @ demoPart @ demoEnd)"
    unfolding devicePathPrefix_iff using demo_nodes
    by (intro exI [of _ "[demoDisk]"] exI [of _ 4] exI [of _ 0] exI [of _ "demoPart @ demoEnd"])
      (simp add: demoEnd_def demoPart_def is_end_def devPathTypeEnd_def devPathSubTypeEndWhole_def)
  then have f: "FindSFSChildOf demoFirmware 1 demoPaths = Some (Inr (2, demoDisk @ demoPart @ demoEnd))"
    using hs d by (simp add: FindSFSChildOf_def)
  then have "path_ok (demoDisk @ demoPart @ demoEnd)"
    using find_sfs_child [of demoFirmware 1 demoPaths] d(2) by auto
  moreover have "\<not> is_end (demoPart @ demoEnd)"
    by (simp add: demoEnd_def demoPart_def is_end_def devPathTypeEnd_def)
  ultimately show ?thesis using f by blast
qed

end
