(* ===== verification/Load_Options.thy ===== *)
theory Load_Options
  imports Efi_Firmware Go_Runes
begin

text \<open>
  Preparing a loaded image, \<^verbatim>\<open>uefiboard/load_options.go\<close>, \<^verbatim>\<open>load_options_tamago.go\<close> and
  \<^verbatim>\<open>inherit_device_handle.go\<close>: the command line in the image's load options, and the device it was loaded
  from.
\<close>

definition efiLoadedImageDeviceHandle :: u64 where "efiLoadedImageDeviceHandle = 24"
definition efiLoadedImageFilePath :: u64 where "efiLoadedImageFilePath = 32"
definition efiLoadedImageLoadOptionsSize :: u64 where "efiLoadedImageLoadOptionsSize = 48"
definition efiLoadedImageLoadOptions :: u64 where "efiLoadedImageLoadOptions = 56"

definition EFILoadedImageProtocolGUID :: EFIGUID where
  "EFILoadedImageProtocolGUID = \<lparr>Data1 = 0x5b1b31a1, Data2 = 0x9562, Data3 = 0x11d2,
     Data4 = [0x8e, 0x3f, 0x00, 0xa0, 0xc9, 0x69, 0x72, 0x3b]\<rparr>"

section \<open>UTF-16\<close>

definition utf16Rune :: "nat \<Rightarrow> bytes" where
  "utf16Rune r =
     (if r < 0x10000 \<and> (r < 0xD800 \<or> r > 0xDFFF) then putLE16 (of_nat r)
      else if r \<ge> 0x10000 \<and> r \<le> 0x10FFFF then
        (let r' = r - 0x10000 in putLE16 (of_nat (0xD800 + r' div 1024)) @ putLE16 (of_nat (0xDC00 + r' mod 1024)))
      else [0xFD, 0xFF])"

definition utf16LECmdline :: "string \<Rightarrow> bytes" where
  "utf16LECmdline s = concat (map utf16Rune (runesOf s)) @ [0x00, 0x00]"

text \<open>How a reader of UTF-16 takes the text up to the terminator apart.\<close>

fun utf16Read :: "bytes \<Rightarrow> nat list" where
  "utf16Read (a # b # c # d # r) =
     (let u = unat (leU16 [a, b]); v = unat (leU16 [c, d]) in
      if u = 0 then []
      else if 0xD800 \<le> u \<and> u < 0xDC00 then (0x10000 + (u - 0xD800) * 1024 + (v - 0xDC00)) # utf16Read r
      else u # utf16Read (c # d # r))"
| "utf16Read (a # b # r) = (let u = unat (leU16 [a, b]) in if u = 0 then [] else [u])"
| "utf16Read r = []"

lemma putLE16_cons: "\<exists>a b. putLE16 v = [a, b] \<and> leU16 [a, b] = v"
  using leU_putLE_nil(1) [of v] by (auto simp: putLE16_def)

lemma utf16Read_rune:
  assumes "validRune r" "r \<noteq> 0" "2 \<le> length t"
  shows "utf16Read (utf16Rune r @ t) = r # utf16Read t"
proof -
  obtain c d t' where t: "t = c # d # t'" using assms(3) by (cases t; cases "tl t") auto
  show ?thesis
  proof (cases "r < 0x10000")
    case True
    obtain a b where ab: "putLE16 (of_nat r) = [a, b]" "leU16 [a, b] = of_nat r" using putLE16_cons by blast
    have u: "unat (leU16 [a, b]) = r" using True by (simp add: ab unat_of_nat_u16)
    show ?thesis using True assms(1,2) u by (auto simp: utf16Rune_def validRune_def ab t Let_def)
  next
    case False
    let ?q = "r - 0x10000"
    have q: "?q < 1048576" using assms(1) False by (simp add: validRune_def)
    obtain a b where ab: "putLE16 (of_nat (0xD800 + ?q div 1024)) = [a, b]" "leU16 [a, b] = of_nat (0xD800 + ?q div 1024)"
      using putLE16_cons by blast
    obtain e f where ef: "putLE16 (of_nat (0xDC00 + ?q mod 1024)) = [e, f]" "leU16 [e, f] = of_nat (0xDC00 + ?q mod 1024)"
      using putLE16_cons by blast
    have u: "unat (leU16 [a, b]) = 0xD800 + ?q div 1024" "unat (leU16 [e, f]) = 0xDC00 + ?q mod 1024"
      unfolding ab(2) ef(2) by (intro unat_of_nat_u16; use q in auto)+
    have "utf16Rune r = [a, b, e, f]"
      using False assms(1) ab(1) ef(1) unfolding utf16Rune_def validRune_def Let_def by simp
    moreover have "0x10000 + ?q div 1024 * 1024 + ?q mod 1024 = r" using False by simp
    moreover have "?q div 1024 < 1024" using q by auto
    ultimately show ?thesis by (simp add: u Let_def)
  qed
qed

lemma utf16Read_runes:
  "list_all validRune rs \<Longrightarrow> 0 \<notin> set rs \<Longrightarrow> utf16Read (concat (map utf16Rune rs) @ [0, 0]) = rs"
proof (induction rs)
  case (Cons r rs)
  then show ?case using utf16Read_rune [of r "concat (map utf16Rune rs) @ [0, 0]"] by simp
qed (simp add: leU16_def)

lemma utf16_cmdline_roundtrip: "0 \<notin> set (runesOf s) \<Longrightarrow> utf16Read (utf16LECmdline s) = runesOf s"
  by (simp add: utf16LECmdline_def utf16Read_runes runesOf_valid)

section \<open>Load options\<close>

definition SetLoadOptions :: "firmware \<Rightarrow> u64 \<Rightarrow> string \<Rightarrow> mem \<Rightarrow> efi_error option \<times> mem" where
  "SetLoadOptions fw handle cmdline m =
     (if handle = 0 then (Some ErrNilHandle, m)
      else if cmdline = [] then (Some ErrEmptyCmdline, m)
      else if fw_BootServices fw = 0 then (Some ErrNoBootServices, m)
      else case HandleProtocol fw handle EFILoadedImageProtocolGUID of
        Inl e \<Rightarrow> (Some e, m)
      | Inr lip \<Rightarrow>
          if lip = 0 then (Some (EFIError efiInvalidParameter ''HandleProtocol(LoadedImage)''), m)
          else let enc = utf16LECmdline cmdline in
          if length enc < 2 then (Some ErrEmptyCmdline, m)
          else case fw_AllocatePool fw EfiLoaderData (length enc) of
            Inl status \<Rightarrow> (Some (EFIError status ''AllocatePool(LoadOptions)''), m)
          | Inr poolPtr \<Rightarrow>
              if poolPtr = 0 then (Some (EFIError efiInvalidParameter ''AllocatePool(LoadOptions): NULL''), m)
              else (None, writeU64 (lip + efiLoadedImageLoadOptions) poolPtr
                            (writeU32 (lip + efiLoadedImageLoadOptionsSize) (of_nat (length enc))
                              (writeMem poolPtr enc m))))"

definition InheritParentDeviceHandle :: "firmware \<Rightarrow> u64 \<Rightarrow> mem \<Rightarrow> efi_error option \<times> mem" where
  "InheritParentDeviceHandle fw childHandle m =
     (if childHandle = 0 then (Some ErrNilHandle, m)
      else if fw_ImageHandle fw = 0 then (Some ErrNoBootServices, m)
      else case HandleProtocol fw (fw_ImageHandle fw) EFILoadedImageProtocolGUID of
        Inl e \<Rightarrow> (Some e, m)
      | Inr parentLIP \<Rightarrow>
          if parentLIP = 0 then (Some (EFIError efiInvalidParameter ''HandleProtocol(LoadedImage, parent)''), m)
          else case HandleProtocol fw childHandle EFILoadedImageProtocolGUID of
            Inl e \<Rightarrow> (Some e, m)
          | Inr childLIP \<Rightarrow>
              if childLIP = 0 then (Some (EFIError efiInvalidParameter ''HandleProtocol(LoadedImage, child)''), m)
              else let parentDH = readU64 m (parentLIP + efiLoadedImageDeviceHandle);
                       parentFP = readU64 m (parentLIP + efiLoadedImageFilePath) in
                (None, writeU64 (childLIP + efiLoadedImageFilePath) parentFP
                         (writeU64 (childLIP + efiLoadedImageDeviceHandle) parentDH m)))"

text \<open>What a successful call leaves in memory.\<close>

lemma SetLoadOptions_done:
  assumes "SetLoadOptions fw handle cmdline m = (None, m')" "fw_HandleProtocol fw handle EFILoadedImageProtocolGUID = Inr lip"
    and "fw_AllocatePool fw EfiLoaderData (length (utf16LECmdline cmdline)) = Inr pool"
  shows "m' = writeU64 (lip + 56) pool (writeU32 (lip + 48) (of_nat (length (utf16LECmdline cmdline)))
      (writeMem pool (utf16LECmdline cmdline) m))"
  using assms
  by (auto simp: SetLoadOptions_def HandleProtocol_def Let_def efiLoadedImageLoadOptions_def efiLoadedImageLoadOptionsSize_def
      split: if_splits)

lemma InheritParentDeviceHandle_done:
  assumes "InheritParentDeviceHandle fw child m = (None, m')"
    and "fw_HandleProtocol fw (fw_ImageHandle fw) EFILoadedImageProtocolGUID = Inr plip"
    and "fw_HandleProtocol fw child EFILoadedImageProtocolGUID = Inr lip"
  shows "m' = writeU64 (lip + 32) (readU64 m (plip + 32)) (writeU64 (lip + 24) (readU64 m (plip + 24)) m)"
  using assms
  by (auto simp: InheritParentDeviceHandle_def HandleProtocol_def Let_def efiLoadedImageDeviceHandle_def
      efiLoadedImageFilePath_def split: if_splits)

section \<open>An example\<close>

definition demoLoader :: firmware where
  "demoLoader = \<lparr>fw_BootServices = 8, fw_ImageHandle = 16,
     fw_HandleProtocol = (\<lambda>h _. if h = 16 then Inr 4096 else if h = 17 then Inr 8192 else Inl 14),
     fw_LocateHandleBuffer = (\<lambda>_. Inl 14), fw_AllocatePool = (\<lambda>_ _. Inr 65536), fw_LoadImage = (\<lambda>_. Inl 14),
     fw_StartImage = (\<lambda>_. 0), fw_UnloadImage = (\<lambda>_. 0)\<rparr>"

definition demoImages :: mem where
  "demoImages = writeU64 4120 77 (writeU64 4128 88 (\<lambda>_. 0))"

lemma demo_cmdline: "runesOf ''a'' = [97]" "utf16LECmdline ''a'' = [97, 0, 0, 0]"
proof -
  show r: "runesOf ''a'' = [97]" by (simp add: runesOf_def decodeRunes.simps runeSize_def)
  show "utf16LECmdline ''a'' = [97, 0, 0, 0]" by (simp add: utf16LECmdline_def r utf16Rune_def putLE16_def)
qed

section \<open>Properties\<close>

text \<open>
  C32. A kernel finds its command line and its boot volume: after the two preparation calls, the load options of the
  image hold the address and the exact size of a UTF-16 text whose characters, read up to the
  terminator, are those of the command line, and device handle and file path are those of the parent.
  The pool block that firmware allocates shares no byte with the two image structures, which are distinct.
\<close>

theorem image_prepared:
  assumes "SetLoadOptions fw child cmdline m = (None, m1)" "InheritParentDeviceHandle fw child m1 = (None, m2)"
    and "fw_HandleProtocol fw (fw_ImageHandle fw) EFILoadedImageProtocolGUID = Inr plip"
    and "fw_HandleProtocol fw child EFILoadedImageProtocolGUID = Inr lip" "apart plip 96 lip 96"
    and "fw_AllocatePool fw EfiLoaderData (length (utf16LECmdline cmdline)) = Inr pool"
    and "apart pool (length (utf16LECmdline cmdline)) lip 96" "apart pool (length (utf16LECmdline cmdline)) plip 96"
    and "length (utf16LECmdline cmdline) < 2 ^ 32" "0 \<notin> set (runesOf cmdline)"
  shows "utf16Read (readMem m2 (readU64 m2 (lip + 56)) (unat (readU32 m2 (lip + 48)))) = runesOf cmdline \<and>
    readU64 m2 (lip + 24) = readU64 m (plip + 24) \<and> readU64 m2 (lip + 32) = readU64 m (plip + 32)"
proof -
  let ?enc = "utf16LECmdline cmdline"
  have m1: "m1 = writeU64 (lip + 56) pool (writeU32 (lip + 48) (of_nat (length ?enc)) (writeMem pool ?enc m))"
    by (rule SetLoadOptions_done [OF assms(1,4,6)])
  have m2: "m2 = writeU64 (lip + 32) (readU64 m1 (plip + 32)) (writeU64 (lip + 24) (readU64 m1 (plip + 24)) m1)"
    by (rule InheritParentDeviceHandle_done [OF assms(2,3,4)])
  have lip: "apart pool (length ?enc) (lip + of_nat off) k" "apart plip 96 (lip + of_nat off) k"
    if "off + k \<le> 96" "0 < k" for off k
    using apart_sub [OF assms(7) that] apart_sub [OF assms(5) that] by simp_all
  have plip: "apart (lip + of_nat off) k (plip + of_nat off') k'" "apart pool (length ?enc) (plip + of_nat off') k'"
    if "off + k \<le> 96" "0 < k" "off' + k' \<le> 96" "0 < k'" for off k off' k'
    using apart_sub [OF apart_sym [OF lip(2) [OF that(1,2)]] that(3,4)] apart_sub [OF assms(8) that(3,4)] by simp_all
  have sz: "unat (of_nat (length ?enc) :: u32) = length ?enc"
    using assms(9) by (simp add: unat_of_nat take_bit_eq_mod)
  have pool: "readMem m2 pool (length ?enc) = ?enc"
    using lip [of 24 8] lip [of 32 8] lip [of 48 4] lip [of 56 8] assms(9)
    by (simp add: m2 m1 apart_sym readMem_writeMem_same)
  have "readU64 m2 (lip + 56) = pool" "readU32 m2 (lip + 48) = of_nat (length ?enc)"
    by (simp_all add: m2 m1 apart_def)
  moreover have "readU64 m1 (plip + 24) = readU64 m (plip + 24)" "readU64 m1 (plip + 32) = readU64 m (plip + 32)"
    using plip [of 48 4 24 8] plip [of 48 4 32 8] plip [of 56 8 24 8] plip [of 56 8 32 8] by (simp_all add: m1)
  ultimately show ?thesis
    using pool sz utf16_cmdline_roundtrip [OF assms(10)] by (simp add: m2 apart_def)
qed

theorem image_prepared_witness:
  "\<exists>m1 m2. SetLoadOptions demoLoader 17 ''a'' demoImages = (None, m1) \<and> InheritParentDeviceHandle demoLoader 17 m1 = (None, m2) \<and>
     utf16Read (readMem m2 (readU64 m2 8248) (unat (readU32 m2 8240))) = [97] \<and>
     readU64 m2 8216 = 77 \<and> readU64 m2 8224 = 88"
proof -
  obtain m1 where m1: "SetLoadOptions demoLoader 17 ''a'' demoImages = (None, m1)"
    by (simp add: SetLoadOptions_def HandleProtocol_def demoLoader_def demo_cmdline Let_def)
  obtain m2 where m2: "InheritParentDeviceHandle demoLoader 17 m1 = (None, m2)"
    by (simp add: InheritParentDeviceHandle_def HandleProtocol_def demoLoader_def Let_def)
  have "utf16Read (readMem m2 (readU64 m2 (8192 + 56)) (unat (readU32 m2 (8192 + 48)))) = runesOf ''a'' \<and>
      readU64 m2 (8192 + 24) = readU64 demoImages (4096 + 24) \<and> readU64 m2 (8192 + 32) = readU64 demoImages (4096 + 32)"
    by (rule image_prepared [OF m1 m2, where pool = 65536]) (simp_all add: demoLoader_def demo_cmdline apart_def)
  then show ?thesis
    using m1 m2 by (simp add: demo_cmdline demoImages_def apart_def)
qed

end
