(* ===== verification/Memory_Map.thy ===== *)
theory Memory_Map
  imports Efi_Firmware
begin

text \<open>
  The UEFI memory map, \<^verbatim>\<open>uefiboard/memorymap.go\<close> and \<^verbatim>\<open>memorymap_tamago.go\<close>: the descriptor parser with its
  stride, and the call that sizes a buffer, fetches the map into it and retries while the map grows.
\<close>

definition efiMemoryDescriptorSize :: nat where "efiMemoryDescriptorSize = 40"

text \<open>The Go struct also has a padding word, which nothing reads or sets.\<close>

record MemoryDescriptor =
  md_Type :: u32
  md_PhysicalStart :: u64
  md_VirtualStart :: u64
  md_NumberOfPages :: u64
  md_Attribute :: u64

record MemoryMap =
  mm_Descriptors :: "MemoryDescriptor list"
  mm_MapKey :: u64
  mm_DescriptorSize :: u64
  mm_DescriptorVersion :: u32

section \<open>Parsing\<close>

definition descriptorAt :: "bytes \<Rightarrow> nat \<Rightarrow> MemoryDescriptor" where
  "descriptorAt buf base =
     \<lparr>md_Type = leU32 (slice buf base (base + 4)),
      md_PhysicalStart = leU64 (slice buf (base + 8) (base + 16)),
      md_VirtualStart = leU64 (slice buf (base + 16) (base + 24)),
      md_NumberOfPages = leU64 (slice buf (base + 24) (base + 32)),
      md_Attribute = leU64 (slice buf (base + 32) (base + 40))\<rparr>"

text \<open>The loop, with the iterations left and the index.\<close>

primrec descriptorLoop :: "nat \<Rightarrow> nat \<Rightarrow> bytes \<Rightarrow> nat \<Rightarrow> MemoryDescriptor list" where
  "descriptorLoop 0 i buf stride = []"
| "descriptorLoop (Suc k) i buf stride =
     (let base = i * stride in
      if base + efiMemoryDescriptorSize > length buf then []
      else descriptorAt buf base # descriptorLoop k (i + 1) buf stride)"

definition parseMemoryMap :: "bytes \<Rightarrow> u64 \<Rightarrow> MemoryDescriptor list" where
  "parseMemoryMap buf descriptorSize =
     (if length buf = 0 \<or> descriptorSize = 0 then []
      else if unat descriptorSize < efiMemoryDescriptorSize then []
      else let n = length buf div unat descriptorSize in
      if n = 0 then [] else descriptorLoop n 0 buf (unat descriptorSize))"

text \<open>A descriptor as firmware lays it out: padding behind the type, private bytes at the end.\<close>

definition descriptorBytes :: "MemoryDescriptor \<Rightarrow> bytes \<Rightarrow> bytes \<Rightarrow> bytes" where
  "descriptorBytes d pad priv =
     putLE32 (md_Type d) @ pad @ putLE64 (md_PhysicalStart d) @ putLE64 (md_VirtualStart d) @
     putLE64 (md_NumberOfPages d) @ putLE64 (md_Attribute d) @ priv"

definition laid_out :: "nat \<Rightarrow> MemoryDescriptor \<Rightarrow> bytes \<Rightarrow> bool" where
  "laid_out stride d b = (\<exists>pad priv. length pad = 4 \<and> length priv + 40 = stride \<and> b = descriptorBytes d pad priv)"

lemma laid_out_length: "laid_out stride d b \<Longrightarrow> length b = stride"
  by (auto simp: laid_out_def descriptorBytes_def)

lemma slice_append: "slice (xs @ ys) (length xs + i) (length xs + j) = slice ys i j"
  by (simp add: slice_def)

lemma slice_skip: "n = length xs \<Longrightarrow> slice (xs @ ys) (n + i) (n + j) = slice ys i j"
  by (simp add: slice_append)

lemma descriptorAt_laid_out:
  assumes "laid_out stride d b"
  shows "descriptorAt (pre @ b @ post) (length pre) = d"
proof -
  obtain pad priv where b: "length pad = 4" "b = descriptorBytes d pad priv"
    using assms by (auto simp: laid_out_def)
  have "descriptorAt (pre @ b @ post) (length pre) = descriptorAt (b @ post) 0"
    using slice_append [of pre "b @ post"] slice_append [of pre "b @ post" 0] by (simp add: descriptorAt_def)
  also have "\<dots> = d"
    using b(1) by (simp add: descriptorAt_def b(2) descriptorBytes_def slice_def)
  finally show ?thesis .
qed

lemma descriptorLoop_layout:
  assumes "list_all2 (laid_out stride) ds bs" "40 \<le> stride" "length pre = i * stride"
  shows "descriptorLoop (length ds) i (pre @ concat bs @ post) stride = ds"
  using assms
proof (induction ds bs arbitrary: i pre rule: list_all2_induct)
  case (Cons d ds b bs)
  have l: "length b = stride" by (rule laid_out_length [OF Cons(1)])
  have "descriptorLoop (length ds) (Suc i) ((pre @ b) @ concat bs @ post) stride = ds"
    using Cons.prems l by (intro Cons.IH) auto
  then show ?case
    using Cons.prems l descriptorAt_laid_out [OF Cons(1), of pre "concat bs @ post"]
    by (simp add: Let_def efiMemoryDescriptorSize_def)
qed simp

lemma concat_layout_length: "list_all2 (laid_out stride) ds bs \<Longrightarrow> length (concat bs) = length ds * stride"
  by (induction ds bs rule: list_all2_induct) (auto simp: laid_out_length)

lemma parse_memory_map_roundtrip:
  assumes "list_all2 (laid_out (unat stride)) ds bs" "40 \<le> unat stride" "length post < unat stride"
  shows "parseMemoryMap (concat bs @ post) stride = ds"
proof (cases "ds = []")
  case True
  then show ?thesis
    using assms by (auto simp: parseMemoryMap_def Let_def)
next
  case False
  have l: "length (concat bs @ post) = length ds * unat stride + length post"
    using concat_layout_length [OF assms(1)] by simp
  then have n: "length (concat bs @ post) div unat stride = length ds"
    using assms(2,3) by simp
  have "descriptorLoop (length ds) 0 ([] @ concat bs @ post) (unat stride) = ds"
    using assms by (intro descriptorLoop_layout) auto
  then show ?thesis
    using False assms(2) l n unfolding parseMemoryMap_def Let_def
    by (auto simp: efiMemoryDescriptorSize_def)
qed

section \<open>Fetching the map\<close>

text \<open>
  The variables that a call of \<^verbatim>\<open>gBS->GetMemoryMap\<close> reads and writes. Firmware answers call number \<open>k\<close> with a
  status, the new values of the variables, and what it writes into the buffer.
\<close>

record mapVars =
  mv_size :: u64
  mv_mapKey :: u64
  mv_descSize :: u64
  mv_descVer :: u32

type_synonym mapFirmware = "nat \<Rightarrow> mapVars \<Rightarrow> u64 \<times> mapVars \<times> bytes"

text \<open>
  The retry loop, with the attempts left, the number of the next call and the buffer size. \<open>maxAlloc\<close> is the
  largest allocation of the Go runtime; beyond it \<^verbatim>\<open>make\<close> panics, as do the index \<^verbatim>\<open>buf[0]\<close> into an empty
  buffer and the slice \<^verbatim>\<open>buf[:size]\<close> beyond its end.
\<close>

primrec mapLoop :: "nat \<Rightarrow> nat \<Rightarrow> nat \<Rightarrow> mapFirmware \<Rightarrow> u64 \<Rightarrow> mapVars \<Rightarrow> efi_error + MemoryMap" where
  "mapLoop 0 k maxAlloc gmm bufSize v = Inl ErrMapTooSmall"
| "mapLoop (Suc n) k maxAlloc gmm bufSize v =
     (if unat bufSize > maxAlloc \<or> bufSize = 0 then Inl GoPanic
      else case gmm k (v\<lparr>mv_size := bufSize\<rparr>) of
        (status, v', written) \<Rightarrow>
          if status = 0 then
            let buf = take (unat bufSize) written @ replicate (unat bufSize - length written) 0 in
            if mv_size v' > bufSize then Inl GoPanic
            else Inr \<lparr>mm_Descriptors = parseMemoryMap (take (unat (mv_size v')) buf) (mv_descSize v'),
                      mm_MapKey = mv_mapKey v', mm_DescriptorSize = mv_descSize v', mm_DescriptorVersion = mv_descVer v'\<rparr>
          else if status = efiBufferTooSmall then mapLoop n (k + 1) maxAlloc gmm (mv_size v' + 4 * mv_descSize v') v'
          else Inl (EFIError status ''GetMemoryMap''))"

definition GetMemoryMap :: "nat \<Rightarrow> u64 \<Rightarrow> mapFirmware \<Rightarrow> efi_error + MemoryMap" where
  "GetMemoryMap maxAlloc bs gmm =
     (if bs = 0 then Inl ErrNoBootServices
      else case gmm 0 \<lparr>mv_size = 0, mv_mapKey = 0, mv_descSize = 0, mv_descVer = 0\<rparr> of
        (status, v, _) \<Rightarrow>
          if status \<noteq> efiBufferTooSmall \<and> status \<noteq> 0 then Inl (EFIError status ''GetMemoryMap (probe)'')
          else if mv_size v = 0 then
            Inr \<lparr>mm_Descriptors = [], mm_MapKey = mv_mapKey v, mm_DescriptorSize = mv_descSize v, mm_DescriptorVersion = mv_descVer v\<rparr>
          else let v' = (if mv_descSize v = 0 then v\<lparr>mv_descSize := of_nat efiMemoryDescriptorSize\<rparr> else v) in
            mapLoop 4 1 maxAlloc gmm (mv_size v' + 4 * mv_descSize v') v')"

section \<open>Properties\<close>

text \<open>
  Firmware as UEFI specifies it: call \<open>k\<close> sees the map \<open>maps k\<close>, in descriptors of \<open>stride\<close> bytes. It stores the size of the
  map in bytes, and the map itself when the buffer is large enough.
\<close>

definition spec_answer :: "u64 \<Rightarrow> (nat \<Rightarrow> bytes list) \<Rightarrow> (nat \<Rightarrow> u64) \<Rightarrow> mapFirmware" where
  "spec_answer stride maps keys k v =
     (let need = of_nat (length (maps k)) * stride; v' = v\<lparr>mv_size := need, mv_descSize := stride, mv_descVer := 1\<rparr> in
      if need \<le> mv_size v then (0, v'\<lparr>mv_mapKey := keys k\<rparr>, concat (maps k)) else (efiBufferTooSmall, v', []))"

definition spec_maps :: "u64 \<Rightarrow> nat \<Rightarrow> (nat \<Rightarrow> MemoryDescriptor list) \<Rightarrow> (nat \<Rightarrow> bytes list) \<Rightarrow> bool" where
  "spec_maps stride maxAlloc ds maps =
     (40 \<le> unat stride \<and> maxAlloc < 2 ^ 63 \<and>
      (\<forall>k. ds k \<noteq> [] \<and> list_all2 (laid_out (unat stride)) (ds k) (maps k) \<and> (length (ds k) + 4) * unat stride \<le> maxAlloc))"

lemma spec_maps_unat:
  assumes "spec_maps stride maxAlloc ds maps"
  shows "unat (of_nat (length (ds k)) * stride) = length (ds k) * unat stride"
    "unat (of_nat (length (ds k) + 4) * stride) = (length (ds k) + 4) * unat stride"
    "length (maps k) = length (ds k)" "of_nat (length (ds k)) * stride \<noteq> 0" "of_nat (length (ds k) + 4) * stride \<noteq> 0"
proof -
  have b: "(length (ds k) + 4) * unat stride < 2 ^ 63" "40 \<le> unat stride" "ds k \<noteq> []"
    using assms by (auto simp: spec_maps_def intro: le_less_trans)
  have m: "unat (of_nat n * stride) = n * unat stride" if "n \<le> length (ds k) + 4" for n
  proof -
    have "n * unat stride \<le> (length (ds k) + 4) * unat stride" using that by (rule mult_le_mono1)
    then have "n * unat stride < 2 ^ 63" using b(1) by (rule le_less_trans)
    then have "n * unat stride < 2 ^ 64" by (rule less_trans) simp
    then have "unat (of_nat (n * unat stride) :: u64) = n * unat stride" by (rule unat_of_nat_u64)
    then show ?thesis by simp
  qed
  show u: "unat (of_nat (length (ds k)) * stride) = length (ds k) * unat stride"
    "unat (of_nat (length (ds k) + 4) * stride) = (length (ds k) + 4) * unat stride"
    using m [of "length (ds k)"] m [of "length (ds k) + 4"] by simp_all
  show "length (maps k) = length (ds k)"
    using assms by (metis spec_maps_def list_all2_lengthD)
  have "0 < length (ds k) * unat stride" "0 < (length (ds k) + 4) * unat stride"
    using b(2,3) by simp_all
  then show "of_nat (length (ds k)) * stride \<noteq> 0" "of_nat (length (ds k) + 4) * stride \<noteq> 0"
    using u by (metis less_irrefl unat_0)+
qed

definition fetched :: "u64 \<Rightarrow> (nat \<Rightarrow> MemoryDescriptor list) \<Rightarrow> (nat \<Rightarrow> u64) \<Rightarrow> nat option \<Rightarrow> efi_error + MemoryMap" where
  "fetched stride ds keys r =
     (case r of
        None \<Rightarrow> Inl ErrMapTooSmall
      | Some k \<Rightarrow> Inr \<lparr>mm_Descriptors = ds k, mm_MapKey = keys k, mm_DescriptorSize = stride, mm_DescriptorVersion = 1\<rparr>)"

lemma mapLoop_spec:
  assumes sp: "spec_maps stride maxAlloc ds maps"
  shows "0 < k \<Longrightarrow> mapLoop n k maxAlloc (spec_answer stride maps keys) (of_nat (length (ds (k - 1)) + 4) * stride) v =
    fetched stride ds keys (find (\<lambda>k. length (ds k) \<le> length (ds (k - 1)) + 4) [k..<k + n])"
proof (induction n arbitrary: k v)
  case (Suc n)
  let ?buf = "of_nat (length (ds (k - 1)) + 4) * stride" and ?need = "of_nat (length (ds k)) * stride"
  note u = spec_maps_unat [OF sp]
  have st: "40 \<le> unat stride" using sp by (simp add: spec_maps_def)
  have fits: "?need \<le> ?buf \<longleftrightarrow> length (ds k) \<le> length (ds (k - 1)) + 4"
    using st unfolding word_le_nat_alt u by (metis mult_le_cancel2 less_le_trans zero_less_numeral)
  have room: "\<not> unat ?buf > maxAlloc" "?buf \<noteq> 0"
    using sp u by (auto simp: spec_maps_def not_less)
  have upt: "[k..<k + Suc n] = k # [Suc k..<Suc k + n]" by (simp add: upt_conv_Cons)
  show ?case
  proof (cases "length (ds k) \<le> length (ds (k - 1)) + 4")
    case True
    have "list_all2 (laid_out (unat stride)) (ds k) (maps k)" using sp by (simp add: spec_maps_def)
    then have p: "parseMemoryMap (concat (maps k)) stride = ds k" "length (concat (maps k)) = unat ?need"
      using parse_memory_map_roundtrip [of stride "ds k" "maps k" "[]"] concat_layout_length st u by auto
    have le: "unat ?need \<le> unat ?buf" using True fits by (simp only: word_le_nat_alt)
    then have t: "take (unat ?need) (take (unat ?buf) (concat (maps k)) @ r) = concat (maps k)" for r
      using p(2) by simp
    have le': "?need \<le> ?buf" using True fits by simp
    let ?v = "v\<lparr>mv_size := ?need, mv_descSize := stride, mv_descVer := 1, mv_mapKey := keys k\<rparr>"
    have ans: "spec_answer stride maps keys k (v\<lparr>mv_size := ?buf\<rparr>) = (0, ?v, concat (maps k))"
      unfolding spec_answer_def Let_def u(3) using le' by simp
    have "mapLoop (Suc n) k maxAlloc (spec_answer stride maps keys) ?buf v =
        Inr \<lparr>mm_Descriptors = ds k, mm_MapKey = keys k, mm_DescriptorSize = stride, mm_DescriptorVersion = 1\<rparr>"
      using room le' unfolding mapLoop.simps ans by (simp add: t [unfolded One_nat_def] p(1) not_less del: of_nat_add take_append take_take)
    then show ?thesis using True by (simp only: upt find.simps if_True fetched_def option.case)
  next
    case False
    then have "mapLoop (Suc n) k maxAlloc (spec_answer stride maps keys) ?buf v =
        mapLoop n (Suc k) maxAlloc (spec_answer stride maps keys) (?need + 4 * stride) (v\<lparr>mv_size := ?need, mv_descSize := stride, mv_descVer := 1\<rparr>)"
      using fits room by (simp add: spec_answer_def u(3) Let_def efiBufferTooSmall_def)
    also have "?need + 4 * stride = of_nat (length (ds (Suc k - 1)) + 4) * stride"
      by (simp add: distrib_right)
    finally show ?thesis
      using Suc.IH [of "Suc k"] False by (simp only: upt find.simps if_False)
  qed
qed (simp add: fetched_def)

text \<open>
  C33. The memory map is fetched whole: against firmware that follows the specification, with whatever private bytes behind
  each descriptor, the call returns the map as of the first of its four attempts at which it has grown
  by at most four descriptors since the attempt before, with the key of that map; if it grows faster
  four times, the call gives up. It makes at most five firmware calls.
\<close>

theorem memory_map_fetched:
  assumes "spec_maps stride maxAlloc ds maps" "bs \<noteq> 0"
  shows "GetMemoryMap maxAlloc bs (spec_answer stride maps keys) =
    (case find (\<lambda>k. length (ds k) \<le> length (ds (k - 1)) + 4) [1..<5] of
       None \<Rightarrow> Inl ErrMapTooSmall
     | Some k \<Rightarrow> Inr \<lparr>mm_Descriptors = ds k, mm_MapKey = keys k, mm_DescriptorSize = stride, mm_DescriptorVersion = 1\<rparr>)"
proof -
  let ?need = "of_nat (length (ds 0)) * stride"
  note u = spec_maps_unat [OF assms(1), of 0]
  have "40 \<le> unat stride" using assms(1) by (simp add: spec_maps_def)
  then have "stride \<noteq> 0" by auto
  then have "GetMemoryMap maxAlloc bs (spec_answer stride maps keys) =
      mapLoop 4 1 maxAlloc (spec_answer stride maps keys) (?need + 4 * stride)
        \<lparr>mv_size = ?need, mv_mapKey = 0, mv_descSize = stride, mv_descVer = 1\<rparr>"
    using assms(2) u(3,4) by (simp add: GetMemoryMap_def spec_answer_def Let_def efiBufferTooSmall_def)
  also have "?need + 4 * stride = of_nat (length (ds (1 - 1)) + 4) * stride"
    by (simp add: distrib_right)
  finally show ?thesis
    using mapLoop_spec [OF assms(1), of 1 4 keys] by (simp add: fetched_def)
qed

theorem memory_map_fetched_witness:
  "let d = \<lparr>md_Type = 7, md_PhysicalStart = 4096, md_VirtualStart = 0, md_NumberOfPages = 16, md_Attribute = 15\<rparr>;
       n = (\<lambda>k. if k = 0 then 1 else 6) in
   GetMemoryMap 4096 8 (spec_answer 48 (\<lambda>k. replicate (n k) (descriptorBytes d [0, 0, 0, 0] (replicate 8 255))) of_nat) =
     Inr \<lparr>mm_Descriptors = replicate 6 d, mm_MapKey = 2, mm_DescriptorSize = 48, mm_DescriptorVersion = 1\<rparr>"
proof -
  let ?d = "\<lparr>md_Type = 7, md_PhysicalStart = 4096, md_VirtualStart = 0, md_NumberOfPages = 16, md_Attribute = 15\<rparr>"
  let ?n = "\<lambda>k :: nat. if k = 0 then 1 else 6 :: nat"
  let ?maps = "\<lambda>k. replicate (?n k) (descriptorBytes ?d [0, 0, 0, 0] (replicate 8 255))"
  have "laid_out 48 ?d (descriptorBytes ?d [0, 0, 0, 0] (replicate 8 255))"
    unfolding laid_out_def by (intro exI conjI refl) simp_all
  then have sp: "spec_maps 48 4096 (\<lambda>k. replicate (?n k) ?d) ?maps"
    by (simp add: spec_maps_def list_all2_conv_all_nth)
  have "find (\<lambda>k. length (replicate (?n k) ?d) \<le> length (replicate (?n (k - 1)) ?d) + 4) [1..<5] = Some 2"
    by (simp add: upt_rec)
  then show ?thesis
    using memory_map_fetched [OF sp, of 8 of_nat] by (simp add: Let_def)
qed

end
