(* ===== verification/Go_Base64.thy ===== *)
theory Go_Base64
  imports Go_Strings
begin

text \<open>
  Go's \<^verbatim>\<open>base64.StdEncoding\<close>: padded, not strict about the unused bits of the last group, and ignoring
  line breaks when decoding.
\<close>

definition b64Char :: "nat \<Rightarrow> char" where
  "b64Char n =
     (if n < 26 then char_of (65 + n) else if n < 52 then char_of (71 + n)
      else if n < 62 then char_of (n - 4) else if n = 62 then CHR ''+'' else CHR ''/'')"

definition b64Val :: "char \<Rightarrow> nat option" where
  "b64Val c =
     (let n = of_char c :: nat in
      if 65 \<le> n \<and> n \<le> 90 then Some (n - 65) else if 97 \<le> n \<and> n \<le> 122 then Some (n - 71)
      else if 48 \<le> n \<and> n \<le> 57 then Some (n + 4) else if n = 43 then Some 62 else if n = 47 then Some 63 else None)"

text \<open>The groups of four characters; padding may stand only at the end of the last one.\<close>

fun b64Groups :: "string \<Rightarrow> bytes option" where
  "b64Groups [] = Some []"
| "b64Groups (a # b # c # d # rest) =
     (case (b64Val a, b64Val b) of
        (Some x, Some y) \<Rightarrow>
          (case (b64Val c, b64Val d) of
             (Some z, Some u) \<Rightarrow>
               map_option (\<lambda>bs. [of_nat (4 * x + y div 16), of_nat (16 * y + z div 4), of_nat (64 * z + u)] @ bs) (b64Groups rest)
           | (Some z, None) \<Rightarrow>
               if d = CHR ''='' \<and> rest = [] then Some [of_nat (4 * x + y div 16), of_nat (16 * y + z div 4)] else None
           | (None, _) \<Rightarrow>
               if c = CHR ''='' \<and> d = CHR ''='' \<and> rest = [] then Some [of_nat (4 * x + y div 16)] else None)
      | _ \<Rightarrow> None)"
| "b64Groups _ = None"

definition DecodeString :: "string \<Rightarrow> bytes option" where
  "DecodeString s = b64Groups (filter (\<lambda>c. c \<noteq> CR \<and> c \<noteq> LF) s)"

fun EncodeToString :: "bytes \<Rightarrow> string" where
  "EncodeToString [] = []"
| "EncodeToString [a] = [b64Char (unat a div 4), b64Char (unat a mod 4 * 16), CHR ''='', CHR ''='']"
| "EncodeToString [a, b] =
     [b64Char (unat a div 4), b64Char (unat a mod 4 * 16 + unat b div 16), b64Char (unat b mod 16 * 4), CHR ''='']"
| "EncodeToString (a # b # c # rest) =
     [b64Char (unat a div 4), b64Char (unat a mod 4 * 16 + unat b div 16),
      b64Char (unat b mod 16 * 4 + unat c div 64), b64Char (unat c mod 64)] @ EncodeToString rest"

lemma b64Val_Char: "n < 64 \<Longrightarrow> b64Val (b64Char n) = Some n"
  by (auto simp: b64Val_def b64Char_def of_char_of Let_def)

lemma b64Val_break: "b64Val CR = None" "b64Val LF = None" "b64Val (CHR ''='') = None"
  by (simp_all add: b64Val_def CR_def LF_def Let_def)

lemma b64Char_no_break: "n < 64 \<Longrightarrow> b64Char n \<noteq> CR \<and> b64Char n \<noteq> LF"
  using b64Val_Char [of n] b64Val_break by auto

lemma byte_bits: "unat (a :: byte) div 4 < 64" "unat a div 16 < 16" "unat a div 64 < 4"
  using unat_byte_less [of a] by (simp_all add: less_mult_imp_div_less)

lemma sextet_bounds:
  "unat (a :: byte) mod 4 * 16 + unat (b :: byte) div 16 < 64" "unat b mod 16 * 4 + unat (c :: byte) div 64 < 64"
  "unat a mod 4 * 16 < 64" "unat b mod 16 * 4 < 64"
  using byte_bits [of b] byte_bits [of c] pos_mod_bound by (auto intro: less_le_trans simp: less_Suc_eq)

lemma byte_of_nat: "(of_nat (unat b + 256 * k) :: byte) = b"
proof -
  have "(of_nat 256 :: byte) = 0" by simp
  then show ?thesis by (simp only: of_nat_add of_nat_mult mult_zero_left add_0_right of_nat_unat_byte)
qed

lemma EncodeToString_no_break: "filter (\<lambda>c. c \<noteq> CR \<and> c \<noteq> LF) (EncodeToString bs) = EncodeToString bs"
proof -
  have "CHR ''='' \<noteq> CR \<and> CHR ''='' \<noteq> LF" by (simp add: CR_def LF_def)
  then show ?thesis
    by (induction bs rule: EncodeToString.induct) (simp_all add: b64Char_no_break sextet_bounds byte_bits)
qed

lemma DecodeString_Encode: "DecodeString (EncodeToString bs) = Some bs"
proof -
  have "b64Groups (EncodeToString bs) = Some bs"
    by (induction bs rule: EncodeToString.induct)
      (simp_all add: b64Val_Char sextet_bounds byte_bits b64Val_break(3) byte_of_nat del: of_nat_add of_nat_mult)
  then show ?thesis by (simp add: DecodeString_def EncodeToString_no_break)
qed

end
