(* ===== verification/Cosign.thy ===== *)
theory Cosign
  imports Oci_Fetch Go_Base64
begin

text \<open>
  Keyed signature verification of \<^verbatim>\<open>uefiboard/ministack/oci/cosign.go\<close>: the tags under which signatures are
  published, the signed texts, the three forms of a signature, and \<^verbatim>\<open>Verify\<close> over the registry client.
  The cryptography (\<^verbatim>\<open>ecdsa.VerifyASN1\<close>, \<^verbatim>\<open>pem.Decode\<close>, \<^verbatim>\<open>x509.ParsePKIXPublicKey\<close>) and \<^verbatim>\<open>json.Unmarshal\<close>
  are arguments of the definitions; \<open>'k\<close> is the type of ECDSA keys.
\<close>

section \<open>Errors and constants\<close>

text \<open>
  The errors of the file. \<open>NoMatchingSignature\<close> carries what its message gives as the cause; the others that
  only add context to an error are that error.
\<close>

datatype cosign_error =
    ErrCosignPEMBad | ErrParsePKIX | ErrCosignKeyNotECDSA | ErrCosignCurveNotP256
  | ErrCosignSigManifestEmpty | ErrCosignNoMatchingSignature "cosign_error option" | ErrCosignBadManifestDigest
  | ErrCosignBundleMalformed | ErrCosignBundleAlgo
  | ErrSignatureBase64 nat | ErrLayerUnsigned nat string | ErrSignatureRejected nat
  | ErrRegistry oci_error | ErrSigFetch "oci_error option"

definition CosignSignatureAnnotation :: string where "CosignSignatureAnnotation = ''dev.cosignproject.cosign/signature''"
definition CosignPayloadType :: string where "CosignPayloadType = ''cosign container image signature''"
definition SigstoreBundleMediaTypeV02 :: string where
  "SigstoreBundleMediaTypeV02 = ''application/vnd.dev.sigstore.bundle.v0.2+json''"
definition SigstoreBundleMediaTypeV03 :: string where
  "SigstoreBundleMediaTypeV03 = ''application/vnd.dev.sigstore.bundle.v0.3+json''"

datatype sigFormat = sigFormatLegacy | sigFormatBundleV3 | sigFormatBundleV3DSSE

record parsedSignature =
  ps_format :: sigFormat
  ps_bytes :: bytes
  ps_messageDigest :: bytes
  ps_dssePayload :: bytes
  ps_dssePayloadTy :: string
  ps_subjectDigest :: string

section \<open>The key\<close>

text \<open>What \<^verbatim>\<open>x509.ParsePKIXPublicKey\<close> returns: an ECDSA key with the name of its curve, if it has one, or another kind of key.\<close>

datatype 'k publicKey = EcdsaKey 'k "string option" | OtherKey

definition NewCosignVerifier ::
  "(bytes \<Rightarrow> bytes option) \<Rightarrow> (bytes \<Rightarrow> 'k publicKey option) \<Rightarrow> bytes \<Rightarrow> cosign_error + 'k" where
  "NewCosignVerifier pemDecode parsePKIX pemPubKey =
     (case pemDecode pemPubKey of
        None \<Rightarrow> Inl ErrCosignPEMBad
      | Some block \<Rightarrow>
          (case parsePKIX block of
             None \<Rightarrow> Inl ErrParsePKIX
           | Some OtherKey \<Rightarrow> Inl ErrCosignKeyNotECDSA
           | Some (EcdsaKey ec curve) \<Rightarrow> if curve \<noteq> Some ''P-256'' then Inl ErrCosignCurveNotP256 else Inr ec))"

section \<open>Tags and signed texts\<close>

definition SigTag :: "string \<Rightarrow> oci_error + string" where
  "SigTag manifestDigest =
     (case ParseDigest manifestDigest of Inl e \<Rightarrow> Inl e | Inr (algo, hexStr) \<Rightarrow> Inr (algo @ ''-'' @ hexStr @ ''.sig''))"

definition SigTagOCI11 :: "string \<Rightarrow> oci_error + string" where
  "SigTagOCI11 manifestDigest =
     (case ParseDigest manifestDigest of Inl e \<Rightarrow> Inl e | Inr (algo, hexStr) \<Rightarrow> Inr (algo @ ''-'' @ hexStr))"

definition candidateSigTags :: "string \<Rightarrow> oci_error + string list" where
  "candidateSigTags manifestDigest =
     (case SigTag manifestDigest of
        Inl e \<Rightarrow> Inl e
      | Inr legacy \<Rightarrow>
          (case SigTagOCI11 manifestDigest of Inl e \<Rightarrow> Inl e | Inr oci11 \<Rightarrow> Inr [legacy, oci11]))"

definition escapeChar :: "char \<Rightarrow> string" where
  "escapeChar c =
     (if c = CHR 0x22 then [CHR 0x5C, CHR 0x22]
      else if c = CHR 0x5C then [CHR 0x5C, CHR 0x5C]
      else if c = CHR 0x0A then [CHR 0x5C, CHR ''n'']
      else if c = CHR 0x0D then [CHR 0x5C, CHR ''r'']
      else if c = CHR 0x09 then [CHR 0x5C, CHR ''t'']
      else if (of_char c :: nat) < 0x20 then
        [CHR 0x5C, CHR ''u'', CHR ''0'', CHR ''0'', hex_char (of_char c div 16), hex_char (of_char c mod 16)]
      else [c])"

definition jsonEscape :: "string \<Rightarrow> string" where
  "jsonEscape s = concat (map escapeChar s)"

definition CanonicalPayload :: "string \<Rightarrow> string \<Rightarrow> bytes" where
  "CanonicalPayload dockerReference manifestDigest =
     unchars (''{\"critical\":{\"identity\":{\"docker-reference\":\"'' @ jsonEscape dockerReference @
       ''\"},\"image\":{\"docker-manifest-digest\":\"'' @ jsonEscape manifestDigest @
       ''\"},\"type\":\"'' @ CosignPayloadType @ ''\"},\"optional\":null}'')"

text \<open>The digits of \<^verbatim>\<open>itoaInt\<close>, written from the back of its buffer.\<close>

function itoaLoop :: "int \<Rightarrow> string \<Rightarrow> string" where
  "itoaLoop n b = (if n > 0 then itoaLoop (n div 10) (char_of (nat (48 + n mod 10)) # b) else b)"
  by pat_completeness auto
termination by (relation "measure (\<lambda>(n, b). nat n)") auto

declare itoaLoop.simps [simp del]

definition itoaInt :: "int \<Rightarrow> string" where
  "itoaInt n = (if n = 0 then ''0'' else itoaLoop n [])"

definition dssePAE :: "string \<Rightarrow> bytes \<Rightarrow> bytes" where
  "dssePAE payloadType payload =
     unchars (''DSSEv1 '' @ itoaInt (int (length payloadType)) @ '' '' @ payloadType @ '' '' @
       itoaInt (int (length payload)) @ '' '') @ payload"

section \<open>Signature manifests and bundles\<close>

record sigLayerDescr =
  sl_MediaType :: string
  sl_Digest :: string
  sl_Size :: int
  sl_Annotations :: "string \<rightharpoonup> string"

record sigManifest =
  sm_SchemaVersion :: int
  sm_MediaType :: string
  sm_Layers :: "sigLayerDescr list"

record bundleMessageSignature =
  bm_Algorithm :: string
  bm_Digest :: string
  bm_Signature :: string

record bundleDsseEnvelope =
  bd_Payload :: string
  bd_PayloadType :: string
  bd_Signatures :: "string list"

record sigstoreBundle =
  sb_MediaType :: string
  sb_MessageSignature :: "bundleMessageSignature option"
  sb_DsseEnvelope :: "bundleDsseEnvelope option"

record inTotoStatement =
  it_Type :: string
  it_Subject :: "(string \<rightharpoonup> string) list"

text \<open>What \<^verbatim>\<open>json.Unmarshal\<close> makes of a body for the three types it is called on; \<open>None\<close> is its error.\<close>

record sigDecoders =
  js_sigManifest :: "bytes \<Rightarrow> sigManifest option"
  js_bundle :: "bytes \<Rightarrow> sigstoreBundle option"
  js_statement :: "bytes \<Rightarrow> inTotoStatement option"

definition parseSigManifest :: "sigDecoders \<Rightarrow> bytes \<Rightarrow> cosign_error + sigManifest" where
  "parseSigManifest js raw =
     (if length raw = 0 then Inl (ErrRegistry ErrManifestEmpty)
      else case js_sigManifest js raw of None \<Rightarrow> Inl (ErrRegistry ErrJSON) | Some m \<Rightarrow> Inr m)"

definition isSigstoreBundleMediaType :: "string \<Rightarrow> bool" where
  "isSigstoreBundleMediaType mt = (mt = SigstoreBundleMediaTypeV02 \<or> mt = SigstoreBundleMediaTypeV03)"

definition parseSigstoreBundleMessageSignature :: "bundleMessageSignature \<Rightarrow> cosign_error + parsedSignature" where
  "parseSigstoreBundleMessageSignature ms =
     (if bm_Signature ms = [] then Inl ErrCosignBundleMalformed
      else if bm_Digest ms = [] then Inl ErrCosignBundleMalformed
      else if bm_Algorithm ms \<noteq> ''SHA2_256'' then Inl ErrCosignBundleAlgo
      else case DecodeString (bm_Signature ms) of
        None \<Rightarrow> Inl ErrCosignBundleMalformed
      | Some sig \<Rightarrow>
          (case DecodeString (bm_Digest ms) of
             None \<Rightarrow> Inl ErrCosignBundleMalformed
           | Some digest \<Rightarrow>
               if length digest \<noteq> 32 then Inl ErrCosignBundleMalformed
               else Inr \<lparr>ps_format = sigFormatBundleV3, ps_bytes = sig, ps_messageDigest = digest,
                         ps_dssePayload = [], ps_dssePayloadTy = [], ps_subjectDigest = []\<rparr>))"

definition parseSigstoreBundleDSSE :: "sigDecoders \<Rightarrow> bundleDsseEnvelope \<Rightarrow> cosign_error + parsedSignature" where
  "parseSigstoreBundleDSSE js env =
     (if bd_Payload env = [] then Inl ErrCosignBundleMalformed
      else if bd_PayloadType env = [] then Inl ErrCosignBundleMalformed
      else if bd_Signatures env = [] \<or> hd (bd_Signatures env) = [] then Inl ErrCosignBundleMalformed
      else case DecodeString (bd_Payload env) of
        None \<Rightarrow> Inl ErrCosignBundleMalformed
      | Some payload \<Rightarrow>
          (case DecodeString (hd (bd_Signatures env)) of
             None \<Rightarrow> Inl ErrCosignBundleMalformed
           | Some sig \<Rightarrow>
               (case js_statement js payload of
                  None \<Rightarrow> Inl ErrCosignBundleMalformed
                | Some stmt \<Rightarrow>
                    if it_Subject stmt = [] then Inl ErrCosignBundleMalformed
                    else let subj = header (hd (it_Subject stmt)) ''sha256'' in
                      if subj = [] then Inl ErrCosignBundleMalformed
                      else Inr \<lparr>ps_format = sigFormatBundleV3DSSE, ps_bytes = sig, ps_messageDigest = [],
                                ps_dssePayload = payload, ps_dssePayloadTy = bd_PayloadType env, ps_subjectDigest = subj\<rparr>)))"

definition parseSigstoreBundle :: "sigDecoders \<Rightarrow> bytes \<Rightarrow> cosign_error + parsedSignature" where
  "parseSigstoreBundle js raw =
     (if length raw = 0 then Inl ErrCosignBundleMalformed
      else case js_bundle js raw of
        None \<Rightarrow> Inl ErrCosignBundleMalformed
      | Some b \<Rightarrow>
          (case sb_MessageSignature b of
             Some ms \<Rightarrow> parseSigstoreBundleMessageSignature ms
           | None \<Rightarrow>
               (case sb_DsseEnvelope b of
                  Some env \<Rightarrow> parseSigstoreBundleDSSE js env
                | None \<Rightarrow> Inl ErrCosignBundleMalformed)))"

section \<open>Collecting signatures\<close>

text \<open>What layer \<open>i\<close> contributes: a signature, or the error that explains why it has none.\<close>

definition layerSignature ::
  "'w transport \<Rightarrow> sigDecoders \<Rightarrow> Registry \<Rightarrow> nat \<Rightarrow> sigLayerDescr \<Rightarrow> 'w \<Rightarrow> (cosign_error + parsedSignature) \<times> 'w" where
  "layerSignature get js reg i l w =
     (case sl_Annotations l CosignSignatureAnnotation of
        Some (c # cs) \<Rightarrow>
          (case DecodeString (c # cs) of
             None \<Rightarrow> (Inl (ErrSignatureBase64 i), w)
           | Some sig \<Rightarrow>
               (Inr \<lparr>ps_format = sigFormatLegacy, ps_bytes = sig, ps_messageDigest = [],
                     ps_dssePayload = [], ps_dssePayloadTy = [], ps_subjectDigest = []\<rparr>, w))
      | _ \<Rightarrow>
          if isSigstoreBundleMediaType (sl_MediaType l) then
            (case FetchBlob get reg \<lparr>de_MediaType = sl_MediaType l, de_Digest = sl_Digest l, de_Size = sl_Size l,
                                     de_Platform = None\<rparr> w of
               (Inl e, w1) \<Rightarrow> (Inl (ErrRegistry e), w1)
             | (Inr body, w1) \<Rightarrow> (parseSigstoreBundle js body, w1))
          else (Inl (ErrLayerUnsigned i (sl_MediaType l)), w))"

primrec collectLoop ::
  "'w transport \<Rightarrow> sigDecoders \<Rightarrow> Registry \<Rightarrow> nat \<Rightarrow> sigLayerDescr list \<Rightarrow> parsedSignature list \<Rightarrow> cosign_error option \<Rightarrow> 'w \<Rightarrow>
   parsedSignature list \<times> cosign_error option \<times> 'w" where
  "collectLoop get js reg i [] sigs err w = (sigs, err, w)"
| "collectLoop get js reg i (l # ls) sigs err w =
     (case layerSignature get js reg i l w of
        (Inl e, w1) \<Rightarrow> collectLoop get js reg (i + 1) ls sigs (if err = None then Some e else err) w1
      | (Inr sig, w1) \<Rightarrow> collectLoop get js reg (i + 1) ls (sigs @ [sig]) err w1)"

definition collectSignatures ::
  "'w transport \<Rightarrow> sigDecoders \<Rightarrow> Registry \<Rightarrow> sigManifest \<Rightarrow> 'w \<Rightarrow> parsedSignature list \<times> cosign_error option \<times> 'w" where
  "collectSignatures get js reg m w = collectLoop get js reg 0 (sm_Layers m) [] None w"

section \<open>Verification\<close>

text \<open>The first tag whose manifest can be fetched; otherwise the first error.\<close>

primrec fetchSigManifest ::
  "'w transport \<Rightarrow> Registry \<Rightarrow> string list \<Rightarrow> oci_error option \<Rightarrow> 'w \<Rightarrow> (oci_error option + bytes) \<times> 'w" where
  "fetchSigManifest get reg [] fetchErr w = (Inl fetchErr, w)"
| "fetchSigManifest get reg (t # ts) fetchErr w =
     (case FetchManifestRaw get reg t w of
        (Inl e, w1) \<Rightarrow> fetchSigManifest get reg ts (if fetchErr = None then Some e else fetchErr) w1
      | (Inr (raw, _), w1) \<Rightarrow> (Inr raw, w1))"

text \<open>Whether one signature is accepted for the digest of the canonical payload and the hex digest of the manifest.\<close>

definition signatureVerifies :: "('k \<Rightarrow> bytes \<Rightarrow> bytes \<Rightarrow> bool) \<Rightarrow> 'k \<Rightarrow> bytes \<Rightarrow> string \<Rightarrow> parsedSignature \<Rightarrow> bool" where
  "signatureVerifies verifyASN1 pubKey digest hexDigest sig =
     (case ps_format sig of
        sigFormatLegacy \<Rightarrow> verifyASN1 pubKey digest (ps_bytes sig)
      | sigFormatBundleV3 \<Rightarrow> ps_messageDigest sig = digest \<and> verifyASN1 pubKey digest (ps_bytes sig)
      | sigFormatBundleV3DSSE \<Rightarrow> EqualFold (ps_subjectDigest sig) hexDigest \<and>
          verifyASN1 pubKey (Sum256 (dssePAE (ps_dssePayloadTy sig) (ps_dssePayload sig))) (ps_bytes sig))"

primrec verifyLoop ::
  "('k \<Rightarrow> bytes \<Rightarrow> bytes \<Rightarrow> bool) \<Rightarrow> 'k \<Rightarrow> bytes \<Rightarrow> string \<Rightarrow> nat \<Rightarrow> parsedSignature list \<Rightarrow> cosign_error option \<Rightarrow> cosign_error option" where
  "verifyLoop verifyASN1 pubKey digest hexDigest i [] lastErr = Some (ErrCosignNoMatchingSignature lastErr)"
| "verifyLoop verifyASN1 pubKey digest hexDigest i (sig # sigs) lastErr =
     (if signatureVerifies verifyASN1 pubKey digest hexDigest sig then None
      else verifyLoop verifyASN1 pubKey digest hexDigest (i + 1) sigs (Some (ErrSignatureRejected i)))"

definition Verify ::
  "('k \<Rightarrow> bytes \<Rightarrow> bytes \<Rightarrow> bool) \<Rightarrow> 'w transport \<Rightarrow> sigDecoders \<Rightarrow> 'k option \<Rightarrow> Registry \<Rightarrow> Ref \<Rightarrow> string \<Rightarrow> 'w \<Rightarrow>
   cosign_error option \<times> 'w" where
  "Verify verifyASN1 get js v reg ref manifestDigest w =
     (case v of
        None \<Rightarrow> (Some ErrCosignKeyNotECDSA, w)
      | Some pubKey \<Rightarrow>
          (case ParseDigest manifestDigest of
             Inl _ \<Rightarrow> (Some ErrCosignBadManifestDigest, w)
           | Inr (_, hexDigest) \<Rightarrow>
               let tags = (case candidateSigTags manifestDigest of Inl _ \<Rightarrow> [] | Inr ts \<Rightarrow> ts) in
               (case fetchSigManifest get reg tags None w of
                  (Inl fetchErr, w1) \<Rightarrow> (Some (ErrSigFetch fetchErr), w1)
                | (Inr raw, w1) \<Rightarrow>
                    (case parseSigManifest js raw of
                       Inl e \<Rightarrow> (Some e, w1)
                     | Inr m \<Rightarrow>
                         if sm_Layers m = [] then (Some ErrCosignSigManifestEmpty, w1)
                         else let digest = Sum256 (CanonicalPayload (rf_Host ref @ ''/'' @ rf_Repo ref) manifestDigest) in
                           (case collectSignatures get js reg m w1 of
                              (sigs, collectErr, w2) \<Rightarrow>
                                if sigs = [] then (Some (ErrCosignNoMatchingSignature collectErr), w2)
                                else (verifyLoop verifyASN1 pubKey digest hexDigest 0 sigs collectErr, w2))))))"

section \<open>The signed texts determine what is signed\<close>

text \<open>A reader of one character of a JSON string, for the escapes that \<^verbatim>\<open>jsonEscape\<close> writes.\<close>

definition readEscape :: "string \<Rightarrow> char \<times> string" where
  "readEscape s =
     (if hd s \<noteq> CHR 0x5C then (hd s, tl s)
      else let t = s ! 1 in
        if t = CHR ''n'' then (CHR 0x0A, drop 2 s)
        else if t = CHR ''r'' then (CHR 0x0D, drop 2 s)
        else if t = CHR ''t'' then (CHR 0x09, drop 2 s)
        else if t = CHR ''u'' then (char_of (16 * the (hex_val (s ! 4)) + the (hex_val (s ! 5))), drop 6 s)
        else (t, drop 2 s))"

lemma readEscape_control:
  assumes "(of_char c :: nat) < 0x20"
  shows "char_of (16 * the (hex_val (hex_char (of_char c div 16))) + the (hex_val (hex_char (of_char c mod 16)))) = c"
proof -
  have "of_char c div 16 < (16 :: nat)" "of_char c mod 16 < (16 :: nat)" using assms by auto
  then show ?thesis by (simp add: hex_val_char)
qed

lemma readEscape_escape: "readEscape (escapeChar c @ x) = (c, x)"
  using readEscape_control [of c] by (simp add: escapeChar_def readEscape_def Let_def)

lemma escape_prefix_free: "escapeChar c @ x = escapeChar d @ y \<Longrightarrow> c = d \<and> x = y"
  by (metis readEscape_escape prod.inject)

lemma escape_no_quote: "CHR 0x22 # x \<noteq> escapeChar c @ y" "escapeChar c @ y \<noteq> CHR 0x22 # x"
  by (simp_all add: escapeChar_def)

lemma jsonEscape_terminated:
  "jsonEscape s @ CHR 0x22 # x = jsonEscape t @ CHR 0x22 # y \<Longrightarrow> s = t \<and> x = y"
proof (induction s arbitrary: t)
  case Nil
  then show ?case by (cases t) (auto simp: jsonEscape_def escape_no_quote)
next
  case (Cons c s)
  show ?case
  proof (cases t)
    case Nil
    then show ?thesis using Cons.prems by (simp add: jsonEscape_def escape_no_quote)
  next
    case (Cons d t')
    then have "escapeChar c @ (jsonEscape s @ CHR 0x22 # x) = escapeChar d @ (jsonEscape t' @ CHR 0x22 # y)"
      using Cons.prems by (simp add: jsonEscape_def)
    then show ?thesis
      using escape_prefix_free Cons.IH Cons by blast
  qed
qed

lemma unchars_inject: "unchars s = unchars t \<longleftrightarrow> s = t"
  by (metis chars_unchars)

lemma CanonicalPayload_inject:
  assumes "CanonicalPayload r d = CanonicalPayload r' d'"
  shows "r = r' \<and> d = d'"
proof -
  define mid where "mid = ''},\"image\":{\"docker-manifest-digest\":\"''"
  define z where "z = ''},\"type\":\"'' @ CosignPayloadType @ ''\"},\"optional\":null}''"
  have "jsonEscape r @ CHR 0x22 # (mid @ jsonEscape d @ CHR 0x22 # z) = jsonEscape r' @ CHR 0x22 # (mid @ jsonEscape d' @ CHR 0x22 # z)"
    using assms by (simp add: CanonicalPayload_def unchars_inject mid_def z_def)
  from jsonEscape_terminated [OF this] have "r = r'" "jsonEscape d @ CHR 0x22 # z = jsonEscape d' @ CHR 0x22 # z"
    by simp_all
  then show ?thesis using jsonEscape_terminated by blast
qed

lemma itoaLoop_digits: "itoaLoop (int n) b = (if n = 0 then b else nat_to_string n @ b)"
proof (induction n arbitrary: b rule: less_induct)
  case (less n)
  have c: "char_of (nat (48 + int n mod 10)) = digit_char (n mod 10)"
    by (simp add: digit_char_def nat_add_distrib nat_mod_distrib)
  show ?case
  proof (cases "n < 10")
    case True
    then show ?thesis
      using c by (subst itoaLoop.simps) (auto simp: itoaLoop.simps [of 0] nat_to_string.simps [of n])
  next
    case False
    then have "itoaLoop (int n) b = itoaLoop (int (n div 10)) (digit_char (n mod 10) # b)"
      using c by (subst itoaLoop.simps) (simp add: zdiv_int)
    also have "\<dots> = nat_to_string n @ b"
      using False less [of "n div 10"] by (simp add: nat_to_string.simps [of n])
    finally show ?thesis using False by simp
  qed
qed

lemma itoaInt_nat: "itoaInt (int n) = nat_to_string n"
  by (simp add: itoaInt_def itoaLoop_digits nat_to_string.simps [of 0] digit_char_def char_of_def bit_0)

lemma nat_to_string_no_blank: "CHR '' '' \<notin> set (nat_to_string n)"
  using nat_to_string_digits [of n] by (auto simp: list_all_iff is_digit_def)

lemma nat_to_string_blank:
  assumes "nat_to_string m @ CHR '' '' # x = nat_to_string n @ CHR '' '' # y"
  shows "m = n \<and> x = y"
proof -
  have "IndexByte (nat_to_string m @ CHR '' '' # x) (CHR '' '') = Some (length (nat_to_string m))"
    "IndexByte (nat_to_string n @ CHR '' '' # y) (CHR '' '') = Some (length (nat_to_string n))"
    by (simp_all add: IndexByte_append nat_to_string_no_blank)
  then have "nat_to_string m = nat_to_string n \<and> x = y" using assms by simp
  then show ?thesis by (metis nat_to_string_value)
qed

lemma dssePAE_text:
  "chars (dssePAE ty payload) =
    ''DSSEv1 '' @ nat_to_string (length ty) @ CHR '' '' # ty @ CHR '' '' # nat_to_string (length payload) @ CHR '' '' # chars payload"
  by (simp add: dssePAE_def chars_append itoaInt_nat)

lemma dssePAE_inject:
  assumes "dssePAE ty payload = dssePAE ty' payload'"
  shows "ty = ty' \<and> payload = payload'"
proof -
  have "nat_to_string (length ty) @ CHR '' '' # (ty @ CHR '' '' # nat_to_string (length payload) @ CHR '' '' # chars payload) =
      nat_to_string (length ty') @ CHR '' '' # (ty' @ CHR '' '' # nat_to_string (length payload') @ CHR '' '' # chars payload')"
    using arg_cong [OF assms, of chars] by (simp add: dssePAE_text)
  from nat_to_string_blank [OF this] have "ty = ty'" "nat_to_string (length payload) @ CHR '' '' # chars payload =
      nat_to_string (length payload') @ CHR '' '' # chars payload'"
    by auto
  then show ?thesis
    using nat_to_string_blank by (metis unchars_chars)
qed

section \<open>Collection and verification\<close>

lemma verifyLoop_iff:
  "verifyLoop verifyASN1 pubKey digest hexDigest i sigs err = None \<longleftrightarrow>
     (\<exists>sig \<in> set sigs. signatureVerifies verifyASN1 pubKey digest hexDigest sig)"
  by (induction sigs arbitrary: i err) auto

text \<open>What holds of a signature, however it was obtained: a DSSE signature names the first subject of the statement it carries.\<close>

definition signature_ok :: "sigDecoders \<Rightarrow> parsedSignature \<Rightarrow> bool" where
  "signature_ok js sig =
     (ps_format sig = sigFormatBundleV3DSSE \<longrightarrow>
        (\<exists>stmt s ss. js_statement js (ps_dssePayload sig) = Some stmt \<and> it_Subject stmt = s # ss \<and>
           s ''sha256'' = Some (ps_subjectDigest sig)))"

lemma parseSigstoreBundle_ok: "parseSigstoreBundle js raw = Inr sig \<Longrightarrow> signature_ok js sig"
  by (auto simp: parseSigstoreBundle_def parseSigstoreBundleMessageSignature_def parseSigstoreBundleDSSE_def
      signature_ok_def Let_def header_def neq_Nil_conv split: if_splits option.splits)

lemma layerSignature_ok: "layerSignature get js reg i l w = (Inr sig, w') \<Longrightarrow> signature_ok js sig"
  by (auto simp: layerSignature_def signature_ok_def [of js "\<lparr>ps_format = sigFormatLegacy, ps_bytes = b, ps_messageDigest = [],
        ps_dssePayload = [], ps_dssePayloadTy = [], ps_subjectDigest = []\<rparr>" for b] intro: parseSigstoreBundle_ok
      split: if_splits option.splits list.splits sum.splits prod.splits)

lemma collectLoop_ok:
  "collectLoop get js reg i ls sigs err w = (sigs', err', w') \<Longrightarrow> \<forall>sig \<in> set sigs. signature_ok js sig \<Longrightarrow>
   \<forall>sig \<in> set sigs'. signature_ok js sig"
proof (induction ls arbitrary: i sigs err w)
  case (Cons l ls)
  obtain r w1 where l: "layerSignature get js reg i l w = (r, w1)" by fastforce
  show ?case
  proof (cases r)
    case (Inl e)
    then have "collectLoop get js reg (i + 1) ls sigs (if err = None then Some e else err) w1 = (sigs', err', w')"
      using Cons.prems(1) l by simp
    then show ?thesis using Cons.prems(2) by (rule Cons.IH)
  next
    case (Inr sig)
    then have "collectLoop get js reg (i + 1) ls (sigs @ [sig]) err w1 = (sigs', err', w')"
      using Cons.prems(1) l by simp
    moreover have "\<forall>s \<in> set (sigs @ [sig]). signature_ok js s"
      using Cons.prems(2) layerSignature_ok [OF l [unfolded Inr]] by simp
    ultimately show ?thesis by (rule Cons.IH)
  qed
qed simp

lemma collectLoop_keeps:
  "sig \<in> set sigs \<Longrightarrow> sig \<in> set (fst (collectLoop get js reg i ls sigs err w))"
  by (induction ls arbitrary: i sigs err w) (auto split: prod.splits sum.splits)

lemma layerSignature_legacy:
  assumes "sl_Annotations l CosignSignatureAnnotation = Some (EncodeToString sig)" "sig \<noteq> []"
  shows "layerSignature get js reg i l w =
    (Inr \<lparr>ps_format = sigFormatLegacy, ps_bytes = sig, ps_messageDigest = [],
          ps_dssePayload = [], ps_dssePayloadTy = [], ps_subjectDigest = []\<rparr>, w)"
proof -
  obtain c cs where e: "EncodeToString sig = c # cs"
    using assms(2) by (cases sig rule: EncodeToString.cases) auto
  then show ?thesis
    using assms(1) DecodeString_Encode [of sig] by (simp add: layerSignature_def)
qed

lemma collectLoop_legacy:
  "l \<in> set ls \<Longrightarrow> sl_Annotations l CosignSignatureAnnotation = Some (EncodeToString sig) \<Longrightarrow> sig \<noteq> [] \<Longrightarrow>
   \<exists>s \<in> set (fst (collectLoop get js reg i ls sigs err w)). ps_format s = sigFormatLegacy \<and> ps_bytes s = sig"
proof (induction ls arbitrary: i sigs err w)
  case (Cons l' ls)
  show ?case
  proof (cases "l' = l")
    case True
    let ?s = "\<lparr>ps_format = sigFormatLegacy, ps_bytes = sig, ps_messageDigest = [],
          ps_dssePayload = [], ps_dssePayloadTy = [], ps_subjectDigest = []\<rparr>"
    have "?s \<in> set (fst (collectLoop get js reg i (l' # ls) sigs err w))"
      unfolding True collectLoop.simps layerSignature_legacy [OF Cons.prems(2,3)] by (simp add: collectLoop_keeps)
    then show ?thesis by (rule bexI [rotated]) simp
  next
    case False
    then have "l \<in> set ls" using Cons.prems(1) by simp
    then show ?thesis
      using Cons.IH Cons.prems(2,3) by (simp split: prod.split sum.split)
  qed
qed simp

lemma Verify_legacy:
  assumes "ParseDigest d = Inr (algo, hex)" "FetchManifestRaw get reg (algo @ ''-'' @ hex @ ''.sig'') w = (Inr (raw, ct), w1)"
    and "raw \<noteq> []" "js_sigManifest js raw = Some m" "l \<in> set (sm_Layers m)"
    and "sl_Annotations l CosignSignatureAnnotation = Some (EncodeToString sig)" "sig \<noteq> []"
    and "verifyASN1 key (Sum256 (CanonicalPayload (rf_Host ref @ ''/'' @ rf_Repo ref) d)) sig"
  shows "fst (Verify verifyASN1 get js (Some key) reg ref d w) = None"
proof -
  obtain sigs err w2 where c: "collectSignatures get js reg m w1 = (sigs, err, w2)" by (metis prod_cases3)
  obtain s where s: "s \<in> set sigs" "ps_format s = sigFormatLegacy" "ps_bytes s = sig"
    using collectLoop_legacy [OF assms(5-7), of get js reg 0 "[]" None w1] c by (auto simp: collectSignatures_def)
  then have "verifyLoop verifyASN1 key (Sum256 (CanonicalPayload (rf_Host ref @ ''/'' @ rf_Repo ref) d)) hex 0 sigs err = None"
    using assms(8) by (auto simp: verifyLoop_iff signatureVerifies_def intro!: bexI [of _ s])
  moreover have "fetchSigManifest get reg (case candidateSigTags d of Inl _ \<Rightarrow> [] | Inr ts \<Rightarrow> ts) None w = (Inr raw, w1)"
    using assms(1,2) by (simp add: candidateSigTags_def SigTag_def SigTagOCI11_def)
  moreover have "sm_Layers m \<noteq> []" "sigs \<noteq> []" using assms(5) s(1) by auto
  ultimately show ?thesis
    using assms(1,3,4) c by (simp add: Verify_def parseSigManifest_def Let_def)
qed

lemma Verify_done:
  assumes "Verify verifyASN1 get js v reg ref d w = (None, w')"
  obtains key hex sig where "v = Some key" "ParseDigest d = Inr (''sha256'', hex)" "signature_ok js sig"
    "signatureVerifies verifyASN1 key (Sum256 (CanonicalPayload (rf_Host ref @ ''/'' @ rf_Repo ref) d)) hex sig"
proof -
  let ?digest = "Sum256 (CanonicalPayload (rf_Host ref @ ''/'' @ rf_Repo ref) d)"
  obtain key algo hex m sigs err w1 w2 where v: "v = Some key" "ParseDigest d = Inr (algo, hex)"
      "collectSignatures get js reg m w1 = (sigs, err, w2)" "verifyLoop verifyASN1 key ?digest hex 0 sigs err = None"
    using assms by (auto simp: Verify_def Let_def split: option.splits sum.splits prod.splits if_splits)
  have "algo = ''sha256''" using v(2) by (auto simp: ParseDigest_def Let_def split: option.splits if_splits)
  moreover obtain sig where "sig \<in> set sigs" "signatureVerifies verifyASN1 key ?digest hex sig"
    using v(4) by (auto simp: verifyLoop_iff)
  moreover have "\<forall>sig \<in> set sigs. signature_ok js sig"
    using collectLoop_ok [OF v(3) [unfolded collectSignatures_def]] by simp
  ultimately show ?thesis using that v(1,2) by blast
qed

section \<open>Properties\<close>

definition demoDigest :: string where "demoDigest = ''sha256:'' @ replicate 64 (CHR ''0'')"

definition demoSigManifest :: sigManifest where
  "demoSigManifest = \<lparr>sm_SchemaVersion = 2, sm_MediaType = [],
     sm_Layers = [\<lparr>sl_MediaType = [], sl_Digest = [], sl_Size = 0,
       sl_Annotations = [CosignSignatureAnnotation \<mapsto> EncodeToString [1]]\<rparr>]\<rparr>"

definition demoSigDecoders :: sigDecoders where
  "demoSigDecoders = \<lparr>js_sigManifest = (\<lambda>_. Some demoSigManifest), js_bundle = (\<lambda>_. None), js_statement = (\<lambda>_. None)\<rparr>"

definition demoVerify :: "unit \<Rightarrow> bytes \<Rightarrow> bytes \<Rightarrow> bool" where "demoVerify key digest sig = (sig = [1])"

lemma demo_digest: "ParseDigest demoDigest = Inr (''sha256'', replicate 64 (CHR ''0''))"
  by (simp add: ParseDigest_def demoDigest_def digestSHA256HexLen_def hexDecodes_def hex_val_def list_all_iff Let_def)

lemma demo_fetch:
  "FetchManifestRaw (serving [1]) (NewRegistry None exampleRef) t () = (Inr ([1], []), ())"
  by (simp add: FetchManifestRaw_def httpGet_def serving_def header_def Let_def)

text \<open>
  C5. Nothing unsigned is accepted: when verification of a manifest digest succeeds, whatever the registry returned, there
  is a signature that verifies under the configured key, either over the canonical payload of exactly
  this host, repository and digest, or over a DSSE envelope whose statement names this digest as its
  first subject.
\<close>

theorem cosign_verified:
  assumes "Verify verifyASN1 get js v reg ref d w = (None, w')"
  shows "\<exists>key hex sig. v = Some key \<and> ParseDigest d = Inr (''sha256'', hex) \<and>
    (verifyASN1 key (Sum256 (CanonicalPayload (rf_Host ref @ ''/'' @ rf_Repo ref) d)) sig \<or>
     (\<exists>ty payload stmt s ss subj. verifyASN1 key (Sum256 (dssePAE ty payload)) sig \<and> js_statement js payload = Some stmt \<and>
        it_Subject stmt = s # ss \<and> s ''sha256'' = Some subj \<and> EqualFold subj hex))"
proof -
  obtain key hex sig where v: "v = Some key" "ParseDigest d = Inr (''sha256'', hex)" "signature_ok js sig"
      "signatureVerifies verifyASN1 key (Sum256 (CanonicalPayload (rf_Host ref @ ''/'' @ rf_Repo ref) d)) hex sig"
    using Verify_done [OF assms] .
  show ?thesis
  proof (cases "ps_format sig = sigFormatBundleV3DSSE")
    case True
    then obtain stmt s ss where "js_statement js (ps_dssePayload sig) = Some stmt" "it_Subject stmt = s # ss"
        "s ''sha256'' = Some (ps_subjectDigest sig)"
      using v(3) by (auto simp: signature_ok_def)
    moreover have "EqualFold (ps_subjectDigest sig) hex"
        "verifyASN1 key (Sum256 (dssePAE (ps_dssePayloadTy sig) (ps_dssePayload sig))) (ps_bytes sig)"
      using v(4) True by (simp_all add: signatureVerifies_def)
    ultimately show ?thesis using v(1,2) by blast
  next
    case False
    then show ?thesis using v(1,2,4) by (auto simp: signatureVerifies_def split: sigFormat.splits)
  qed
qed

theorem cosign_verified_witness:
  "\<exists>key hex sig. Some () = Some key \<and> ParseDigest demoDigest = Inr (''sha256'', hex) \<and>
    (demoVerify key (Sum256 (CanonicalPayload ''ghcr.io/a'' demoDigest)) sig \<or>
     (\<exists>ty payload stmt s ss subj. demoVerify key (Sum256 (dssePAE ty payload)) sig \<and> js_statement demoSigDecoders payload = Some stmt \<and>
        it_Subject stmt = s # ss \<and> s ''sha256'' = Some subj \<and> EqualFold subj hex))"
proof -
  have "fst (Verify demoVerify (serving [1]) demoSigDecoders (Some ()) (NewRegistry None exampleRef) exampleRef demoDigest ()) = None"
    by (rule Verify_legacy [OF demo_digest demo_fetch, where m = demoSigManifest and l = "hd (sm_Layers demoSigManifest)" and sig = "[1]"])
      (simp_all add: demoSigDecoders_def demoSigManifest_def demoVerify_def)
  then have "Verify demoVerify (serving [1]) demoSigDecoders (Some ()) (NewRegistry None exampleRef) exampleRef demoDigest () = (None, ())"
    by (simp add: prod_eq_iff)
  from cosign_verified [OF this] show ?thesis by (simp add: exampleRef_def)
qed



text \<open>
  C34. The signed texts cannot be confused: distinct pairs of reference and digest have distinct canonical payloads, whatever
  characters they contain, and distinct pairs of payload type and payload have distinct DSSE encodings.
\<close>

theorem cosign_texts_injective:
  "(CanonicalPayload r d = CanonicalPayload r' d' \<longleftrightarrow> r = r' \<and> d = d') \<and>
   (dssePAE ty payload = dssePAE ty' payload' \<longleftrightarrow> ty = ty' \<and> payload = payload')"
  using CanonicalPayload_inject dssePAE_inject by blast

end
