(* ===== verification/Go_Slices.thy ===== *)
theory Go_Slices
  imports Prelude
begin

text \<open>
  Writing into a part of a byte slice: \<open>copyAt off src dst\<close> is \<open>dst\<close> after \<^verbatim>\<open>copy(dst[off:], src)\<close>, which stops at
  the end of \<open>dst\<close>. What a later read sees of it.
\<close>

definition copyAt :: "nat \<Rightarrow> 'a list \<Rightarrow> 'a list \<Rightarrow> 'a list" where
  "copyAt off src dst = take off dst @ take (length dst - off) src @ drop (off + length src) dst"

lemma length_copyAt [simp]: "off \<le> length dst \<Longrightarrow> length (copyAt off src dst) = length dst"
  by (simp add: copyAt_def)

lemma nth_copyAt:
  assumes "off + length src \<le> length dst" "i < length dst"
  shows "copyAt off src dst ! i = (if off \<le> i \<and> i < off + length src then src ! (i - off) else dst ! i)"
  using assms by (auto simp: copyAt_def nth_append not_less)

lemma slice_copyAt_within:
  assumes "off \<le> a" "b \<le> off + length src" "off + length src \<le> length dst"
  shows "slice (copyAt off src dst) a b = slice src (a - off) (b - off)"
proof (rule nth_equalityI)
  show l: "length (slice (copyAt off src dst) a b) = length (slice src (a - off) (b - off))"
    using assms by simp
  fix i assume "i < length (slice (copyAt off src dst) a b)"
  then have "i < b - a" using assms by simp
  then show "slice (copyAt off src dst) a b ! i = slice src (a - off) (b - off) ! i"
    using assms by (auto simp: slice_def nth_copyAt)
qed

lemma slice_whole [simp]: "slice xs 0 (length xs) = xs"
  by (simp add: slice_def)

lemma slice_copyAt_same:
  "off + length src \<le> length dst \<Longrightarrow> b = off + length src \<Longrightarrow> slice (copyAt off src dst) off b = src"
  using slice_copyAt_within [of off off b src dst] by simp

lemma slice_copyAt_apart:
  assumes "b \<le> off \<or> off + length src \<le> a" "off + length src \<le> length dst" "b \<le> length dst"
  shows "slice (copyAt off src dst) a b = slice dst a b"
proof (rule nth_equalityI)
  fix i assume "i < length (slice (copyAt off src dst) a b)"
  then have "i < b - a" using assms by simp
  then show "slice (copyAt off src dst) a b ! i = slice dst a b ! i"
    using assms by (auto simp: slice_def nth_copyAt)
qed (use assms in simp)

lemma slice_slice: "b \<le> d - c \<Longrightarrow> slice (slice xs c d) a b = slice xs (c + a) (c + b)"
  by (simp add: slice_def drop_take min_def add.commute)

lemma slice_replicate: "b \<le> n \<Longrightarrow> slice (replicate n x) a b = replicate (b - a) x"
  by (simp add: slice_def)

end
