(* ===== verification/Gpt.thy ===== *)
theory Gpt
  imports Go_Slices Go_Runes Sha256 Efi_Memory "HOL-Library.Signed_Division"
begin

text \<open>
  Disk images with a GUID partition table: the builder \<^verbatim>\<open>internal/livefreebsdboot/buildespimg\<close>, which puts an EFI
  system partition and optionally a UFS partition into an image, and \<^verbatim>\<open>phase3_ufs_partition.go\<close>, which finds
  the UFS partition in a fetched image.
\<close>

section \<open>CRC-32\<close>

text \<open>\<^verbatim>\<open>crc32.ChecksumIEEE\<close> of the Go library, bit by bit.\<close>

definition crcBit :: "u32 \<Rightarrow> u32" where
  "crcBit c = (if bit c 0 then drop_bit 1 c XOR 0xEDB88320 else drop_bit 1 c)"

definition crcByte :: "byte \<Rightarrow> u32 \<Rightarrow> u32" where
  "crcByte b c = (crcBit ^^ 8) (c XOR ucast b)"

definition ChecksumIEEE :: "bytes \<Rightarrow> u32" where
  "ChecksumIEEE bs = NOT (fold crcByte bs 0xFFFFFFFF)"

section \<open>The builder\<close>

definition sectorSize :: nat where "sectorSize = 512"
definition gptPartEntrySize :: nat where "gptPartEntrySize = 128"
definition gptPartEntryCount :: nat where "gptPartEntryCount = 128"
definition gptPartArrayBytes :: nat where "gptPartArrayBytes = gptPartEntrySize * gptPartEntryCount"
definition gptPartArraySector :: nat where "gptPartArraySector = gptPartArrayBytes div sectorSize"
definition firstUsableLBA :: nat where "firstUsableLBA = 1 + 1 + gptPartArraySector"
definition dataStartLBA :: nat where "dataStartLBA = 64"
definition minUFSBytes :: int where "minUFSBytes = 48 * 1024 * 1024"
definition ufsHeadroomMult :: int where "ufsHeadroomMult = 0"

definition efiSystemPartitionGUID :: bytes where
  "efiSystemPartitionGUID = [0x28, 0x73, 0x2A, 0xC1, 0x1F, 0xF8, 0xD2, 0x11, 0xBA, 0x4B, 0x00, 0xA0, 0xC9, 0x3E, 0xC9, 0x3B]"

definition freebsdUFSTypeGUID :: bytes where
  "freebsdUFSTypeGUID = [0xB6, 0x7C, 0x6E, 0x51, 0xCF, 0x6E, 0xD6, 0x11, 0x8F, 0xF8, 0x00, 0x02, 0x2D, 0x09, 0x71, 0x2B]"

lemmas gpt_sizes = sectorSize_def gptPartEntrySize_def gptPartEntryCount_def gptPartArrayBytes_def gptPartArraySector_def
  firstUsableLBA_def dataStartLBA_def

text \<open>The loop ranges over a string, so the position advances by the width of each rune.\<close>

function partNameLoop :: "nat list \<Rightarrow> nat \<Rightarrow> bytes \<Rightarrow> bytes" where
  "partNameLoop bs i slot =
     (if bs = [] \<or> i * 2 + 2 > length slot then slot
      else let (r, w) = decodeRune bs in partNameLoop (drop w bs) (i + w) (copyAt (i * 2) (putLE16 (of_nat r)) slot))"
  by pat_completeness auto
termination
  by (relation "measure (\<lambda>(bs, i, slot). length bs)") (auto simp: prod_eq_iff decodeRune_width)

declare partNameLoop.simps [simp del]

definition writePartName :: "bytes \<Rightarrow> string \<Rightarrow> bytes" where
  "writePartName slot name = partNameLoop (map of_char name) 0 slot"

definition uuidV4FromBytes :: "bytes \<Rightarrow> bytes" where
  "uuidV4FromBytes b =
     (let out = copyAt 0 b (replicate 16 0);
          out = out[6 := (out ! 6 AND 0x0F) OR 0x40] in
      out[8 := (out ! 8 AND 0x3F) OR 0x80])"

record gptHeaderArgs =
  ga_myLBA :: nat
  ga_alternateLBA :: nat
  ga_firstUsableLBA :: nat
  ga_lastUsableLBA :: nat
  ga_diskGUID :: bytes
  ga_partitionEntryLBA :: nat
  ga_partitionEntryCRC :: u32

text \<open>The header with all fields but its checksum, which stays as it was.\<close>

definition headerFields :: "gptHeaderArgs \<Rightarrow> bytes \<Rightarrow> bytes" where
  "headerFields a hdr =
     (let hdr = copyAt 0 (unchars ''EFI PART'') hdr;
          hdr = copyAt 8 (putLE32 0x00010000) hdr;
          hdr = copyAt 12 (putLE32 92) hdr;
          hdr = copyAt 20 (putLE32 0) hdr;
          hdr = copyAt 24 (putLE64 (of_nat (ga_myLBA a))) hdr;
          hdr = copyAt 32 (putLE64 (of_nat (ga_alternateLBA a))) hdr;
          hdr = copyAt 40 (putLE64 (of_nat (ga_firstUsableLBA a))) hdr;
          hdr = copyAt 48 (putLE64 (of_nat (ga_lastUsableLBA a))) hdr;
          hdr = copyAt 56 (ga_diskGUID a) hdr;
          hdr = copyAt 72 (putLE64 (of_nat (ga_partitionEntryLBA a))) hdr;
          hdr = copyAt 80 (putLE32 (of_nat gptPartEntryCount)) hdr;
          hdr = copyAt 84 (putLE32 (of_nat gptPartEntrySize)) hdr in
      copyAt 88 (putLE32 (ga_partitionEntryCRC a)) hdr)"

definition writeGPTHeader :: "bytes \<Rightarrow> gptHeaderArgs \<Rightarrow> bytes" where
  "writeGPTHeader hdr a =
     (let hdr = headerFields a hdr in copyAt 16 (putLE32 (ChecksumIEEE (take 92 hdr))) hdr)"

text \<open>One partition entry, written into 128 zero bytes of the array.\<close>

definition partEntry :: "bytes \<Rightarrow> bytes \<Rightarrow> nat \<Rightarrow> nat \<Rightarrow> string \<Rightarrow> bytes" where
  "partEntry typ guid start end name =
     (let e = copyAt 0 typ (replicate gptPartEntrySize 0);
          e = copyAt 16 guid e;
          e = copyAt 32 (putLE64 (of_nat start)) e;
          e = copyAt 40 (putLE64 (of_nat end)) e;
          e = copyAt 48 (putLE64 0) e in
      copyAt 56 (writePartName (slice e 56 128) name) e)"

text \<open>
  Where \<^verbatim>\<open>main\<close> puts the partitions, from the sectors of the FAT image and of the UFS image, if there is one.
  The sizes are those of slices in memory, so the 64-bit arithmetic of the source does not wrap.
\<close>

record layout =
  ly_espEnd :: nat
  ly_ufsStart :: nat
  ly_ufsEnd :: nat
  ly_totalLBAs :: nat

definition layoutOf :: "nat \<Rightarrow> nat option \<Rightarrow> layout" where
  "layoutOf fatSectors ufsSectors =
     (let espEndLBA = dataStartLBA + fatSectors - 1;
          alignSectors = 2 ^ 20 div sectorSize;
          ufsStartLBA = ((espEndLBA + 1) + alignSectors - 1) div alignSectors * alignSectors in
      case ufsSectors of
        None \<Rightarrow> \<lparr>ly_espEnd = espEndLBA, ly_ufsStart = 0, ly_ufsEnd = 0, ly_totalLBAs = espEndLBA + 1 + gptPartArraySector + 1\<rparr>
      | Some n \<Rightarrow> \<lparr>ly_espEnd = espEndLBA, ly_ufsStart = ufsStartLBA, ly_ufsEnd = ufsStartLBA + n - 1,
                   ly_totalLBAs = (ufsStartLBA + n - 1) + 1 + gptPartArraySector + 1\<rparr>)"

text \<open>The size of the UFS partition in bytes, from the flag and the length of the archive; \<^verbatim>\<open>%\<close> of Go truncates.\<close>

definition ufsPartitionSize :: "int \<Rightarrow> int \<Rightarrow> int" where
  "ufsPartitionSize ufsSize tarLen =
     (let ufsLen = (if ufsSize = 0 then max minUFSBytes (tarLen * ufsHeadroomMult) else ufsSize);
          mib = 1024 * 1024 in
      if ufsLen smod mib \<noteq> 0 then ufsLen + (mib - ufsLen smod mib) else ufsLen)"

definition protectiveMBR :: "nat \<Rightarrow> bytes" where
  "protectiveMBR totalLBAs =
     (let mbr = copyAt 446 [0x00, 0x00, 0x02, 0x00, 0xEE, 0xFF, 0xFF, 0xFF] (replicate sectorSize 0);
          mbr = copyAt (446 + 8) (putLE32 1) mbr;
          size32 = (if totalLBAs - 1 < 2 ^ 32 then of_nat (totalLBAs - 1) else 0xFFFFFFFF);
          mbr = copyAt (446 + 12) (putLE32 size32) mbr in
      mbr[510 := 0x55, 511 := 0xAA])"

definition partArray :: "bytes \<Rightarrow> bytes option \<Rightarrow> layout \<Rightarrow> bytes" where
  "partArray fat ufs ly =
     (let parts = copyAt 0 (partEntry efiSystemPartitionGUID (uuidV4FromBytes (drop 16 (Sum256 fat))) dataStartLBA (ly_espEnd ly)
                              ''EFI System'') (replicate gptPartArrayBytes 0) in
      case ufs of
        None \<Rightarrow> parts
      | Some u \<Rightarrow> copyAt gptPartEntrySize (partEntry freebsdUFSTypeGUID (uuidV4FromBytes (take 16 (Sum256 u)))
                    (ly_ufsStart ly) (ly_ufsEnd ly) ''FreeBSD-UFS'') parts)"

datatype build_error = ErrFatNotSectors | ErrFatEmpty

text \<open>The image that \<^verbatim>\<open>main\<close> writes, from the FAT image and the UFS image, if there is one.\<close>

definition buildImage :: "bytes \<Rightarrow> bytes option \<Rightarrow> build_error + bytes" where
  "buildImage fat ufs =
     (if length fat mod sectorSize \<noteq> 0 then Inl ErrFatNotSectors
      else if length fat div sectorSize = 0 then Inl ErrFatEmpty
      else
        let ly = layoutOf (length fat div sectorSize) (map_option (\<lambda>u. length u div sectorSize) ufs);
            diskGUID = uuidV4FromBytes (take 16 (Sum256 fat));
            lastLBA = ly_totalLBAs ly - 1;
            lastUsableLBA = lastLBA - 1 - gptPartArraySector;
            backupPartArrayLBA = lastLBA - gptPartArraySector;
            parts = partArray fat ufs ly;
            img = replicate (ly_totalLBAs ly * sectorSize) 0;
            img = copyAt 0 (protectiveMBR (ly_totalLBAs ly)) img;
            img = copyAt (2 * sectorSize) parts img;
            img = copyAt sectorSize (writeGPTHeader (slice img sectorSize (2 * sectorSize))
                    \<lparr>ga_myLBA = 1, ga_alternateLBA = lastLBA, ga_firstUsableLBA = firstUsableLBA, ga_lastUsableLBA = lastUsableLBA,
                     ga_diskGUID = diskGUID, ga_partitionEntryLBA = 2, ga_partitionEntryCRC = ChecksumIEEE parts\<rparr>) img;
            img = copyAt (dataStartLBA * sectorSize) fat img;
            img = (case ufs of None \<Rightarrow> img | Some u \<Rightarrow> copyAt (ly_ufsStart ly * sectorSize) u img);
            img = copyAt (backupPartArrayLBA * sectorSize) parts img in
        Inr (copyAt (lastLBA * sectorSize) (writeGPTHeader (slice img (lastLBA * sectorSize) ((lastLBA + 1) * sectorSize))
              \<lparr>ga_myLBA = lastLBA, ga_alternateLBA = 1, ga_firstUsableLBA = firstUsableLBA, ga_lastUsableLBA = lastUsableLBA,
               ga_diskGUID = diskGUID, ga_partitionEntryLBA = backupPartArrayLBA, ga_partitionEntryCRC = ChecksumIEEE parts\<rparr>) img))"

section \<open>The finder\<close>

datatype gpt_error =
    ErrImageTooSmall | ErrNoMagic | ErrEntrySize | ErrEntryCount | ErrTablePastImage
  | ErrEndBeforeStart | ErrPartitionPastImage | ErrNoUFSPartition | ErrGptPanic

text \<open>
  The type \<^verbatim>\<open>int\<close> has 64 bits, and \<^verbatim>\<open>int(x)\<close> reinterprets the bits of \<^verbatim>\<open>x\<close>: an \<^verbatim>\<open>int\<close> is a 64-bit word read by \<open>sint\<close>.
  A slice expression with bounds outside the slice panics.
\<close>

definition sliceInt :: "bytes \<Rightarrow> u64 \<Rightarrow> u64 \<Rightarrow> gpt_error + bytes" where
  "sliceInt img lo hi =
     (if 0 \<le> sint lo \<and> sint lo \<le> sint hi \<and> sint hi \<le> int (length img) then Inr (slice img (unat lo) (unat hi))
      else Inl ErrGptPanic)"

text \<open>The entries left, the number of the next one, and the base and size of the table.\<close>

primrec entryLoop :: "nat \<Rightarrow> nat \<Rightarrow> bytes \<Rightarrow> u64 \<Rightarrow> u32 \<Rightarrow> gpt_error + bytes" where
  "entryLoop 0 i img partBase partEntrySize = Inl ErrNoUFSPartition"
| "entryLoop (Suc n) i img partBase partEntrySize =
     (case sliceInt img (partBase + of_nat i * ucast partEntrySize) (partBase + of_nat (i + 1) * ucast partEntrySize) of
        Inl e \<Rightarrow> Inl e
      | Inr entry \<Rightarrow>
          let typ = slice entry 0 16 in
          if typ = replicate 16 0 then entryLoop n (i + 1) img partBase partEntrySize
          else if typ \<noteq> freebsdUFSTypeGUID then entryLoop n (i + 1) img partBase partEntrySize
          else
            let start = leU64 (slice entry 32 40);
                end = leU64 (slice entry 40 48) in
            if end < start then Inl ErrEndBeforeStart
            else
              let startB = start * 512; endB = (end + 1) * 512 in
              if sint endB > int (length img) \<or> sint startB > sint endB then Inl ErrPartitionPastImage
              else sliceInt img startB endB)"

definition findUFSPartitionBytes :: "bytes \<Rightarrow> gpt_error + bytes" where
  "findUFSPartitionBytes img =
     (if length img < 1024 then Inl ErrImageTooSmall
      else
        let hdr = slice img 512 1024 in
        if slice hdr 0 8 \<noteq> unchars ''EFI PART'' then Inl ErrNoMagic
        else
          let partEntryLBA = leU64 (slice hdr 72 80);
              partEntryCount = leU32 (slice hdr 80 84);
              partEntrySize = leU32 (slice hdr 84 88) in
          if partEntrySize < 128 \<or> partEntrySize > 4096 then Inl ErrEntrySize
          else if partEntryCount > 128 then Inl ErrEntryCount
          else
            let partBase = partEntryLBA * 512 in
            if sint (partBase + ucast partEntryCount * ucast partEntrySize) > int (length img) then Inl ErrTablePastImage
            else entryLoop (unat partEntryCount) 0 img partBase partEntrySize)"

text \<open>\<^verbatim>\<open>ReadAt\<close> on a slice: the bytes read, and whether the end was reached.\<close>

definition sliceReadAt :: "bytes \<Rightarrow> nat \<Rightarrow> int \<Rightarrow> bytes \<times> bool" where
  "sliceReadAt b n off =
     (if off < 0 \<or> off \<ge> int (length b) then ([], True)
      else let r = take n (drop (nat off) b) in (r, length r < n))"

definition memWriteAt :: "bytes \<Rightarrow> bytes \<Rightarrow> int \<Rightarrow> (nat \<times> bytes) option" where
  "memWriteAt b p off =
     (if off < 0 \<or> off + int (length p) > int (length b) then None
      else Some (length p, copyAt (nat off) p b))"

section \<open>Sizes and fields of what the builder writes\<close>

lemmas copyAt_reads = slice_copyAt_same slice_copyAt_apart

lemma length_partNameLoop: "length (partNameLoop bs i slot) = length slot"
proof (induction bs i slot rule: partNameLoop.induct)
  case (1 bs i slot)
  then show ?case
    by (subst partNameLoop.simps) (auto split: prod.split)
qed

lemma length_uuid [simp]: "length (uuidV4FromBytes b) = 16"
  by (simp add: uuidV4FromBytes_def Let_def)

lemma length_guids [simp]: "length efiSystemPartitionGUID = 16" "length freebsdUFSTypeGUID = 16"
  by (simp_all add: efiSystemPartitionGUID_def freebsdUFSTypeGUID_def)

lemma partEntry_fields:
  assumes "length typ = 16" "length guid = 16"
  shows "length (partEntry typ guid start end name) = 128"
    "slice (partEntry typ guid start end name) 0 16 = typ"
    "slice (partEntry typ guid start end name) 32 40 = putLE64 (of_nat start)"
    "slice (partEntry typ guid start end name) 40 48 = putLE64 (of_nat end)"
proof -
  have "length (writePartName (slice e 56 128) name) = 72" if "length e = 128" for e
    using that by (simp add: writePartName_def length_partNameLoop)
  then show "length (partEntry typ guid start end name) = 128"
    "slice (partEntry typ guid start end name) 0 16 = typ"
    "slice (partEntry typ guid start end name) 32 40 = putLE64 (of_nat start)"
    "slice (partEntry typ guid start end name) 40 48 = putLE64 (of_nat end)"
    using assms by (simp_all add: partEntry_def Let_def gpt_sizes copyAt_reads)
qed

lemma length_protectiveMBR [simp]: "length (protectiveMBR n) = 512"
  by (simp add: protectiveMBR_def Let_def gpt_sizes)

lemma length_partArray [simp]: "length (partArray fat ufs ly) = 16384"
  by (simp add: partArray_def Let_def gpt_sizes split: option.split)

lemma headerFields_reads:
  assumes "length hdr = 512" "length (ga_diskGUID a) = 16"
  shows "length (headerFields a hdr) = 512"
    "slice (headerFields a hdr) 0 8 = unchars ''EFI PART''"
    "slice (headerFields a hdr) 8 12 = putLE32 0x00010000"
    "slice (headerFields a hdr) 12 16 = putLE32 92"
    "slice (headerFields a hdr) 16 20 = slice hdr 16 20"
    "slice (headerFields a hdr) 24 32 = putLE64 (of_nat (ga_myLBA a))"
    "slice (headerFields a hdr) 32 40 = putLE64 (of_nat (ga_alternateLBA a))"
    "slice (headerFields a hdr) 72 80 = putLE64 (of_nat (ga_partitionEntryLBA a))"
    "slice (headerFields a hdr) 80 84 = putLE32 128"
    "slice (headerFields a hdr) 84 88 = putLE32 128"
    "slice (headerFields a hdr) 88 92 = putLE32 (ga_partitionEntryCRC a)"
  using assms by (simp_all add: headerFields_def Let_def gpt_sizes copyAt_reads)

lemma header_reads:
  assumes "length hdr = 512" "length (ga_diskGUID a) = 16"
  shows "length (writeGPTHeader hdr a) = 512"
    "slice (writeGPTHeader hdr a) 0 8 = unchars ''EFI PART''"
    "slice (writeGPTHeader hdr a) 8 12 = putLE32 0x00010000"
    "slice (writeGPTHeader hdr a) 12 16 = putLE32 92"
    "slice (writeGPTHeader hdr a) 24 32 = putLE64 (of_nat (ga_myLBA a))"
    "slice (writeGPTHeader hdr a) 32 40 = putLE64 (of_nat (ga_alternateLBA a))"
    "slice (writeGPTHeader hdr a) 72 80 = putLE64 (of_nat (ga_partitionEntryLBA a))"
    "slice (writeGPTHeader hdr a) 80 84 = putLE32 128"
    "slice (writeGPTHeader hdr a) 84 88 = putLE32 128"
    "slice (writeGPTHeader hdr a) 88 92 = putLE32 (ga_partitionEntryCRC a)"
  using headerFields_reads [OF assms] by (simp_all add: writeGPTHeader_def Let_def slice_copyAt_apart)

lemma header_checksum:
  assumes "length hdr = 512" "length (ga_diskGUID a) = 16" "slice hdr 16 20 = replicate 4 0"
  shows "leU32 (slice (writeGPTHeader hdr a) 16 20) =
    ChecksumIEEE (take 16 (writeGPTHeader hdr a) @ replicate 4 0 @ slice (writeGPTHeader hdr a) 20 92)"
proof -
  define h where "h = headerFields a hdr"
  have h: "length h = 512" "slice h 16 20 = replicate 4 0"
    using headerFields_reads [OF assms(1,2)] assms(3) by (simp_all add: h_def)
  have "take 92 h = take 16 h @ slice h 16 20 @ slice h 20 92"
    using take_add [of 16 76 h] take_add [of 4 72 "drop 16 h"] by (simp add: slice_def)
  then have "take 16 (copyAt 16 (putLE32 c) h) @ replicate 4 0 @ slice (copyAt 16 (putLE32 c) h) 20 92 = take 92 h" for c
    using h by (simp add: slice_copyAt_apart) (simp add: copyAt_def)
  then show ?thesis
    using h(1) by (simp add: writeGPTHeader_def h_def [symmetric] Let_def slice_copyAt_same)
qed

end
