(* ===== verification/Gpt_Image.thy ===== *)
theory Gpt_Image
  imports Gpt
begin

text \<open>
  What stands where in an image of the builder, and the properties of builder and finder together.
\<close>

section \<open>The parts of an image\<close>

definition diskGuid :: "bytes \<Rightarrow> bytes" where "diskGuid fat = uuidV4FromBytes (take 16 (Sum256 fat))"

text \<open>The two headers of an image of \<open>n\<close> sectors with array \<open>parts\<close>.\<close>

definition primaryHeader :: "bytes \<Rightarrow> nat \<Rightarrow> bytes \<Rightarrow> bytes" where
  "primaryHeader fat n parts = writeGPTHeader (replicate 512 0)
     \<lparr>ga_myLBA = 1, ga_alternateLBA = n - 1, ga_firstUsableLBA = 34, ga_lastUsableLBA = n - 34,
      ga_diskGUID = diskGuid fat, ga_partitionEntryLBA = 2, ga_partitionEntryCRC = ChecksumIEEE parts\<rparr>"

definition backupHeader :: "bytes \<Rightarrow> nat \<Rightarrow> bytes \<Rightarrow> bytes" where
  "backupHeader fat n parts = writeGPTHeader (replicate 512 0)
     \<lparr>ga_myLBA = n - 1, ga_alternateLBA = 1, ga_firstUsableLBA = 34, ga_lastUsableLBA = n - 34,
      ga_diskGUID = diskGuid fat, ga_partitionEntryLBA = n - 33, ga_partitionEntryCRC = ChecksumIEEE parts\<rparr>"

lemma length_headers [simp]: "length (primaryHeader fat n parts) = 512" "length (backupHeader fat n parts) = 512"
  by (simp_all add: primaryHeader_def backupHeader_def header_reads diskGuid_def)

lemma primaryHeader_reads:
  "slice (primaryHeader fat n parts) 0 8 = unchars ''EFI PART''"
  "slice (primaryHeader fat n parts) 8 12 = putLE32 0x00010000"
  "slice (primaryHeader fat n parts) 12 16 = putLE32 92"
  "slice (primaryHeader fat n parts) 24 32 = putLE64 1"
  "slice (primaryHeader fat n parts) 32 40 = putLE64 (of_nat (n - 1))"
  "slice (primaryHeader fat n parts) 72 80 = putLE64 2"
  "slice (primaryHeader fat n parts) 80 84 = putLE32 128"
  "slice (primaryHeader fat n parts) 84 88 = putLE32 128"
  "slice (primaryHeader fat n parts) 88 92 = putLE32 (ChecksumIEEE parts)"
  by (simp_all add: primaryHeader_def header_reads diskGuid_def)

lemma backupHeader_reads:
  "slice (backupHeader fat n parts) 0 8 = unchars ''EFI PART''"
  "slice (backupHeader fat n parts) 8 12 = putLE32 0x00010000"
  "slice (backupHeader fat n parts) 12 16 = putLE32 92"
  "slice (backupHeader fat n parts) 24 32 = putLE64 (of_nat (n - 1))"
  "slice (backupHeader fat n parts) 32 40 = putLE64 1"
  "slice (backupHeader fat n parts) 72 80 = putLE64 (of_nat (n - 33))"
  "slice (backupHeader fat n parts) 80 84 = putLE32 128"
  "slice (backupHeader fat n parts) 84 88 = putLE32 128"
  "slice (backupHeader fat n parts) 88 92 = putLE32 (ChecksumIEEE parts)"
  by (simp_all add: backupHeader_def header_reads diskGuid_def)

text \<open>What \<^verbatim>\<open>main\<close> does after the layout is known, with the middle of the image filled by any write that stays there.\<close>

lemma image_reads:
  assumes n: "n = d + 33" "33280 \<le> d * 512"
    and img1: "img1 = copyAt 512 hdr (copyAt 1024 parts (copyAt 0 mbr (replicate (n * 512) 0)))"
    and img2: "length img2 = length img1" "\<And>a b. b \<le> 32768 \<or> d * 512 \<le> a \<Longrightarrow> b \<le> n * 512 \<Longrightarrow> slice img2 a b = slice img1 a b"
    and img: "img = copyAt ((n - 1) * 512) bk (copyAt ((n - 33) * 512) parts img2)"
    and len: "length mbr = 512" "length hdr = 512" "length parts = 16384" "length bk = 512"
  shows "length img = n * 512" "slice img 512 1024 = hdr" "slice img 1024 17408 = parts"
    "slice img ((n - 33) * 512) ((n - 33) * 512 + 16384) = parts" "slice img ((n - 1) * 512) (n * 512) = bk"
    "32768 \<le> a \<Longrightarrow> b \<le> d * 512 \<Longrightarrow> slice img a b = slice img2 a b"
    "slice (copyAt ((n - 33) * 512) parts img2) ((n - 1) * 512) (n * 512) = replicate 512 0"
proof -
  have l: "length img1 = n * 512" "length img2 = n * 512"
    using n len img2(1) by (simp_all add: img1)
  have one: "slice img1 512 1024 = hdr" "slice img1 1024 17408 = parts"
    using n len by (simp_all add: img1 copyAt_reads)
  show "length img = n * 512" using n l len by (simp add: img)
  show "slice img 512 1024 = hdr" "slice img 1024 17408 = parts"
    using n l len one img2(2) by (simp_all add: img copyAt_reads)
  show "slice img ((n - 33) * 512) ((n - 33) * 512 + 16384) = parts" "slice img ((n - 1) * 512) (n * 512) = bk"
    using n l len by (simp_all add: img copyAt_reads)
  show "32768 \<le> a \<Longrightarrow> b \<le> d * 512 \<Longrightarrow> slice img a b = slice img2 a b"
    using n l len by (simp add: img copyAt_reads)
  show "slice (copyAt ((n - 33) * 512) parts img2) ((n - 1) * 512) (n * 512) = replicate 512 0"
    using n l len img2(2) [of "n * 512" "(n - 1) * 512"] by (simp add: img1 copyAt_reads slice_replicate)
qed

lemma align_up: "0 < k \<Longrightarrow> m \<le> (m + k - 1) div k * k" for m k :: nat
proof -
  assume k: "0 < k"
  have "m + k - 1 = (m + k - 1) div k * k + (m + k - 1) mod k" by simp
  moreover have "(m + k - 1) mod k < k" using k by simp
  ultimately show ?thesis using k by linarith
qed

definition imageLayout :: "bytes \<Rightarrow> bytes option \<Rightarrow> layout" where
  "imageLayout fat ufs = layoutOf (length fat div 512) (map_option (\<lambda>u. length u div 512) ufs)"

text \<open>The UFS image fills whole sectors.\<close>

definition sectors_ok :: "bytes option \<Rightarrow> bool" where
  "sectors_ok ufs = (case ufs of None \<Rightarrow> True | Some u \<Rightarrow> u \<noteq> [] \<and> length u mod 512 = 0)"

lemma layout_None:
  assumes "length fat mod 512 = 0" "length fat div 512 \<noteq> 0"
  shows "ly_espEnd (imageLayout fat None) * 512 + 512 = 32768 + length fat"
    "ly_totalLBAs (imageLayout fat None) * 512 = 32768 + length fat + 16896"
  using assms by (auto simp: imageLayout_def layoutOf_def gpt_sizes Let_def)

lemma layout_Some:
  assumes "length fat mod 512 = 0" "length fat div 512 \<noteq> 0" "sectors_ok (Some u)"
  shows "ly_espEnd (imageLayout fat (Some u)) * 512 + 512 = 32768 + length fat"
    "32768 + length fat \<le> ly_ufsStart (imageLayout fat (Some u)) * 512"
    "(ly_ufsEnd (imageLayout fat (Some u)) + 1) * 512 = ly_ufsStart (imageLayout fat (Some u)) * 512 + length u"
    "ly_totalLBAs (imageLayout fat (Some u)) * 512 = ly_ufsStart (imageLayout fat (Some u)) * 512 + length u + 16896"
proof -
  define f where "f = length fat div 512"
  define v where "v = length u div 512"
  have f: "length fat = f * 512" "f \<noteq> 0"
    using div_mult_mod_eq [of "length fat" 512] assms(1,2) by (simp_all add: f_def)
  have u: "u \<noteq> []" "length u mod 512 = 0" using assms(3) by (simp_all add: sectors_ok_def)
  then have v: "length u = v * 512" using div_mult_mod_eq [of "length u" 512] by (simp add: v_def)
  with u(1) have "v \<noteq> 0" by (metis length_0_conv mult_0)
  have "64 + f \<le> (64 + f + 2048 - 1) div 2048 * 2048" by (rule align_up) simp
  then show "ly_espEnd (imageLayout fat (Some u)) * 512 + 512 = 32768 + length fat"
    "32768 + length fat \<le> ly_ufsStart (imageLayout fat (Some u)) * 512"
    "(ly_ufsEnd (imageLayout fat (Some u)) + 1) * 512 = ly_ufsStart (imageLayout fat (Some u)) * 512 + length u"
    "ly_totalLBAs (imageLayout fat (Some u)) * 512 = ly_ufsStart (imageLayout fat (Some u)) * 512 + length u + 16896"
    using f v \<open>v \<noteq> 0\<close> by (simp_all add: imageLayout_def layoutOf_def gpt_sizes Let_def)
qed

lemma layout_end:
  assumes "length fat mod 512 = 0" "length fat div 512 \<noteq> 0" "sectors_ok ufs"
  obtains e where "ly_totalLBAs (imageLayout fat ufs) * 512 = e + 16896" "33280 \<le> e" "32768 + length fat \<le> e"
    "\<And>u. ufs = Some u \<Longrightarrow> ly_ufsStart (imageLayout fat ufs) * 512 + length u = e \<and>
      32768 + length fat \<le> ly_ufsStart (imageLayout fat ufs) * 512"
proof -
  have f: "512 \<le> length fat" using assms(2) by (metis div_less not_less)
  show ?thesis
  proof (cases ufs)
    case None
    show ?thesis
      by (rule that [of "32768 + length fat"]) (use f layout_None [OF assms(1,2)] None in simp_all)
  next
    case (Some u)
    note l = layout_Some [OF assms(1,2) assms(3) [unfolded Some]]
    show ?thesis
      by (rule that [of "ly_ufsStart (imageLayout fat (Some u)) * 512 + length u"])
        (use f l(2,4) Some in simp_all)
  qed
qed

lemma buildImage_reads:
  assumes "buildImage fat ufs = Inr img" "sectors_ok ufs"
    and ly: "ly = imageLayout fat ufs" "n = ly_totalLBAs ly" "parts = partArray fat ufs ly"
  shows "length img = n * 512" "slice img 512 1024 = primaryHeader fat n parts" "slice img 1024 17408 = parts"
    "slice img ((n - 33) * 512) ((n - 33) * 512 + 16384) = parts" "slice img ((n - 1) * 512) (n * 512) = backupHeader fat n parts"
    "slice img 32768 (32768 + length fat) = fat"
    "ufs = Some u \<Longrightarrow> slice img (ly_ufsStart ly * 512) (ly_ufsStart ly * 512 + length u) = u" "98 \<le> n"
proof -
  have fat: "length fat mod 512 = 0" "length fat div 512 \<noteq> 0"
    using assms(1) by (auto simp: buildImage_def gpt_sizes Let_def split: if_splits)
  obtain e where e: "n * 512 = e + 16896" "33280 \<le> e" "32768 + length fat \<le> e"
      "\<And>u. ufs = Some u \<Longrightarrow> ly_ufsStart ly * 512 + length u = e \<and> 32768 + length fat \<le> ly_ufsStart ly * 512"
    using layout_end [OF fat assms(2)] ly by metis
  then have n: "n = n - 33 + 33" "(n - 33) * 512 = e" "33280 \<le> (n - 33) * 512" "98 \<le> n" by auto
  define img1 where "img1 = copyAt 512 (primaryHeader fat n parts) (copyAt 1024 parts (copyAt 0 (protectiveMBR n) (replicate (n * 512) 0)))"
  define img2 where "img2 = (case ufs of None \<Rightarrow> copyAt 32768 fat img1 | Some u \<Rightarrow> copyAt (ly_ufsStart ly * 512) u (copyAt 32768 fat img1))"
  define out where "out = copyAt ((n - 1) * 512) (backupHeader fat n parts) (copyAt ((n - 33) * 512) parts img2)"
  have l: "length parts = 16384" "length img1 = e + 16896" using n e by (simp_all add: ly img1_def)
  have fill: "length img2 = length img1" "slice img2 32768 (32768 + length fat) = fat"
    "\<And>a b. b \<le> 32768 \<or> (n - 33) * 512 \<le> a \<Longrightarrow> b \<le> n * 512 \<Longrightarrow> slice img2 a b = slice img1 a b"
    "\<And>u. ufs = Some u \<Longrightarrow> slice img2 (ly_ufsStart ly * 512) (ly_ufsStart ly * 512 + length u) = u"
    using n e l by (cases ufs; auto simp: img2_def copyAt_reads)+
  note r = image_reads [OF n(1,3) img1_def fill(1,3) out_def length_protectiveMBR length_headers(1) l(1) length_headers(2)]
  have z: "slice (copyAt 1024 parts (copyAt 0 (protectiveMBR n) (replicate (n * 512) 0))) 512 1024 = replicate 512 0"
    using e(1,2) l(1) by (simp add: copyAt_reads slice_replicate)
  have p: "primaryHeader fat n parts = writeGPTHeader (replicate 512 0)
      \<lparr>ga_myLBA = 1, ga_alternateLBA = n - 1, ga_firstUsableLBA = 34, ga_lastUsableLBA = n - 1 - 1 - 32,
       ga_diskGUID = uuidV4FromBytes (take 16 (Sum256 fat)), ga_partitionEntryLBA = 2, ga_partitionEntryCRC = ChecksumIEEE parts\<rparr>"
    by (simp add: primaryHeader_def diskGuid_def)
  have "buildImage fat ufs = Inr (copyAt ((n - 1) * 512) (writeGPTHeader
      (slice (copyAt ((n - 33) * 512) parts img2) ((n - 1) * 512) ((n - 1 + 1) * 512))
      \<lparr>ga_myLBA = n - 1, ga_alternateLBA = 1, ga_firstUsableLBA = 34, ga_lastUsableLBA = n - 34,
       ga_diskGUID = diskGuid fat, ga_partitionEntryLBA = n - 33, ga_partitionEntryCRC = ChecksumIEEE parts\<rparr>)
      (copyAt ((n - 33) * 512) parts img2))"
  proof (cases ufs)
    case None
    then have "layoutOf (length fat div 512) None = ly" "partArray fat None ly = parts" "ly_totalLBAs ly = n"
      by (simp_all add: ly imageLayout_def)
    then show ?thesis
      using fat None by (simp add: buildImage_def gpt_sizes Let_def z p img1_def img2_def diskGuid_def)
  next
    case (Some v)
    then have "layoutOf (length fat div 512) (Some (length v div 512)) = ly" "partArray fat (Some v) ly = parts" "ly_totalLBAs ly = n"
      by (simp_all add: ly imageLayout_def)
    then show ?thesis
      using fat Some by (simp add: buildImage_def gpt_sizes Let_def z p img1_def img2_def diskGuid_def)
  qed
  then have "buildImage fat ufs = Inr out"
    using r(7) n(4) by (simp add: out_def backupHeader_def)
  then have [simp]: "img = out" using assms(1) by simp
  show "length img = n * 512" "slice img 512 1024 = primaryHeader fat n parts" "slice img 1024 17408 = parts"
    "slice img ((n - 33) * 512) ((n - 33) * 512 + 16384) = parts" "slice img ((n - 1) * 512) (n * 512) = backupHeader fat n parts"
    using r(1-5) by simp_all
  show "slice img 32768 (32768 + length fat) = fat"
    using r(6) [of 32768 "32768 + length fat"] e(3) n(2) fill(2) by simp
  show "slice img (ly_ufsStart ly * 512) (ly_ufsStart ly * 512 + length u) = u" if "ufs = Some u"
    using r(6) [of "ly_ufsStart ly * 512" "ly_ufsStart ly * 512 + length u"] e(4) [OF that] n(2) fill(4) [OF that] by simp
  show "98 \<le> n" by (rule n)
qed

section \<open>Reading the image back\<close>

lemma sint_of_nat_u64: "k < 2 ^ 63 \<Longrightarrow> sint (of_nat k :: u64) = int k"
  by (simp add: signed_of_nat signed_take_bit_int_eq_self)

lemma sliceInt_ok:
  assumes "lo \<le> hi" "hi \<le> length img" "length img < 2 ^ 63"
  shows "sliceInt img (of_nat lo) (of_nat hi) = Inr (slice img lo hi)"
proof -
  have "lo < 2 ^ 63" "hi < 2 ^ 63" using assms by simp_all
  then show ?thesis
    using assms by (simp add: sliceInt_def sint_of_nat_u64 unat_of_nat_u64)
qed

lemma entry_slice:
  assumes "1024 + (i + 1) * 128 \<le> length img" "length img < 2 ^ 63"
  shows "sliceInt img (1024 + of_nat i * ucast (128 :: u32)) (1024 + of_nat (i + 1) * ucast (128 :: u32)) =
    Inr (slice img (1024 + i * 128) (1024 + (i + 1) * 128))"
proof -
  have "1024 + of_nat k * ucast (128 :: u32) = (of_nat (1024 + k * 128) :: u64)" for k by simp
  then show ?thesis
    using sliceInt_ok [of "1024 + i * 128" "1024 + (i + 1) * 128" img] assms by (simp only:) simp
qed

lemma entryLoop_skip:
  assumes "1024 + (i + 1) * 128 \<le> length img" "length img < 2 ^ 63"
    and "slice (slice img (1024 + i * 128) (1024 + (i + 1) * 128)) 0 16 \<noteq> freebsdUFSTypeGUID"
  shows "entryLoop (Suc n) i img 1024 128 = entryLoop n (i + 1) img 1024 128"
  unfolding entryLoop.simps entry_slice [OF assms(1,2)] using assms(3) by (simp add: Let_def)

lemma zeros_no_type: "replicate 16 0 \<noteq> freebsdUFSTypeGUID"
proof
  assume "replicate 16 0 = freebsdUFSTypeGUID"
  then have "hd (replicate 16 (0 :: byte)) = hd freebsdUFSTypeGUID" by (rule arg_cong)
  then show False by (simp add: freebsdUFSTypeGUID_def)
qed

lemma entryLoop_zeros:
  "1024 + (i + n) * 128 \<le> length img \<Longrightarrow> length img < 2 ^ 63 \<Longrightarrow>
   slice img (1024 + i * 128) (1024 + (i + n) * 128) = replicate (n * 128) 0 \<Longrightarrow>
   entryLoop n i img 1024 128 = Inl ErrNoUFSPartition"
proof (induction n arbitrary: i)
  case (Suc n)
  let ?z = "slice img (1024 + i * 128) (1024 + (i + Suc n) * 128)"
  have "slice img (1024 + i * 128) (1024 + (i + 1) * 128) = slice ?z 0 128"
    by (subst slice_slice) (simp_all add: algebra_simps)
  also have "\<dots> = replicate 128 0" unfolding Suc.prems(3) by (simp add: slice_replicate)
  finally have "slice (slice img (1024 + i * 128) (1024 + (i + 1) * 128)) 0 16 \<noteq> freebsdUFSTypeGUID"
    using zeros_no_type by (simp add: slice_replicate)
  then have "entryLoop (Suc n) i img 1024 128 = entryLoop n (i + 1) img 1024 128"
    using Suc.prems(1,2) by (intro entryLoop_skip) simp_all
  also have "\<dots> = Inl ErrNoUFSPartition"
  proof (rule Suc.IH)
    have "slice img (1024 + (i + 1) * 128) (1024 + (i + 1 + n) * 128) = slice ?z 128 (Suc n * 128)"
      by (subst slice_slice) (simp_all add: algebra_simps)
    also have "\<dots> = replicate (n * 128) 0" unfolding Suc.prems(3) by (simp add: slice_replicate)
    finally show "slice img (1024 + (i + 1) * 128) (1024 + (i + 1 + n) * 128) = replicate (n * 128) 0" .
  qed (use Suc.prems(1,2) in simp_all)
  finally show ?case .
qed simp

lemma findUFS_table:
  assumes "slice img 512 1024 = primaryHeader fat n parts" "1024 + 16384 \<le> length img" "length img < 2 ^ 63"
  shows "findUFSPartitionBytes img = entryLoop 128 0 img 1024 128"
proof -
  have "sint (17408 :: u64) = 17408" using sint_of_nat_u64 [of 17408] by simp
  then show ?thesis
    using assms by (simp add: findUFSPartitionBytes_def primaryHeader_reads Let_def)
qed

lemma partArray_reads:
  "slice (partArray fat ufs ly) 0 128 =
    partEntry efiSystemPartitionGUID (uuidV4FromBytes (drop 16 (Sum256 fat))) 64 (ly_espEnd ly) ''EFI System''"
  "slice (partArray fat (Some u) ly) 128 256 =
    partEntry freebsdUFSTypeGUID (uuidV4FromBytes (take 16 (Sum256 u))) (ly_ufsStart ly) (ly_ufsEnd ly) ''FreeBSD-UFS''"
  "slice (partArray fat None ly) 128 16384 = replicate 16256 0"
  by (cases ufs; simp add: partArray_def Let_def gpt_sizes copyAt_reads partEntry_fields)
    (simp_all add: partArray_def Let_def gpt_sizes copyAt_reads partEntry_fields slice_replicate)

lemma entryLoop_found:
  assumes "1024 + (i + 1) * 128 \<le> length img" "length img < 2 ^ 63"
    and e: "slice img (1024 + i * 128) (1024 + (i + 1) * 128) = partEntry freebsdUFSTypeGUID guid start end name" "length guid = 16"
    and "start \<le> end" "(end + 1) * 512 \<le> length img"
  shows "entryLoop (Suc n) i img 1024 128 = Inr (slice img (start * 512) ((end + 1) * 512))"
proof -
  have b: "end < 2 ^ 64" "start < 2 ^ 64" using assms(2,5,6) by simp_all
  then have le: "\<not> (of_nat end :: u64) < of_nat start"
    using assms(5) by (simp add: word_less_nat_alt unat_of_nat_u64)
  have w: "of_nat start * 512 = (of_nat (start * 512) :: u64)" "of_nat end * 512 + 512 = (of_nat (512 + end * 512) :: u64)"
    by simp_all
  have "sint (of_nat (start * 512) :: u64) = int (start * 512)" "sint (of_nat ((end + 1) * 512) :: u64) = int ((end + 1) * 512)"
    by (rule sint_of_nat_u64, use assms(2,5,6) in simp)+
  then show ?thesis
    unfolding entryLoop.simps entry_slice [OF assms(1,2)] e
    using le assms(2,5,6) zeros_no_type sliceInt_ok [of "start * 512" "(end + 1) * 512" img] e(2)
    by (simp add: partEntry_fields Let_def w del: of_nat_mult of_nat_add of_nat_Suc)
qed

lemma esp_not_ufs: "efiSystemPartitionGUID \<noteq> freebsdUFSTypeGUID"
  by (simp add: efiSystemPartitionGUID_def freebsdUFSTypeGUID_def)

lemma ufsPartitionSize_sectors:
  assumes "0 \<le> ufsSize" "length u = nat (ufsPartitionSize ufsSize tarLen)"
  shows "sectors_ok (Some u)"
proof -
  define l where "l = (if ufsSize = 0 then max minUFSBytes (tarLen * ufsHeadroomMult) else ufsSize)"
  have l: "0 < l" using assms(1) by (simp add: l_def minUFSBytes_def ufsHeadroomMult_def)
  have "l smod 1048576 = l mod 1048576" using l by (simp add: smod_int_alt_def)
  then have e: "ufsPartitionSize ufsSize tarLen = (if l mod 1048576 \<noteq> 0 then l - l mod 1048576 + 1048576 else l - l mod 1048576)"
    by (simp add: ufsPartitionSize_def l_def [symmetric] Let_def)
  have "1048576 dvd ufsPartitionSize ufsSize tarLen"
    unfolding e by (auto simp: dvd_minus_mod)
  moreover have "0 < ufsPartitionSize ufsSize tarLen"
  proof -
    have "l mod 1048576 < 1048576" by simp
    with l have "0 < l - l mod 1048576 + 1048576" by linarith
    then show ?thesis using l by (simp add: e)
  qed
  ultimately obtain k where k: "ufsPartitionSize ufsSize tarLen = 1048576 * k" "0 < k" by (auto elim!: dvdE)
  then have "length u = 512 * nat (2048 * k)" using assms(2) by (simp add: nat_mult_distrib)
  then show ?thesis using k(2) by (auto simp: sectors_ok_def)
qed

section \<open>Properties\<close>

text \<open>
  C6. The partition comes back: in every image of the builder with a UFS partition of whole sectors, the finder returns exactly
  the bytes of that partition, and in an image without one it reports that there is none.
\<close>

theorem gpt_ufs_roundtrip:
  assumes "buildImage fat ufs = Inr img" "sectors_ok ufs" "length img < 2 ^ 63"
  shows "findUFSPartitionBytes img = (case ufs of None \<Rightarrow> Inl ErrNoUFSPartition | Some u \<Rightarrow> Inr u)"
proof -
  define ly where "ly = imageLayout fat ufs"
  define n where "n = ly_totalLBAs ly"
  define parts where "parts = partArray fat ufs ly"
  note r = buildImage_reads [OF assms(1,2) ly_def n_def parts_def]
  have big: "17408 \<le> length img" using r(1,8) by simp
  have sub: "slice img (1024 + a) (1024 + b) = slice parts a b" if "b \<le> 16384" for a b
    using slice_slice [of b 17408 1024 img a] r(3) that by simp
  have "slice (slice img (1024 + 0 * 128) (1024 + (0 + 1) * 128)) 0 16 = efiSystemPartitionGUID"
    using sub [of 128 0] partArray_reads(1) by (simp add: parts_def partEntry_fields)
  then have one: "findUFSPartitionBytes img = entryLoop 127 1 img 1024 128"
    using entryLoop_skip [of 0 img 127] findUFS_table [OF r(2)] big assms(3) esp_not_ufs by simp
  show ?thesis
  proof (cases ufs)
    case None
    then show ?thesis
      using one entryLoop_zeros [of 1 127 img] sub [of 16384 128] partArray_reads(3) big assms(3) by (simp add: parts_def)
  next
    case (Some u)
    have "length fat mod 512 = 0" "length fat div 512 \<noteq> 0"
      using assms(1) by (auto simp: buildImage_def gpt_sizes Let_def split: if_splits)
    note l = layout_Some [OF this assms(2) [unfolded Some], folded Some, folded ly_def]
    have "0 < length u" using assms(2) Some by (simp add: sectors_ok_def)
    then have "ly_ufsStart ly * 512 < (ly_ufsEnd ly + 1) * 512" unfolding l(3) by simp
    then have "ly_ufsStart ly \<le> ly_ufsEnd ly" by simp
    moreover have "(ly_ufsEnd ly + 1) * 512 \<le> length img" using l(3,4) r(1) by (simp add: n_def)
    ultimately have "entryLoop (Suc 126) 1 img 1024 128 = Inr (slice img (ly_ufsStart ly * 512) ((ly_ufsEnd ly + 1) * 512))"
      using sub [of 256 128] partArray_reads(2) big assms(3) Some 
      by (intro entryLoop_found [where guid = "uuidV4FromBytes (take 16 (Sum256 u))"]) (simp_all add: parts_def)
    then show ?thesis
      using one l(3) r(7) [OF Some] Some by simp
  qed
qed

definition demoFat :: bytes where "demoFat = replicate 512 7"
definition demoUfs :: bytes where "demoUfs = replicate 1024 9"

lemma demo_image: "\<exists>img. buildImage demoFat (Some demoUfs) = Inr img" "sectors_ok (Some demoUfs)"
  by (simp_all add: buildImage_def demoFat_def demoUfs_def sectors_ok_def gpt_sizes Let_def)

lemma demo_layout: "ly_totalLBAs (imageLayout demoFat (Some demoUfs)) = 2083"
  by (simp add: imageLayout_def layoutOf_def demoFat_def demoUfs_def gpt_sizes Let_def)

theorem gpt_ufs_roundtrip_witness:
  "\<exists>img. buildImage demoFat (Some demoUfs) = Inr img \<and> findUFSPartitionBytes img = Inr demoUfs"
proof -
  obtain img where img: "buildImage demoFat (Some demoUfs) = Inr img" using demo_image(1) by blast
  then have "length img < 2 ^ 63"
    using buildImage_reads(1) [OF img demo_image(2) refl refl refl] by (simp add: demo_layout)
  then show ?thesis
    using gpt_ufs_roundtrip [OF img demo_image(2)] img by simp
qed

text \<open>
  A header at sector \<open>lba\<close> that firmware accepts: magic, revision and size; a checksum over its 92 bytes with the checksum field
  zero; its own position and that of the other header; and a checksum over the array it points to.
\<close>

definition gpt_header_valid :: "bytes \<Rightarrow> nat \<Rightarrow> nat \<Rightarrow> bool" where
  "gpt_header_valid img lba alt =
     (let h = slice img (lba * 512) ((lba + 1) * 512);
          base = unat (leU64 (slice h 72 80)) * 512 in
      slice h 0 8 = unchars ''EFI PART'' \<and> leU32 (slice h 8 12) = 0x00010000 \<and> leU32 (slice h 12 16) = 92 \<and>
      leU32 (slice h 16 20) = ChecksumIEEE (take 16 h @ replicate 4 0 @ slice h 20 92) \<and>
      leU64 (slice h 24 32) = of_nat lba \<and> leU64 (slice h 32 40) = of_nat alt \<and>
      leU32 (slice h 80 84) = 128 \<and> leU32 (slice h 84 88) = 128 \<and>
      leU32 (slice h 88 92) = ChecksumIEEE (slice img base (base + 128 * 128)))"

text \<open>
  C35. The image is a disk that firmware accepts: both copies of the partition table are valid and point to each other, the
  second one in the last sector; the two arrays are equal; and the FAT image stands, unchanged, where the first
  entry says.
\<close>

theorem gpt_image_valid:
  assumes "buildImage fat ufs = Inr img" "sectors_ok ufs" "length img < 2 ^ 63"
  shows "\<exists>last. length img = (last + 1) * 512 \<and> gpt_header_valid img 1 last \<and> gpt_header_valid img last 1 \<and>
    slice img 1024 17408 = slice img ((last - 32) * 512) (last * 512) \<and>
    (\<exists>guid espEnd. slice img 1024 1152 = partEntry efiSystemPartitionGUID guid 64 espEnd ''EFI System'' \<and>
       slice img (64 * 512) ((espEnd + 1) * 512) = fat)"
proof -
  define ly where "ly = imageLayout fat ufs"
  define n where "n = ly_totalLBAs ly"
  define parts where "parts = partArray fat ufs ly"
  note r = buildImage_reads [OF assms(1,2) ly_def n_def parts_def]
  have "unat (of_nat (n - 33) :: u64) = n - 33" by (rule unat_of_nat_u64) (use r(1) assms(3) in simp)
  then have k: "Suc (n - Suc 0) = n" "(n - Suc 0) * 512 = (n - 33) * 512 + 16384" "unat (of_nat (n - 33) :: u64) = n - 33"
    using r(8) by simp_all
  have fat: "length fat mod 512 = 0" "length fat div 512 \<noteq> 0"
    using assms(1) by (auto simp: buildImage_def gpt_sizes Let_def split: if_splits)
  have "gpt_header_valid img 1 (n - 1)"
    using r(2,3) header_checksum [of "replicate 512 0"]
    by (simp add: gpt_header_valid_def primaryHeader_reads Let_def)
      (simp add: primaryHeader_def header_checksum slice_replicate diskGuid_def)
  moreover have "gpt_header_valid img (n - 1) 1"
    using r(4,5) k
    by (simp add: gpt_header_valid_def backupHeader_reads Let_def)
      (simp add: backupHeader_def header_checksum slice_replicate diskGuid_def)
  moreover have "slice img 1024 17408 = slice img ((n - 1 - 32) * 512) ((n - 1) * 512)"
    using r(3,4) k by simp
  moreover have "slice img 1024 1152 = partEntry efiSystemPartitionGUID (uuidV4FromBytes (drop 16 (Sum256 fat))) 64 (ly_espEnd ly) ''EFI System''"
    using slice_slice [of 128 17408 1024 img 0] r(3) partArray_reads(1) by (simp add: parts_def)
  moreover have "slice img (64 * 512) ((ly_espEnd ly + 1) * 512) = fat"
    using r(6) layout_None(1) [OF fat] layout_Some(1) [OF fat] assms(2) by (cases ufs) (simp_all add: ly_def add.commute)
  moreover have "length img = (n - 1 + 1) * 512" using r(1,8) by simp
  ultimately show ?thesis by blast
qed

theorem gpt_image_valid_witness:
  "\<exists>img last. buildImage demoFat (Some demoUfs) = Inr img \<and> gpt_header_valid img 1 last \<and> gpt_header_valid img last 1"
proof -
  obtain img where img: "buildImage demoFat (Some demoUfs) = Inr img" using demo_image(1) by blast
  then have "length img < 2 ^ 63"
    using buildImage_reads(1) [OF img demo_image(2) refl refl refl] by (simp add: demo_layout)
  then show ?thesis
    using gpt_image_valid [OF img demo_image(2)] img by blast
qed

text \<open>
  C36. A hostile table crashes the finder: a header that places the entries at sector \<open>2 ^ 54\<close> passes every check, because the byte
  offset wraps to a negative number, and the slice expression for the first entry panics.
\<close>

theorem gpt_huge_lba_panics:
  assumes "1024 \<le> length img" "slice img 512 520 = unchars ''EFI PART''"
    and "leU64 (slice img 584 592) = 2 ^ 54" "leU32 (slice img 592 596) = 128" "leU32 (slice img 596 600) = 128"
  shows "findUFSPartitionBytes img = Inl ErrGptPanic"
proof -
  have s: "sint (9223372036854775808 :: u64) < 0" "sint (9223372036854792192 :: u64) < 0" by (simp_all add: sint_numeral)
  have "slice (slice img 512 1024) a b = slice img (512 + a) (512 + b)" if "b \<le> 512" for a b
    using that by (simp add: slice_slice)
  moreover have "entryLoop (Suc 127) 0 img (2 ^ 54 * 512) 128 = Inl ErrGptPanic"
    using s unfolding entryLoop.simps by (simp add: sliceInt_def)
  ultimately show ?thesis
    using assms s by (simp add: findUFSPartitionBytes_def Let_def)
qed

definition demoHostile :: bytes where
  "demoHostile = replicate 512 0 @ unchars ''EFI PART'' @ replicate 64 0 @ putLE64 (2 ^ 54) @ putLE32 128 @ putLE32 128 @ replicate 424 0"

theorem gpt_huge_lba_panics_witness: "findUFSPartitionBytes demoHostile = Inl ErrGptPanic"
  by (rule gpt_huge_lba_panics) (simp_all add: demoHostile_def slice_def)

end
