(* ===== verification/Dtb.thy ===== *)
theory Dtb
  imports Efi_Firmware Go_Strings
begin

text \<open>
  The device tree handed to a kernel: installing it as a configuration table (\<^verbatim>\<open>install_config_table*.go\<close>), looking for it in
  the system table (\<^verbatim>\<open>dtb_probe*.go\<close>), and fetching it from the \<^verbatim>\<open>fw_cfg\<close> device of QEMU (\<^verbatim>\<open>dtb_fetch*.go\<close>). The
  boot service \<^verbatim>\<open>InstallConfigurationTable\<close> and the device are parameters.
\<close>

section \<open>Installing a table\<close>

definition DTBGUIDBytes :: bytes where
  "DTBGUIDBytes = [0xd5, 0x21, 0xb6, 0xb1, 0x9c, 0xf1, 0xa5, 0x41, 0x83, 0x0b, 0xd9, 0x15, 0x2c, 0x69, 0xaa, 0xe0]"

text \<open>The boot service: GUID, address of the table and memory to status and memory.\<close>

type_synonym installTable = "bytes \<Rightarrow> u64 \<Rightarrow> mem \<Rightarrow> u64 \<times> mem"

definition InstallConfigurationTable :: "firmware \<Rightarrow> installTable \<Rightarrow> bytes \<Rightarrow> u64 \<Rightarrow> mem \<Rightarrow> efi_error option \<times> mem" where
  "InstallConfigurationTable fw inst guid table m =
     (if fw_BootServices fw = 0 then (Some ErrNoBootServices, m)
      else case inst guid table m of
        (status, m') \<Rightarrow> (if status \<noteq> 0 then Some (EFIError status ''InstallConfigurationTable'') else None, m'))"

definition PublishDTB :: "firmware \<Rightarrow> installTable \<Rightarrow> bytes \<Rightarrow> mem \<Rightarrow> efi_error option \<times> mem" where
  "PublishDTB fw inst dtb m =
     (if dtb = [] then (Some ErrDTBEmpty, m)
      else case AllocatePool fw EfiBootServicesData (length dtb) of
        Inl e \<Rightarrow> (Some e, m)
      | Inr poolPtr \<Rightarrow> InstallConfigurationTable fw inst DTBGUIDBytes poolPtr (writeMem poolPtr dtb m))"

section \<open>Looking for the table\<close>

definition EFIDTBTableGUID :: EFIGUID where
  "EFIDTBTableGUID = \<lparr>Data1 = 0xb1b621d5, Data2 = 0xf19c, Data3 = 0x41a5, Data4 = [0x83, 0x0b, 0xd9, 0x15, 0x2c, 0x69, 0xaa, 0xe0]\<rparr>"

definition efiSTNumberOfTableEntries :: u64 where "efiSTNumberOfTableEntries = 104"
definition efiSTConfigurationTable :: u64 where "efiSTConfigurationTable = 112"
definition efiConfigurationTableEntrySize :: u64 where "efiConfigurationTableEntrySize = 24"

record DTBProbeResult =
  dp_SystemTablePresent :: bool
  dp_NumberOfTableEntries :: u64
  dp_DTBFound :: bool
  dp_DTBVendorTable :: u64
  dp_AllGUIDs :: "EFIGUID list"

definition guidsEqual :: "EFIGUID \<Rightarrow> EFIGUID \<Rightarrow> bool" where
  "guidsEqual a b =
     (if Data1 a \<noteq> Data1 b \<or> Data2 a \<noteq> Data2 b \<or> Data3 a \<noteq> Data3 b then False
      else list_all (\<lambda>i. Data4 a ! i = Data4 b ! i) [0..<8])"

text \<open>The GUID that a pointer into memory designates.\<close>

definition readGuid :: "mem \<Rightarrow> u64 \<Rightarrow> EFIGUID" where
  "readGuid m p = \<lparr>Data1 = readU32 m p, Data2 = readU16 m (p + 4), Data3 = readU16 m (p + 6), Data4 = readMem m (p + 8) 8\<rparr>"

primrec probeLoop :: "nat \<Rightarrow> u64 \<Rightarrow> mem \<Rightarrow> u64 \<Rightarrow> DTBProbeResult \<Rightarrow> DTBProbeResult" where
  "probeLoop 0 i m cfgTbl r = r"
| "probeLoop (Suc n) i m cfgTbl r =
     (let entry = cfgTbl + i * efiConfigurationTableEntrySize;
          g = readGuid m entry;
          r = r\<lparr>dp_AllGUIDs := dp_AllGUIDs r @ [g]\<rparr> in
      probeLoop n (i + 1) m cfgTbl
        (if guidsEqual g EFIDTBTableGUID then r\<lparr>dp_DTBFound := True, dp_DTBVendorTable := readU64 m (entry + 16)\<rparr> else r))"

definition ProbeDTBConfigurationTable :: "u64 \<Rightarrow> mem \<Rightarrow> DTBProbeResult" where
  "ProbeDTBConfigurationTable systemTable m =
     (let r = \<lparr>dp_SystemTablePresent = False, dp_NumberOfTableEntries = 0, dp_DTBFound = False, dp_DTBVendorTable = 0, dp_AllGUIDs = []\<rparr> in
      if systemTable = 0 then r
      else
        let n = readU64 m (systemTable + efiSTNumberOfTableEntries);
            cfgTbl = readU64 m (systemTable + efiSTConfigurationTable);
            r = r\<lparr>dp_SystemTablePresent := True, dp_NumberOfTableEntries := n\<rparr> in
        if n = 0 \<or> cfgTbl = 0 then r else probeLoop (unat n) 0 m cfgTbl r)"

section \<open>Fetching the tree from QEMU\<close>

definition FwCfgDataPort :: u64 where "FwCfgDataPort = 0"
definition FwCfgSelectorPort :: u64 where "FwCfgSelectorPort = 8"
definition FwCfgSelectorFileDir :: u16 where "FwCfgSelectorFileDir = 0x0019"
definition FwCfgFileEntrySize :: nat where "FwCfgFileEntrySize = 64"
definition FwCfgFileNameSize :: nat where "FwCfgFileNameSize = 56"
definition FwCfgFDTName :: string where "FwCfgFDTName = ''etc/fdt''"
definition FwCfgMaxFDTSize :: u32 where "FwCfgMaxFDTSize = 256 * 1024"

text \<open>A device behind memory-mapped ports: what a byte store and a byte load at an address do to its state.\<close>

record 'd mmio =
  io_store :: "u64 \<Rightarrow> byte \<Rightarrow> 'd \<Rightarrow> 'd"
  io_load :: "u64 \<Rightarrow> 'd \<Rightarrow> byte \<times> 'd"

definition fwCfgMMIOBase :: "u64 option" where "fwCfgMMIOBase = None"

definition fwCfgSelect :: "'d mmio \<Rightarrow> u64 \<Rightarrow> u16 \<Rightarrow> 'd \<Rightarrow> 'd" where
  "fwCfgSelect io base sel d =
     (let addr = base + FwCfgSelectorPort in
      io_store io (addr + 1) (ucast (sel AND 0xff)) (io_store io addr (ucast (drop_bit 8 sel)) d))"

primrec fwCfgReadBytes :: "'d mmio \<Rightarrow> u64 \<Rightarrow> nat \<Rightarrow> 'd \<Rightarrow> bytes \<times> 'd" where
  "fwCfgReadBytes io base 0 d = ([], d)"
| "fwCfgReadBytes io base (Suc n) d =
     (let (b, d1) = io_load io (base + FwCfgDataPort) d;
          (bs, d2) = fwCfgReadBytes io base n d1 in
      (b # bs, d2))"

definition fwCfgReadU32BE :: "'d mmio \<Rightarrow> u64 \<Rightarrow> 'd \<Rightarrow> u32 \<times> 'd" where
  "fwCfgReadU32BE io base d =
     (let addr = base + FwCfgDataPort;
          (b0, d) = io_load io addr d; (b1, d) = io_load io addr d; (b2, d) = io_load io addr d; (b3, d) = io_load io addr d in
      (be32 b0 b1 b2 b3, d))"

definition fwCfgParseFileDirEntry :: "bytes \<Rightarrow> u32 \<times> u16 \<times> string" where
  "fwCfgParseFileDirEntry raw =
     (if length raw < FwCfgFileEntrySize then (0, 0, [])
      else (u32_at raw 0, u16_at raw 4,
            chars (takeWhile (\<lambda>b. b \<noteq> 0) (slice raw 8 (8 + FwCfgFileNameSize)))))"

text \<open>The walk over the directory, with the entries left.\<close>

primrec fileDirLoop :: "'d mmio \<Rightarrow> u64 \<Rightarrow> nat \<Rightarrow> 'd \<Rightarrow> (u32 \<times> u16) option \<times> 'd" where
  "fileDirLoop io base 0 d = (None, d)"
| "fileDirLoop io base (Suc n) d =
     (case fwCfgReadBytes io base 64 d of
        (entry, d1) \<Rightarrow>
          (case fwCfgParseFileDirEntry entry of
             (sz, sel, name) \<Rightarrow> if name = FwCfgFDTName then (Some (sz, sel), d1) else fileDirLoop io base n d1))"

definition FetchQemuDTB :: "'d mmio \<Rightarrow> u64 option \<Rightarrow> 'd \<Rightarrow> (efi_error + bytes) \<times> 'd" where
  "FetchQemuDTB io mmioBase d =
     (case mmioBase of
        None \<Rightarrow> (Inl ErrFwCfgUnsupportedArch, d)
      | Some base \<Rightarrow>
          (case fwCfgReadU32BE io base (fwCfgSelect io base FwCfgSelectorFileDir d) of
             (count, d1) \<Rightarrow>
               if count = 0 then (Inl ErrFwCfgEmptyFileDir, d1)
               else
                 (case fileDirLoop io base (unat count) d1 of
                    (None, d2) \<Rightarrow> (Inl ErrFwCfgDTBNotFound, d2)
                  | (Some (foundSize, foundSel), d2) \<Rightarrow>
                      if foundSize = 0 then (Inl ErrFwCfgDTBNotFound, d2)
                      else if foundSize > FwCfgMaxFDTSize then (Inl ErrFwCfgDTBTooLarge, d2)
                      else (case fwCfgReadBytes io base (unat foundSize) (fwCfgSelect io base foundSel d2) of
                              (out, d3) \<Rightarrow> (Inr out, d3)))))"

section \<open>The configuration table as firmware sees it\<close>

text \<open>GUID and pointer of each entry.\<close>

definition tableEntry :: "mem \<Rightarrow> u64 \<Rightarrow> nat \<Rightarrow> bytes \<times> u64" where
  "tableEntry m cfgTbl i = (readMem m (cfgTbl + of_nat i * 24) 16, readU64 m (cfgTbl + of_nat i * 24 + 16))"

definition configTable :: "u64 \<Rightarrow> mem \<Rightarrow> (bytes \<times> u64) list" where
  "configTable systemTable m =
     map (tableEntry m (readU64 m (systemTable + 112))) [0..<unat (readU64 m (systemTable + 104))]"

text \<open>What \<^verbatim>\<open>InstallConfigurationTable\<close> promises: the table holds the GUID with this pointer and with no other.\<close>

definition installed :: "u64 \<Rightarrow> bytes \<Rightarrow> u64 \<Rightarrow> mem \<Rightarrow> bool" where
  "installed systemTable guid t m =
     (readU64 m (systemTable + 112) \<noteq> 0 \<and> (guid, t) \<in> set (configTable systemTable m) \<and>
      (\<forall>t'. (guid, t') \<in> set (configTable systemTable m) \<longrightarrow> t' = t))"

lemma putLE32_leU32: "putLE32 (leU32 [a, b, c, d]) = [a, b, c, d]"
  by (auto simp: putLE32_def leU32_def intro!: bit_word_eqI) (auto simp: bit_simps not_less)

lemma putLE16_leU16: "putLE16 (leU16 [a, b]) = [a, b]"
  by (auto simp: putLE16_def leU16_def intro!: bit_word_eqI) (auto simp: bit_simps not_less)

lemma readU32_eq: "readU32 m p = v \<longleftrightarrow> readMem m p 4 = putLE32 v"
proof -
  obtain a b c d where r: "readMem m p 4 = [a, b, c, d]"
    using length_readMem [of m p 4] by (metis length_eq_4)
  then show ?thesis by (metis readU32_def leU_putLE_nil(2) putLE32_leU32)
qed

lemma readU16_eq: "readU16 m p = v \<longleftrightarrow> readMem m p 2 = putLE16 v"
proof -
  have "readMem m p 2 = [m p, m (p + 1)]" by (simp add: readMem_def upt_rec)
  then show ?thesis by (metis readU16_def leU_putLE_nil(1) putLE16_leU16)
qed

lemma readMem_guid: "readMem m p 16 = readMem m p 4 @ readMem m (p + 4) 2 @ readMem m (p + 6) 2 @ readMem m (p + 8) 8"
  using readMem_append [of m p 4 12] readMem_append [of m "p + 4" 2 10] readMem_append [of m "p + 6" 2 8] by (simp add: add.commute [of p])

lemma guidsEqual_DTB: "guidsEqual (readGuid m p) EFIDTBTableGUID \<longleftrightarrow> readMem m p 16 = DTBGUIDBytes"
proof -
  have d: "DTBGUIDBytes = putLE32 0xb1b621d5 @ putLE16 0xf19c @ putLE16 0x41a5 @ [0x83, 0x0b, 0xd9, 0x15, 0x2c, 0x69, 0xaa, 0xe0]"
    by (simp add: DTBGUIDBytes_def putLE32_def putLE16_def)
  have l: "list_all (\<lambda>i. xs ! i = ys ! i) [0..<8] \<longleftrightarrow> xs = ys" if "length xs = 8" "length ys = 8" for xs ys :: bytes
    using that by (auto simp: list_all_iff list_eq_iff_nth_eq)
  show ?thesis
    by (auto simp: guidsEqual_def readGuid_def EFIDTBTableGUID_def l readU32_eq readU16_eq readMem_guid d)
qed

lemma probeLoop_found:
  "dp_DTBFound (probeLoop n (of_nat i) m cfg r) \<longleftrightarrow>
     dp_DTBFound r \<or> DTBGUIDBytes \<in> fst ` set (map (tableEntry m cfg) [i..<i + n])"
proof (induction n arbitrary: i r)
  case (Suc n)
  have "[i..<i + Suc n] = i # [Suc i..<Suc i + n]" by (simp add: upt_conv_Cons)
  then show ?case
    using Suc.IH [of "Suc i"] by (simp add: Let_def guidsEqual_DTB efiConfigurationTableEntrySize_def tableEntry_def add.commute)
qed simp

lemma probeLoop_vendor:
  "\<forall>t'. (DTBGUIDBytes, t') \<in> set (map (tableEntry m cfg) [i..<i + n]) \<longrightarrow> t' = t \<Longrightarrow>
   DTBGUIDBytes \<in> fst ` set (map (tableEntry m cfg) [i..<i + n]) \<or> dp_DTBVendorTable r = t \<Longrightarrow>
   dp_DTBVendorTable (probeLoop n (of_nat i) m cfg r) = t"
proof (induction n arbitrary: i r)
  case (Suc n)
  have u: "[i..<i + Suc n] = i # [Suc i..<Suc i + n]" by (simp add: upt_conv_Cons)
  let ?g = "readGuid m (cfg + of_nat i * 24)"
  let ?r = "r\<lparr>dp_AllGUIDs := dp_AllGUIDs r @ [?g]\<rparr>"
  let ?r' = "if guidsEqual ?g EFIDTBTableGUID then ?r\<lparr>dp_DTBFound := True, dp_DTBVendorTable := readU64 m (cfg + of_nat i * 24 + 16)\<rparr> else ?r"
  have "dp_DTBVendorTable (probeLoop n (of_nat (Suc i)) m cfg ?r') = t"
  proof (rule Suc.IH)
    show "\<forall>t'. (DTBGUIDBytes, t') \<in> set (map (tableEntry m cfg) [Suc i..<Suc i + n]) \<longrightarrow> t' = t"
      using Suc.prems(1) unfolding u by simp
    show "DTBGUIDBytes \<in> fst ` set (map (tableEntry m cfg) [Suc i..<Suc i + n]) \<or> dp_DTBVendorTable ?r' = t"
      using Suc.prems unfolding u by (auto simp: guidsEqual_DTB tableEntry_def)
  qed
  then show ?case
    by (simp add: Let_def efiConfigurationTableEntrySize_def add.commute)
qed simp

lemma probe_installed:
  assumes "installed systemTable DTBGUIDBytes t m" "systemTable \<noteq> 0"
  shows "dp_DTBFound (ProbeDTBConfigurationTable systemTable m) \<and> dp_DTBVendorTable (ProbeDTBConfigurationTable systemTable m) = t"
proof -
  let ?n = "readU64 m (systemTable + 104)" and ?c = "readU64 m (systemTable + 112)"
  have i: "?c \<noteq> 0" "(DTBGUIDBytes, t) \<in> set (map (tableEntry m ?c) [0..<0 + unat ?n])"
      "\<forall>t'. (DTBGUIDBytes, t') \<in> set (map (tableEntry m ?c) [0..<0 + unat ?n]) \<longrightarrow> t' = t"
    using assms(1) by (simp_all add: installed_def configTable_def)
  have f: "DTBGUIDBytes \<in> fst ` set (map (tableEntry m ?c) [0..<0 + unat ?n])" using imageI [OF i(2), of fst] by (simp only: fst_conv)
  then have "?n \<noteq> 0" by auto
  then show ?thesis
    using assms(2) i(1) f probeLoop_found [of "unat ?n" 0 m ?c] probeLoop_vendor [OF i(3)]
    by (simp add: ProbeDTBConfigurationTable_def Let_def efiSTNumberOfTableEntries_def efiSTConfigurationTable_def)
qed

section \<open>Properties\<close>

text \<open>
  C37. The kernel finds the tree: when publishing succeeds, and firmware registers a table and leaves the block it points to alone,
  the walk over the system table finds the device tree, at an address where its bytes stand.
\<close>

theorem dtb_published:
  assumes "PublishDTB fw inst dtb m = (None, m')" "systemTable \<noteq> 0" "length dtb < 2 ^ 64"
    and "fw_AllocatePool fw EfiBootServicesData (length dtb) = Inr t"
    and "\<And>m0 m1. inst DTBGUIDBytes t m0 = (0, m1) \<Longrightarrow>
      installed systemTable DTBGUIDBytes t m1 \<and> readMem m1 t (length dtb) = readMem m0 t (length dtb)"
  shows "dp_DTBFound (ProbeDTBConfigurationTable systemTable m') \<and>
    readMem m' (dp_DTBVendorTable (ProbeDTBConfigurationTable systemTable m')) (length dtb) = dtb"
proof -
  have t: "inst DTBGUIDBytes t (writeMem t dtb m) = (0, m')"
    using assms(1,4) by (auto simp: PublishDTB_def AllocatePool_def InstallConfigurationTable_def split: if_splits prod.splits)
  show ?thesis
    using assms(5) [OF t] probe_installed [OF _ assms(2), of t m'] readMem_writeMem_same [OF assms(3), of t m] by simp
qed

text \<open>Firmware with a system table at 4096 and a configuration table of one entry at 8192.\<close>

definition demoInstall :: installTable where
  "demoInstall guid t m = (0, writeU64 4200 1 (writeU64 4208 8192 (writeU64 8208 t (writeMem 8192 guid m))))"

definition demoPool :: firmware where
  "demoPool = \<lparr>fw_BootServices = 8, fw_ImageHandle = 16, fw_HandleProtocol = (\<lambda>_ _. Inl 14),
     fw_LocateHandleBuffer = (\<lambda>_. Inl 14), fw_AllocatePool = (\<lambda>_ _. Inr 65536), fw_LoadImage = (\<lambda>_. Inl 14),
     fw_StartImage = (\<lambda>_. 0), fw_UnloadImage = (\<lambda>_. 0)\<rparr>"

definition demoTree :: bytes where "demoTree = [0xd0, 0x0d, 0xfe, 0xed]"

lemma demo_installed:
  assumes "demoInstall DTBGUIDBytes 65536 m0 = (0, m1)"
  shows "installed 4096 DTBGUIDBytes 65536 m1 \<and> readMem m1 65536 (length demoTree) = readMem m0 65536 (length demoTree)"
proof -
  have l: "length DTBGUIDBytes = 16" by (simp add: DTBGUIDBytes_def)
  have m: "m1 = writeU64 4200 1 (writeU64 4208 8192 (writeU64 8208 65536 (writeMem 8192 DTBGUIDBytes m0)))"
    using assms by (simp add: demoInstall_def)
  have "readMem m1 8192 16 = DTBGUIDBytes"
    using readMem_writeMem_same [of DTBGUIDBytes 8192 m0] l by (simp add: m apart_def)
  moreover have "readU64 m1 4200 = 1" "readU64 m1 4208 = 8192" "readU64 m1 8208 = 65536"
    by (simp_all add: m apart_def)
  moreover have "readMem m1 65536 (length demoTree) = readMem m0 65536 (length demoTree)"
    using l by (simp add: m apart_def readMem_writeMem_apart demoTree_def)
  ultimately show ?thesis
    by (simp add: installed_def configTable_def tableEntry_def)
qed

theorem dtb_published_witness:
  "\<exists>m'. PublishDTB demoPool demoInstall demoTree (\<lambda>_. 0) = (None, m') \<and>
     readMem m' (dp_DTBVendorTable (ProbeDTBConfigurationTable 4096 m')) (length demoTree) = demoTree"
proof -
  obtain m' where m: "PublishDTB demoPool demoInstall demoTree (\<lambda>_. 0) = (None, m')"
    by (simp add: PublishDTB_def AllocatePool_def InstallConfigurationTable_def demoPool_def demoInstall_def demoTree_def)
  have "length demoTree < 2 ^ 64" by (simp add: demoTree_def)
  moreover have "fw_AllocatePool demoPool EfiBootServicesData (length demoTree) = Inr 65536" by (simp add: demoPool_def)
  ultimately show ?thesis
    using dtb_published [OF m, of 4096 65536] demo_installed m by simp
qed

end
