(* ===== verification/Boot_Menu.thy ===== *)
theory Boot_Menu
  imports Efi_Firmware Go_Strings "HOL-Library.Signed_Division"
begin

text \<open>
  The boot menu: its configuration (\<^verbatim>\<open>uefiboard/bootmenu/bootmenu.go\<close>), its drawing (\<^verbatim>\<open>render.go\<close>), the keyboard
  (\<^verbatim>\<open>uefiboard/text_input*.go\<close>) and the loop of \<^verbatim>\<open>phase2_dhcp_oci_menu.go\<close>. The HCL library is a parameter.
\<close>

section \<open>The configuration\<close>

record Entry =
  en_Label :: string
  en_KernelRef :: string
  en_InitrdRef :: string
  en_Cmdline :: string

record BootConfig =
  bc_Title :: string
  bc_Timeout :: int
  bc_Default :: string
  bc_Entries :: "Entry list"

datatype menu_error = ErrNoEntries | ErrEmptyInput | ErrDuplicateLabel string | ErrDefaultNotFound string
  | ErrHclSyntax | ErrHclDecode | ErrNoSink | ErrSink

text \<open>The labels seen so far; the error is the first repeated label.\<close>

primrec labelLoop :: "Entry list \<Rightarrow> string set \<Rightarrow> menu_error + string set" where
  "labelLoop [] seen = Inr seen"
| "labelLoop (e # es) seen =
     (if en_Label e \<in> seen then Inl (ErrDuplicateLabel (en_Label e)) else labelLoop es (insert (en_Label e) seen))"

definition Parse :: "(bytes \<Rightarrow> 'f option) \<Rightarrow> ('f \<Rightarrow> BootConfig option) \<Rightarrow> bytes \<Rightarrow> menu_error + BootConfig" where
  "Parse parseHCL decodeBody hclBytes =
     (if length hclBytes = 0 then Inl ErrEmptyInput
      else case parseHCL hclBytes of
        None \<Rightarrow> Inl ErrHclSyntax
      | Some file \<Rightarrow>
          (case decodeBody file of
             None \<Rightarrow> Inl ErrHclDecode
           | Some cfg \<Rightarrow>
               if length (bc_Entries cfg) = 0 then Inl ErrNoEntries
               else case labelLoop (bc_Entries cfg) {} of
                 Inl e \<Rightarrow> Inl e
               | Inr seen \<Rightarrow>
                   if bc_Default cfg \<noteq> [] \<and> bc_Default cfg \<notin> seen then Inl (ErrDefaultNotFound (bc_Default cfg))
                   else Inr cfg))"

definition FindEntry :: "BootConfig \<Rightarrow> string \<Rightarrow> Entry option" where
  "FindEntry c label = find (\<lambda>e. en_Label e = label) (bc_Entries c)"

section \<open>Drawing\<close>

definition defaultWidth :: int where "defaultWidth = 80"
definition minWidth :: int where "minWidth = 20"

text \<open>\<open>rd_Out\<close> tells whether a sink is set and, for each write, whether it fails.\<close>

record Renderer =
  rd_Out :: "(bytes \<Rightarrow> menu_error option) option"
  rd_Width :: int
  rd_painted :: bool

definition appendBorder :: "bytes \<Rightarrow> int \<Rightarrow> bytes" where
  "appendBorder dst width = dst @ unchars ''+'' @ unchars (replicate (nat (width - 2)) (CHR ''-'')) @ unchars ''+'' @ unchars [LF]"

definition appendTextLine :: "bytes \<Rightarrow> int \<Rightarrow> string \<Rightarrow> bytes" where
  "appendTextLine dst width text0 =
     (let inner0 = width - 4;
          inner = nat (if inner0 < 4 then 4 else inner0);
          text = (if length text0 > inner then take (inner - 3) text0 @ ''...'' else text0) in
      dst @ unchars ''| '' @ unchars text @ unchars (replicate (inner - length text) (CHR '' '')) @ unchars '' |'' @ unchars [LF])"

text \<open>\<^verbatim>\<open>strconv.Itoa\<close>.\<close>

definition Itoa :: "int \<Rightarrow> string" where
  "Itoa n = (if n < 0 then CHR ''-'' # nat_to_string (nat (- n)) else nat_to_string (nat n))"

definition prologue :: "bool \<Rightarrow> bytes" where
  "prologue painted = [0x1b] @ unchars ''[H'' @ [0x1b] @ unchars ''[2J'' @ (if painted then [] else [0x1b] @ unchars ''[?25l'')"

text \<open>The buffer that \<^verbatim>\<open>Render\<close> composes for a frame of \<open>w\<close> columns.\<close>

definition frame :: "bool \<Rightarrow> int \<Rightarrow> BootConfig \<Rightarrow> int \<Rightarrow> int \<Rightarrow> bytes" where
  "frame painted w cfg selected countdown =
     (let title = (if bc_Title cfg = [] then ''cloud-boot'' else bc_Title cfg);
          buf = appendBorder (appendTextLine (appendBorder (prologue painted) w) w title) w;
          sel0 = (if selected < 0 then 0 else selected);
          sel = (if sel0 \<ge> int (length (bc_Entries cfg)) then int (length (bc_Entries cfg)) - 1 else sel0);
          buf = fold (\<lambda>(i, e) b. appendTextLine b w ((if int i = sel then ''> '' else ''  '') @ en_Label e))
                  (enumerate 0 (bc_Entries cfg)) buf;
          buf = appendBorder buf w;
          line = (if countdown > 0 then ''Auto-boot in '' @ Itoa countdown @ ''s -- press any key to stay''
                  else ''Use Up/Down to select; Enter to boot; ESC to halt'') in
      appendBorder (appendTextLine buf w line) w)"

definition Render :: "Renderer \<Rightarrow> BootConfig \<Rightarrow> int \<Rightarrow> int \<Rightarrow> (menu_error + bytes) \<times> Renderer" where
  "Render r cfg selected countdown =
     (let w = (if rd_Width r < minWidth then defaultWidth else rd_Width r) in
      case rd_Out r of
        None \<Rightarrow> (Inl ErrNoSink, r)
      | Some out \<Rightarrow>
          let buf = frame (rd_painted r) w cfg selected countdown;
              r' = r\<lparr>rd_painted := True\<rparr> in
          (case out buf of None \<Rightarrow> (Inr buf, r') | Some e \<Rightarrow> (Inl e, r')))"

section \<open>The keyboard\<close>

record Keystroke =
  ks_ScanCode :: u16
  ks_UnicodeChar :: u16

definition ScanCodeUp :: u16 where "ScanCodeUp = 0x01"
definition ScanCodeDown :: u16 where "ScanCodeDown = 0x02"
definition ScanCodeHome :: u16 where "ScanCodeHome = 0x05"
definition ScanCodeEnd :: u16 where "ScanCodeEnd = 0x06"
definition ScanCodeESC :: u16 where "ScanCodeESC = 0x17"
definition UnicodeCharEnter :: u16 where "UnicodeCharEnter = 0x000D"
definition efiSTConIn :: u64 where "efiSTConIn = 48"
definition efiNotReady :: u64 where "efiNotReady = 0x8000000000000006"

datatype key_error = ErrNoKey | ErrNoConIn | ErrKeyOther efi_error

text \<open>\<open>readKeyStroke\<close> is what the firmware call returns: a status, and the key it wrote.\<close>

definition ReadKeyNonblocking :: "u64 \<Rightarrow> mem \<Rightarrow> u64 \<times> Keystroke \<Rightarrow> key_error + Keystroke" where
  "ReadKeyNonblocking systemTable m readKeyStroke =
     (if systemTable = 0 then Inl (ErrKeyOther ErrNoBootServices)
      else if readU64 m (systemTable + efiSTConIn) = 0 then Inl ErrNoConIn
      else case readKeyStroke of
        (status, key) \<Rightarrow>
          if status = efiNotReady then Inl ErrNoKey
          else if status \<noteq> 0 then Inl (ErrKeyOther (EFIError status ''ReadKeyStroke''))
          else Inr key)"

definition ResetConIn :: "u64 \<Rightarrow> mem \<Rightarrow> (u64 \<Rightarrow> u64) \<Rightarrow> bool \<Rightarrow> key_error option" where
  "ResetConIn systemTable m reset extendedVerification =
     (if systemTable = 0 then Some (ErrKeyOther ErrNoBootServices)
      else if readU64 m (systemTable + efiSTConIn) = 0 then Some ErrNoConIn
      else let status = reset (if extendedVerification then 1 else 0) in
        if status \<noteq> 0 then Some (ErrKeyOther (EFIError status ''ConIn.Reset'')) else None)"

section \<open>The loop\<close>

definition indexOfDefault :: "BootConfig \<Rightarrow> nat" where
  "indexOfDefault cfg =
     (if bc_Default cfg = [] then 0
      else case find (\<lambda>i. en_Label (bc_Entries cfg ! i) = bc_Default cfg) [0..<length (bc_Entries cfg)] of
        Some i \<Rightarrow> i
      | None \<Rightarrow> 0)"

text \<open>
  One turn of the loop sees the clock when it draws, the result of reading the keyboard, and the clock when it
  compares with the deadline; all times are in nanoseconds.
\<close>

record turn =
  tn_drawTime :: int
  tn_key :: "key_error + Keystroke"
  tn_checkTime :: int

text \<open>What the loop has done by the end of the turns: dispatched an entry, halted, panicked, or not yet returned.\<close>

datatype menu_outcome = Dispatch Entry | Halt | MenuPanic | Waiting

text \<open>\<^verbatim>\<open>cfg.Entries[selected]\<close>, which panics outside the slice.\<close>

definition dispatchAt :: "BootConfig \<Rightarrow> int \<Rightarrow> menu_outcome" where
  "dispatchAt cfg selected =
     (if 0 \<le> selected \<and> selected < int (length (bc_Entries cfg)) then Dispatch (bc_Entries cfg ! nat selected) else MenuPanic)"

text \<open>What a turn leads to, after drawing: another turn with this selection and countdown state, or the end of the loop.\<close>

datatype turn_result = Stay int bool | Leave menu_outcome

definition menuTurn :: "BootConfig \<Rightarrow> int \<Rightarrow> bool \<Rightarrow> int \<Rightarrow> turn \<Rightarrow> turn_result" where
  "menuTurn cfg selected autoBootArmed deadline t =
     (case tn_key t of
        Inl kerr \<Rightarrow>
          if kerr = ErrNoKey \<or> kerr = ErrNoConIn then
            (if autoBootArmed \<and> tn_checkTime t > deadline then Leave (dispatchAt cfg selected)
             else Stay selected autoBootArmed)
          else Stay selected autoBootArmed
      | Inr k \<Rightarrow>
          if ks_ScanCode k = ScanCodeUp then Stay (if selected > 0 then selected - 1 else selected) False
          else if ks_ScanCode k = ScanCodeDown then
            Stay (if selected < int (length (bc_Entries cfg)) - 1 then selected + 1 else selected) False
          else if ks_ScanCode k = ScanCodeHome then Stay 0 False
          else if ks_ScanCode k = ScanCodeEnd then Stay (int (length (bc_Entries cfg)) - 1) False
          else if ks_UnicodeChar k = UnicodeCharEnter then Leave (dispatchAt cfg selected)
          else if ks_ScanCode k = ScanCodeESC then Leave Halt
          else Stay selected False)"

primrec menuTurns :: "turn list \<Rightarrow> Renderer \<Rightarrow> BootConfig \<Rightarrow> int \<Rightarrow> bool \<Rightarrow> int \<Rightarrow> bytes list \<Rightarrow> menu_outcome \<times> bytes list" where
  "menuTurns [] renderer cfg selected autoBootArmed deadline drawn = (Waiting, drawn)"
| "menuTurns (t # ts) renderer cfg selected autoBootArmed deadline drawn =
     (let remaining = (deadline - tn_drawTime t) sdiv 1000000000;
          countdown = (if autoBootArmed then (if remaining < 0 then 0 else remaining) else 0);
          (painted, renderer) = Render renderer cfg selected countdown;
          drawn = (case painted of Inl _ \<Rightarrow> drawn | Inr buf \<Rightarrow> drawn @ [buf]) in
      case menuTurn cfg selected autoBootArmed deadline t of
        Leave out \<Rightarrow> (out, drawn)
      | Stay selected armed \<Rightarrow> menuTurns ts renderer cfg selected armed deadline drawn)"

text \<open>\<open>time.Duration(cfg.Timeout) * time.Second\<close> is a product of 64-bit integers.\<close>

definition timeoutDuration :: "int \<Rightarrow> int" where
  "timeoutDuration timeout = sint (of_int (timeout * 1000000000) :: u64)"

definition menuLoop :: "Renderer \<Rightarrow> BootConfig \<Rightarrow> int \<Rightarrow> int \<Rightarrow> turn list \<Rightarrow> menu_outcome \<times> bytes list" where
  "menuLoop renderer cfg startSelected now ts =
     (if length (bc_Entries cfg) = 0 then (Halt, [])
      else
        let selected = (if startSelected < 0 \<or> startSelected \<ge> int (length (bc_Entries cfg)) then 0 else startSelected);
            autoBootArmed = (bc_Timeout cfg > 0 \<and> bc_Default cfg \<noteq> []);
            deadline = (if autoBootArmed then now + timeoutDuration (bc_Timeout cfg) else now) in
        menuTurns ts renderer cfg selected autoBootArmed deadline [])"

section \<open>The loop keeps the selection in range\<close>

definition in_range :: "BootConfig \<Rightarrow> int \<Rightarrow> bool" where
  "in_range cfg selected = (0 \<le> selected \<and> selected < int (length (bc_Entries cfg)))"

lemma dispatchAt_in_range: "in_range cfg selected \<Longrightarrow> \<exists>e \<in> set (bc_Entries cfg). dispatchAt cfg selected = Dispatch e"
  by (auto simp: in_range_def dispatchAt_def)

lemma menuTurns_step:
  "\<exists>renderer' drawn'. \<forall>ts. menuTurns (t # ts) renderer cfg selected armed deadline drawn =
     (case menuTurn cfg selected armed deadline t of
        Leave out \<Rightarrow> (out, drawn')
      | Stay s a \<Rightarrow> menuTurns ts renderer' cfg s a deadline drawn')"
proof -
  define c where "c = (if armed then (if (deadline - tn_drawTime t) sdiv 1000000000 < 0 then 0
    else (deadline - tn_drawTime t) sdiv 1000000000) else 0)"
  obtain painted r where p: "Render renderer cfg selected c = (painted, r)" by fastforce
  show ?thesis
    by (rule exI [of _ r], rule exI [of _ "case painted of Inl _ \<Rightarrow> drawn | Inr buf \<Rightarrow> drawn @ [buf]"])
       (simp only: menuTurns.simps Let_def c_def [symmetric] p prod.case, simp split: turn_result.split)
qed

lemma menuTurn_safe:
  assumes "in_range cfg selected"
  shows "case menuTurn cfg selected armed deadline t of
      Stay s a \<Rightarrow> in_range cfg s
    | Leave out \<Rightarrow> out = Halt \<or> (\<exists>e \<in> set (bc_Entries cfg). out = Dispatch e)"
  using assms dispatchAt_in_range [OF assms]
  by (auto simp: menuTurn_def in_range_def split: sum.split)

lemma menuTurns_safe:
  "in_range cfg selected \<Longrightarrow>
   fst (menuTurns ts renderer cfg selected armed deadline drawn) \<in> {Waiting, Halt} \<union> Dispatch ` set (bc_Entries cfg)"
proof (induction ts arbitrary: renderer selected armed drawn)
  case (Cons t ts)
  obtain renderer' drawn' where s: "\<forall>ts. menuTurns (t # ts) renderer cfg selected armed deadline drawn =
     (case menuTurn cfg selected armed deadline t of
        Leave out \<Rightarrow> (out, drawn') | Stay s a \<Rightarrow> menuTurns ts renderer' cfg s a deadline drawn')"
    using menuTurns_step by blast
  then show ?case
    using menuTurn_safe [OF Cons.prems, of armed deadline t] Cons.IH
    by (cases "menuTurn cfg selected armed deadline t") (auto simp del: menuTurns.simps)
qed simp

lemma menuLoop_safe:
  "fst (menuLoop renderer cfg startSelected now ts) \<in> {Waiting, Halt} \<union> Dispatch ` set (bc_Entries cfg)"
proof (cases "bc_Entries cfg = []")
  case False
  then have "in_range cfg (if startSelected < 0 \<or> startSelected \<ge> int (length (bc_Entries cfg)) then 0 else startSelected)"
    by (auto simp: in_range_def)
  from menuTurns_safe [OF this] False show ?thesis by (simp add: menuLoop_def Let_def)
qed (simp add: menuLoop_def)

section \<open>Auto-boot\<close>

definition quiet :: "turn \<Rightarrow> bool" where
  "quiet t = (tn_key t = Inl ErrNoKey \<or> tn_key t = Inl ErrNoConIn)"

lemma menuTurns_idle:
  assumes "\<forall>t \<in> set qs. menuTurn cfg selected armed deadline t = Stay selected armed"
  shows "\<exists>renderer' drawn'. menuTurns (qs @ ts) renderer cfg selected armed deadline drawn =
    menuTurns ts renderer' cfg selected armed deadline drawn'"
  using assms
proof (induction qs arbitrary: renderer drawn)
  case (Cons q qs)
  obtain renderer' drawn' where "menuTurns ((q # qs) @ ts) renderer cfg selected armed deadline drawn =
      menuTurns (qs @ ts) renderer' cfg selected armed deadline drawn'"
    using menuTurns_step [of q renderer cfg selected armed deadline drawn] Cons.prems by auto
  then show ?case using Cons.IH Cons.prems by (metis list.set_intros(2))
qed auto

lemma labelLoop_ok:
  "labelLoop es seen = Inr seen' \<Longrightarrow>
   seen' = seen \<union> en_Label ` set es \<and> distinct (map en_Label es) \<and> seen \<inter> en_Label ` set es = {}"
  by (induction es arbitrary: seen) (auto split: if_splits)

lemma Parse_ok:
  assumes "Parse parseHCL decodeBody hcl = Inr cfg"
  shows "bc_Entries cfg \<noteq> [] \<and> distinct (map en_Label (bc_Entries cfg)) \<and>
    (bc_Default cfg \<noteq> [] \<longrightarrow> bc_Default cfg \<in> en_Label ` set (bc_Entries cfg))"
  using assms labelLoop_ok [of "bc_Entries cfg" "{}"]
  by (auto simp: Parse_def split: if_splits option.splits sum.splits)

lemma indexOfDefault_ok:
  assumes "bc_Default cfg \<in> en_Label ` set (bc_Entries cfg)" "bc_Default cfg \<noteq> []"
  shows "indexOfDefault cfg < length (bc_Entries cfg) \<and> en_Label (bc_Entries cfg ! indexOfDefault cfg) = bc_Default cfg"
proof -
  obtain j where "j < length (bc_Entries cfg)" "en_Label (bc_Entries cfg ! j) = bc_Default cfg"
    using assms(1) by (auto simp: in_set_conv_nth)
  then have "find (\<lambda>i. en_Label (bc_Entries cfg ! i) = bc_Default cfg) [0..<length (bc_Entries cfg)] \<noteq> None"
    by (auto simp: find_None_iff)
  then obtain i where i: "find (\<lambda>i. en_Label (bc_Entries cfg ! i) = bc_Default cfg) [0..<length (bc_Entries cfg)] = Some i" by auto
  then have "indexOfDefault cfg = i" using assms(2) by (simp add: indexOfDefault_def)
  then show ?thesis using i by (auto simp: find_Some_iff)
qed

lemma timeoutDuration_small: "0 \<le> n \<Longrightarrow> n \<le> 9223372036 \<Longrightarrow> timeoutDuration n = n * 1000000000"
  unfolding timeoutDuration_def by (simp add: signed_of_int signed_take_bit_int_eq_self del: of_int_mult)

section \<open>Once a key was pressed\<close>

lemma menuTurn_keyed:
  assumes "\<forall>k. tn_key t = Inr k \<longrightarrow> ks_UnicodeChar k \<noteq> UnicodeCharEnter" "armed \<longrightarrow> (\<exists>k. tn_key t = Inr k)"
  shows "(\<exists>s. menuTurn cfg selected armed deadline t = Stay s False) \<or> menuTurn cfg selected armed deadline t = Leave Halt"
  using assms by (auto simp: menuTurn_def split: sum.split)

lemma menuTurns_keyed:
  assumes "\<forall>t \<in> set ts. \<forall>k. tn_key t = Inr k \<longrightarrow> ks_UnicodeChar k \<noteq> UnicodeCharEnter"
    and "armed \<longrightarrow> ts \<noteq> [] \<and> (\<exists>k. tn_key (hd ts) = Inr k)"
  shows "fst (menuTurns ts renderer cfg selected armed deadline drawn) \<in> {Waiting, Halt}"
  using assms
proof (induction ts arbitrary: renderer selected armed drawn)
  case (Cons t ts)
  have k: "(\<exists>s. menuTurn cfg selected armed deadline t = Stay s False) \<or> menuTurn cfg selected armed deadline t = Leave Halt"
    using Cons.prems by (intro menuTurn_keyed) auto
  have "fst (menuTurns ts r cfg s False deadline d) \<in> {Waiting, Halt}" for r s d
    by (rule Cons.IH) (use Cons.prems(1) in auto)
  note ih = this
  obtain renderer' drawn' where s: "\<forall>ts. menuTurns (t # ts) renderer cfg selected armed deadline drawn =
     (case menuTurn cfg selected armed deadline t of
        Leave out \<Rightarrow> (out, drawn') | Stay s a \<Rightarrow> menuTurns ts renderer' cfg s a deadline drawn')"
    using menuTurns_step by blast
  from k show ?case
  proof
    assume "\<exists>s. menuTurn cfg selected armed deadline t = Stay s False"
    then obtain sel where "menuTurn cfg selected armed deadline t = Stay sel False" by blast
    then show ?thesis using ih s by (simp del: menuTurns.simps)
  qed (use s in \<open>simp del: menuTurns.simps\<close>)
qed simp

lemma menuTurns_append:
  "fst (menuTurns qs renderer cfg selected armed deadline drawn) = Waiting \<Longrightarrow>
   \<exists>renderer' selected' armed' drawn'.
     menuTurns (qs @ ts) renderer cfg selected armed deadline drawn = menuTurns ts renderer' cfg selected' armed' deadline drawn'"
proof (induction qs arbitrary: renderer selected armed drawn)
  case (Cons q qs)
  obtain renderer' drawn' where s: "\<forall>ts. menuTurns (q # ts) renderer cfg selected armed deadline drawn =
     (case menuTurn cfg selected armed deadline q of
        Leave out \<Rightarrow> (out, drawn') | Stay s a \<Rightarrow> menuTurns ts renderer' cfg s a deadline drawn')"
    using menuTurns_step by blast
  show ?case
  proof (cases "menuTurn cfg selected armed deadline q")
    case (Stay sel a)
    then show ?thesis
      using s Cons.IH [of renderer' sel a drawn'] Cons.prems by (simp del: menuTurns.simps)
  next
    case (Leave out)
    then have "out \<noteq> Waiting" by (auto simp: menuTurn_def dispatchAt_def split: sum.splits if_splits)
    then show ?thesis using s Cons.prems Leave by (simp del: menuTurns.simps)
  qed
qed auto

section \<open>Frames\<close>

text \<open>A line of the frame: \<open>w\<close> bytes and a line feed.\<close>

definition boxLine :: "int \<Rightarrow> bytes \<Rightarrow> bool" where
  "boxLine w l = (\<exists>body. l = body @ unchars [LF] \<and> int (length body) = w)"

lemma appendBorder_line:
  assumes "20 \<le> w"
  shows "\<exists>l. boxLine w l \<and> appendBorder dst w = dst @ l"
proof -
  define body where "body = unchars ''+'' @ unchars (replicate (nat (w - 2)) (CHR ''-'')) @ unchars ''+''"
  have "int (length body) = w" using assms by (simp add: body_def)
  moreover have "appendBorder dst w = dst @ body @ unchars [LF]" by (simp add: appendBorder_def body_def)
  ultimately show ?thesis unfolding boxLine_def by blast
qed

lemma appendTextLine_line:
  assumes w: "20 \<le> w"
  shows "\<exists>l. boxLine w l \<and> appendTextLine dst w text = dst @ l \<and>
    (2 \<le> length text \<longrightarrow> take 4 l = unchars (''| '' @ take 2 text))"
proof -
  define inner where "inner = nat (w - 4)"
  define t where "t = (if length text > inner then take (inner - 3) text @ ''...'' else text)"
  define body where "body = unchars ''| '' @ unchars t @ unchars (replicate (inner - length t) (CHR '' '')) @ unchars '' |''"
  have inner: "16 \<le> inner" using w by (simp add: inner_def)
  then have len: "length t \<le> inner" by (simp add: t_def) linarith
  then have "int (length body) = w" using w by (simp add: body_def inner_def)
  moreover have "appendTextLine dst w text = dst @ body @ unchars [LF]"
    using w by (simp add: appendTextLine_def body_def t_def inner_def Let_def)
  moreover have "take 4 (body @ unchars [LF]) = unchars (''| '' @ take 2 text)" if "2 \<le> length text"
  proof -
    have "take 2 t = take 2 text" "2 \<le> length t" using that inner by (auto simp: t_def)
    then show ?thesis by (simp add: body_def unchars_def take_map)
  qed
  ultimately show ?thesis unfolding boxLine_def by blast
qed

text \<open>The marker in front of the label of entry \<open>i\<close>.\<close>

definition marker :: "int \<Rightarrow> nat \<Rightarrow> string" where
  "marker sel i = (if int i = sel then ''> '' else ''  '')"

lemma entries_lines:
  assumes "20 \<le> w"
  shows "\<exists>ls. list_all (boxLine w) ls \<and> length ls = length es \<and>
    (\<forall>i < length es. take 4 (ls ! i) = unchars (''| '' @ marker sel (k + i))) \<and>
    fold (\<lambda>(i, e) b. appendTextLine b w ((if int i = sel then ''> '' else ''  '') @ en_Label e)) (enumerate k es) buf = buf @ concat ls"
proof (induction es arbitrary: k buf)
  case (Cons e es)
  obtain l where l: "boxLine w l" "appendTextLine buf w ((if int k = sel then ''> '' else ''  '') @ en_Label e) = buf @ l"
      "take 4 l = unchars (''| '' @ marker sel k)"
    using appendTextLine_line [OF assms, of buf "marker sel k @ en_Label e"]
    by (cases "int k = sel") (auto simp: marker_def)
  obtain ls where ls: "list_all (boxLine w) ls" "length ls = length es"
    "\<forall>i < length es. take 4 (ls ! i) = unchars (''| '' @ marker sel (Suc k + i))"
    "fold (\<lambda>(i, e) b. appendTextLine b w ((if int i = sel then ''> '' else ''  '') @ en_Label e)) (enumerate (Suc k) es) (buf @ l) =
      (buf @ l) @ concat ls"
    using Cons.IH by blast
  have "take 4 ((l # ls) ! i) = unchars (''| '' @ marker sel (k + i))" if "i < length (e # es)" for i
    using that l(3) ls(3) by (cases i) simp_all
  then show ?case using l ls by (intro exI [of _ "l # ls"]) simp
qed simp

text \<open>The entry the frame marks: the selection, brought into range.\<close>

definition shownSelection :: "BootConfig \<Rightarrow> int \<Rightarrow> int" where
  "shownSelection cfg selected =
     (let sel0 = (if selected < 0 then 0 else selected) in
      if sel0 \<ge> int (length (bc_Entries cfg)) then int (length (bc_Entries cfg)) - 1 else sel0)"

lemma frame_lines:
  assumes "20 \<le> w"
  shows "\<exists>ls. frame painted w cfg selected countdown = prologue painted @ concat ls \<and> list_all (boxLine w) ls \<and>
    length ls = length (bc_Entries cfg) + 6 \<and>
    (\<forall>i < length (bc_Entries cfg). take 4 (ls ! (3 + i)) = unchars (''| '' @ marker (shownSelection cfg selected) i))"
proof -
  let ?title = "if bc_Title cfg = [] then ''cloud-boot'' else bc_Title cfg"
  let ?sel = "shownSelection cfg selected"
  let ?line = "if countdown > 0 then ''Auto-boot in '' @ Itoa countdown @ ''s -- press any key to stay''
    else ''Use Up/Down to select; Enter to boot; ESC to halt''"
  note b = appendBorder_line [OF assms] and t = appendTextLine_line [OF assms]
  obtain l1 where 1: "boxLine w l1" "appendBorder (prologue painted) w = prologue painted @ l1" using b by blast
  obtain l2 where 2: "boxLine w l2" "appendTextLine (prologue painted @ l1) w ?title = (prologue painted @ l1) @ l2" using t by blast
  obtain l3 where 3: "boxLine w l3" "appendBorder ((prologue painted @ l1) @ l2) w = ((prologue painted @ l1) @ l2) @ l3" using b by blast
  obtain ls where ls: "list_all (boxLine w) ls" "length ls = length (bc_Entries cfg)"
      "\<forall>i < length (bc_Entries cfg). take 4 (ls ! i) = unchars (''| '' @ marker ?sel (0 + i))"
      "fold (\<lambda>(i, e) b. appendTextLine b w ((if int i = ?sel then ''> '' else ''  '') @ en_Label e)) (enumerate 0 (bc_Entries cfg))
        (((prologue painted @ l1) @ l2) @ l3) = (((prologue painted @ l1) @ l2) @ l3) @ concat ls"
    using entries_lines [OF assms] by blast
  let ?b4 = "(((prologue painted @ l1) @ l2) @ l3) @ concat ls"
  obtain l4 where 4: "boxLine w l4" "appendBorder ?b4 w = ?b4 @ l4" using b by blast
  obtain l5 where 5: "boxLine w l5" "appendTextLine (?b4 @ l4) w ?line = (?b4 @ l4) @ l5" using t by blast
  obtain l6 where 6: "boxLine w l6" "appendBorder ((?b4 @ l4) @ l5) w = ((?b4 @ l4) @ l5) @ l6" using b by blast
  have "frame painted w cfg selected countdown = prologue painted @ concat ([l1, l2, l3] @ ls @ [l4, l5, l6])"
    unfolding frame_def Let_def shownSelection_def [unfolded Let_def, symmetric] 1(2) 2(2) 3(2) ls(4) 4(2) 5(2) 6(2) by simp
  moreover have "list_all (boxLine w) ([l1, l2, l3] @ ls @ [l4, l5, l6])"
    using 1(1) 2(1) 3(1) ls(1) 4(1) 5(1) 6(1) by simp
  moreover have "take 4 (([l1, l2, l3] @ ls @ [l4, l5, l6]) ! (3 + i)) = unchars (''| '' @ marker ?sel i)"
    if "i < length (bc_Entries cfg)" for i
    using that ls(2,3) by (simp add: nth_append)
  ultimately show ?thesis using ls(2) by (intro exI [of _ "[l1, l2, l3] @ ls @ [l4, l5, l6]"]) simp
qed

section \<open>The properties of the menu\<close>

text \<open>C14. Auto-boot: the configuration parsed, it names a default and a timeout, and no key comes
  while the countdown runs. Then the first look at the clock past the deadline boots the entry the
  configuration calls the default, and no other, whatever the firmware would have said later.\<close>

theorem menu_auto_boot:
  assumes "Parse parseHCL decodeBody hcl = Inr cfg" "bc_Default cfg \<noteq> []"
    and "0 < bc_Timeout cfg" "bc_Timeout cfg \<le> 9223372036"
    and "\<forall>t \<in> set before. (\<exists>kerr. tn_key t = Inl kerr) \<and> tn_checkTime t \<le> now + bc_Timeout cfg * 1000000000"
    and "quiet t" "now + bc_Timeout cfg * 1000000000 < tn_checkTime t"
  shows "\<exists>e \<in> set (bc_Entries cfg). en_Label e = bc_Default cfg \<and>
    (\<forall>e' \<in> set (bc_Entries cfg). en_Label e' = bc_Default cfg \<longrightarrow> e' = e) \<and>
    fst (menuLoop renderer cfg (int (indexOfDefault cfg)) now (before @ t # rest)) = Dispatch e"
proof -
  let ?i = "indexOfDefault cfg" and ?d = "now + bc_Timeout cfg * 1000000000"
  have ok: "bc_Entries cfg \<noteq> []" "distinct (map en_Label (bc_Entries cfg))" "bc_Default cfg \<in> en_Label ` set (bc_Entries cfg)"
    using Parse_ok [OF assms(1)] assms(2) by auto
  have i: "?i < length (bc_Entries cfg)" "en_Label (bc_Entries cfg ! ?i) = bc_Default cfg"
    using indexOfDefault_ok [OF ok(3) assms(2)] by auto
  have idle: "\<forall>t \<in> set before. menuTurn cfg (int ?i) True ?d t = Stay (int ?i) True"
    using assms(5) by (auto simp: menuTurn_def)
  obtain r d where step: "menuTurns (before @ t # rest) renderer cfg (int ?i) True ?d [] =
      menuTurns (t # rest) r cfg (int ?i) True ?d d"
    using menuTurns_idle [OF idle] by blast
  have "menuTurn cfg (int ?i) True ?d t = Leave (Dispatch (bc_Entries cfg ! ?i))"
    using assms(6,7) i(1) by (auto simp: menuTurn_def quiet_def dispatchAt_def)
  then have "fst (menuTurns (t # rest) r cfg (int ?i) True ?d d) = Dispatch (bc_Entries cfg ! ?i)"
    using menuTurns_step [of t r cfg "int ?i" True ?d d] by (auto simp del: menuTurns.simps)
  then have "fst (menuLoop renderer cfg (int ?i) now (before @ t # rest)) = Dispatch (bc_Entries cfg ! ?i)"
    using ok(1) i(1) assms(2,3,4) step by (simp add: menuLoop_def Let_def timeoutDuration_small del: menuTurns.simps)
  moreover have "e' = bc_Entries cfg ! ?i" if "e' \<in> set (bc_Entries cfg)" "en_Label e' = bc_Default cfg" for e'
    using that i ok(2) by (metis distinct_map inj_onD nth_mem)
  ultimately show ?thesis using i by (intro bexI [of _ "bc_Entries cfg ! ?i"]) auto
qed

definition demoEntries :: "Entry list" where
  "demoEntries = [\<lparr>en_Label = ''linux'', en_KernelRef = ''oci://h/k:1'', en_InitrdRef = [], en_Cmdline = ''quiet''\<rparr>,
     \<lparr>en_Label = ''rescue'', en_KernelRef = ''oci://h/r:1'', en_InitrdRef = [], en_Cmdline = []\<rparr>]"

definition demoConfig :: BootConfig where
  "demoConfig = \<lparr>bc_Title = ''menu'', bc_Timeout = 5, bc_Default = ''rescue'', bc_Entries = demoEntries\<rparr>"

definition demoRenderer :: Renderer where
  "demoRenderer = \<lparr>rd_Out = Some (\<lambda>_. None), rd_Width = 0, rd_painted = False\<rparr>"

definition demoTurn :: "key_error + Keystroke \<Rightarrow> int \<Rightarrow> turn" where
  "demoTurn k time = \<lparr>tn_drawTime = time, tn_key = k, tn_checkTime = time\<rparr>"

lemmas demo_menu = demoConfig_def demoEntries_def demoTurn_def

theorem menu_auto_boot_witness:
  "fst (menuLoop demoRenderer demoConfig (int (indexOfDefault demoConfig)) 0
     ([demoTurn (Inl ErrNoKey) 0, demoTurn (Inl (ErrKeyOther ErrNoBootServices)) 6000000] @ demoTurn (Inl ErrNoKey) 5000000001 # [])) =
   Dispatch (demoEntries ! 1)"
proof -
  have "Parse (\<lambda>b. Some b) (\<lambda>_. Some demoConfig) [0] = Inr demoConfig" by (simp add: Parse_def demo_menu)
  from menu_auto_boot [OF this, where now = 0 and renderer = demoRenderer and rest = "[]"
      and before = "[demoTurn (Inl ErrNoKey) 0, demoTurn (Inl (ErrKeyOther ErrNoBootServices)) 6000000]"
      and t = "demoTurn (Inl ErrNoKey) 5000000001"]
  show ?thesis by (auto simp: demo_menu quiet_def)
qed

text \<open>C38. A key disarms the countdown for good: from the first key other than Enter on, the loop dispatches
  nothing until Enter is pressed, however much time passes; it waits, or halts on ESC.\<close>

theorem menu_key_disarms:
  assumes "fst (menuLoop renderer cfg startSelected now before) = Waiting"
    and "tn_key t = Inr k" "\<forall>t' \<in> set (t # rest). \<forall>k'. tn_key t' = Inr k' \<longrightarrow> ks_UnicodeChar k' \<noteq> UnicodeCharEnter"
  shows "fst (menuLoop renderer cfg startSelected now (before @ t # rest)) \<in> {Waiting, Halt}"
proof (cases "bc_Entries cfg = []")
  case False
  define sel where "sel = (if startSelected < 0 \<or> startSelected \<ge> int (length (bc_Entries cfg)) then 0 else startSelected)"
  define armed where "armed = (bc_Timeout cfg > 0 \<and> bc_Default cfg \<noteq> [])"
  define deadline where "deadline = (if armed then now + timeoutDuration (bc_Timeout cfg) else now)"
  have loop: "menuLoop renderer cfg startSelected now ts = menuTurns ts renderer cfg sel armed deadline []" for ts
    using False by (simp add: menuLoop_def Let_def sel_def armed_def deadline_def)
  obtain r' s' a' d' where "menuTurns (before @ t # rest) renderer cfg sel armed deadline [] = menuTurns (t # rest) r' cfg s' a' deadline d'"
    using menuTurns_append assms(1) unfolding loop by blast
  then show ?thesis
    unfolding loop using menuTurns_keyed [OF assms(3), of a' r' cfg s' deadline d'] assms(2) by (simp del: menuTurns.simps)
qed (simp add: menuLoop_def)

theorem menu_key_disarms_witness:
  "fst (menuLoop demoRenderer demoConfig 0 0
     ([demoTurn (Inl ErrNoKey) 0] @ demoTurn (Inr \<lparr>ks_ScanCode = ScanCodeDown, ks_UnicodeChar = 0\<rparr>) 1 #
        [demoTurn (Inl ErrNoKey) 86400000000000])) \<in> {Waiting, Halt}"
  by (rule menu_key_disarms)
    (simp_all add: demo_menu menuLoop_def menuTurn_def UnicodeCharEnter_def timeoutDuration_small split: prod.split)



text \<open>C40. A keyboard whose reads keep failing, with an error that is neither "no key" nor "no console", starves the
  countdown: the loop never looks at the deadline, so it waits however late it is.\<close>

theorem menu_read_error_stalls:
  assumes "bc_Entries cfg \<noteq> []" "\<forall>t \<in> set ts. \<exists>e. tn_key t = Inl (ErrKeyOther e)"
  shows "fst (menuLoop renderer cfg startSelected now ts) = Waiting"
proof -
  have "\<forall>t \<in> set ts. menuTurn cfg s a d t = Stay s a" for s a d
    using assms(2) by (auto simp: menuTurn_def)
  then have "\<exists>r' d'. menuTurns (ts @ []) renderer cfg s a d drawn = menuTurns [] r' cfg s a d d'" for s a d drawn
    by (rule menuTurns_idle)
  then have "fst (menuTurns ts renderer cfg s a d drawn) = Waiting" for s a d drawn
    by (metis append_Nil2 fst_conv menuTurns.simps(1))
  then show ?thesis using assms(1) by (simp add: menuLoop_def Let_def)
qed

theorem menu_read_error_stalls_witness:
  "fst (menuLoop demoRenderer demoConfig 1 0 [demoTurn (Inl (ErrKeyOther (EFIError 0x8000000000000007 ''ReadKeyStroke''))) 86400000000000]) = Waiting"
  by (rule menu_read_error_stalls) (simp_all add: demo_menu)

end
