(* ===== verification/Spec2Isabelle.thy ===== *)
theory Spec2Isabelle
  imports Net_Props Dial_Retry Dhcp_Run Dns Http_Client Http_Stream Oci_Fetch Blk_Ring Block_Io Sfs_Props
    Device_Path Load_Options Memory_Map Cosign Gpt_Image Dtb Boot_Menu
begin

text \<open>
  A verification library for \<^verbatim>\<open>tamago-uefi\<close>, a boot loader in Go that runs as a UEFI application, brings
  up its own network stack, acquires an address, fetches boot artifacts and hands over to them.

  \<^bold>\<open>The network stack\<close>, \<^verbatim>\<open>src/uefiboard/ministack\<close>. Every layer is a pair of parser and marshaller over
  byte lists, at the byte offsets of the source, with errors as values of \<open>net_error\<close>.

  \<^item> \<open>Prelude\<close>: machine words, byte order, slices, the error type, and the locales \<open>wire_codec\<close>,
    \<open>layered_codec\<close> and \<open>keep_last_buffer\<close> that the layers interpret.
  \<^item> \<open>Ethernet\<close> (\<^verbatim>\<open>ethernet.go\<close>), \<open>Checksum\<close> and \<open>Ipv4\<close> (\<^verbatim>\<open>ipv4.go\<close>), \<open>Icmp4\<close> (\<^verbatim>\<open>icmp4.go\<close>),
    \<open>Udp4\<close> (\<^verbatim>\<open>udp4.go\<close>), \<open>Tcp4\<close> (\<^verbatim>\<open>tcp4.go\<close>): the codecs, their round trips, the equivalence of the
    checksum loop with the one's-complement sum and what header corruption it detects; the route
    table; the bounded UDP queue as a refinement of "the last sixteen".
  \<^item> \<open>Link\<close> (\<^verbatim>\<open>link.go\<close>, \<^verbatim>\<open>deadline_tamago.go\<close>): the device as data of the model, and the iteration cap.
  \<^item> \<open>Arp\<close> (\<^verbatim>\<open>arp.go\<close>): the cache and the resolving pump, characterised by the first frame that teaches.
  \<^item> \<open>Ip_Output\<close> and \<open>Net_Stack\<close> (\<^verbatim>\<open>stack.go\<close> and the calls of \<^verbatim>\<open>udp4.go\<close> and \<^verbatim>\<open>tcp4.go\<close>): the record
    \<open>Stack\<close>, dispatch of frames, and one definition per method. Endpoints, connections and ping
    waiters live in heaps, lists indexed by address, because the demux tables and the callers share
    them.
  \<^item> \<open>Tcp_Stream\<close>, \<open>Tcp_Reorder\<close>: integrity of the received stream under any arrivals, the state
    diagram, and completeness of reassembly in every order of at most nine segments.
  \<^item> \<open>Net_Invariant\<close>, \<open>Net_Reach\<close>, \<open>Net_Props\<close>: the stack invariant, its preservation by every call,
    the relation of reachable states, and the properties of the whole pipeline.
  \<^item> \<open>Dial_Retry\<close> (\<^verbatim>\<open>dial_retry.go\<close>): the retry loop, over any single attempt.
  \<^item> \<open>Net_Udp\<close>, \<open>Dhcp4\<close>, \<open>Dhcp_Run\<close> (\<^verbatim>\<open>dhcp4.go\<close>): what a read returns for a frame on the link, the option
    and message codecs, the exchange, its completion and the origin of a lease.

  \<^bold>\<open>The clients\<close> of the stack, in the same directory.

  \<^item> \<open>Go_Strings\<close>, \<open>Go_Net\<close>, \<open>Sha256\<close>: what the sources use of Go's packages \<^verbatim>\<open>strings\<close>, \<^verbatim>\<open>bytes\<close>, \<^verbatim>\<open>strconv\<close>,
    \<^verbatim>\<open>net\<close>, \<^verbatim>\<open>encoding/hex\<close> and \<^verbatim>\<open>crypto/sha256\<close>. A Go string is a list of characters, its bytes by \<open>unchars\<close>.
  \<^item> \<open>Dns\<close> (\<^verbatim>\<open>dns.go\<close>): names with compression pointers, queries, the answer walk, and the resolver over a
    UDP endpoint; names and answers round-trip, and a reply on the link is found.
  \<^item> \<open>Http_Text\<close>, \<open>Http_Client\<close>, \<open>Http_Stream\<close> (\<^verbatim>\<open>http.go\<close>): URLs, requests and responses; the buffered client
    over the TCP of \<open>Net_Stack\<close>; the line reader and streamed bodies over a source given as the list
    of its reads, with the results independent of how the bytes are cut into reads.
  \<^item> \<open>Oci_Text\<close>, \<open>Oci_Fetch\<close> (\<^verbatim>\<open>oci/digest.go\<close>, \<^verbatim>\<open>ref.go\<close>, \<^verbatim>\<open>manifest.go\<close>, \<^verbatim>\<open>registry.go\<close>, \<^verbatim>\<open>fetch.go\<close>): digests,
    references, challenges, and the registry client over any transport. A transport is a function on
    a state of its own choice, and the JSON decoders are parameters, since a result is verified
    whatever they return.
  \<^item> \<open>Go_Base64\<close>, \<open>Cosign\<close> (\<^verbatim>\<open>oci/cosign.go\<close>): the signature artifact of a manifest, its three signature formats,
    and the verification over the registry client. The signature check itself is a parameter; the
    theorems say what was signed when verification succeeds, that a valid signature is found, and that the
    signed texts determine what they name.

  \<^bold>\<open>The board package\<close>, \<^verbatim>\<open>src/uefiboard\<close>: what it offers to firmware and to the loaded system.

  \<^item> \<open>Efi_Memory\<close>: little-endian fields, the errors of the package, and the memory that firmware callers
    point into, a function of 64-bit addresses.
  \<^item> \<open>Blk_Ring\<close> (\<^verbatim>\<open>blkprintk.go\<close>, \<^verbatim>\<open>blkprintk_tamago.go\<close>, \<^verbatim>\<open>cmd/blkprintk-recover\<close>): the print ring, its frames on the
    disk, and their recovery by the host.
  \<^item> \<open>Block_Io\<close> (\<^verbatim>\<open>block_io_publish*.go\<close>): the registry of published disk images and the read handler.
  \<^item> \<open>Slot_Registry\<close>: registries of a fixed number of slots, as a locale that the two publishers interpret.
  \<^item> \<open>Go_Runes\<close>, \<open>Sfs\<close>, \<open>Sfs_Path\<close>, \<open>Sfs_Reach\<close>, \<open>Sfs_Props\<close> (\<^verbatim>\<open>sfs_publish*.go\<close>): UTF-8 and UTF-16 names, path
    resolution, the eleven handlers of a published file system over any backing file system, the relation of
    their calls with its invariants, and what a client reads from an opened file or directory.
  \<^item> \<open>Efi_Firmware\<close> (\<^verbatim>\<open>protocols_tamago.go\<close>, \<^verbatim>\<open>loadimage_tamago.go\<close>): firmware as a record of its answers, and the calls.
  \<^item> \<open>Device_Path\<close> (\<^verbatim>\<open>device_path.go\<close>, \<^verbatim>\<open>sfs_filter*.go\<close>): device paths in memory, the prefix test and the search
    for the volume on a disk.
  \<^item> \<open>Load_Options\<close> (\<^verbatim>\<open>load_options*.go\<close>, \<^verbatim>\<open>inherit_device_handle.go\<close>): what a loaded image is given.
  \<^item> \<open>Memory_Map\<close> (\<^verbatim>\<open>memorymap*.go\<close>): the retrying fetch of the memory map and its decoding.
  \<^item> \<open>Dtb\<close> (\<^verbatim>\<open>install_config_table*.go\<close>, \<^verbatim>\<open>dtb_probe*.go\<close>, \<^verbatim>\<open>dtb_fetch*.go\<close>): publishing a device tree, finding it in
    the configuration table, and reading it from the emulator's fw_cfg device.

  \<^bold>\<open>Booting.\<close>

  \<^item> \<open>Go_Slices\<close>, \<open>Gpt\<close>, \<open>Gpt_Image\<close> (\<^verbatim>\<open>internal/livefreebsdboot/buildespimg\<close>, \<^verbatim>\<open>phase3_ufs_partition.go\<close>): the builder of
    disk images and the loader's search for the file system partition in them. Go's \<^verbatim>\<open>int\<close> is a 64-bit word
    on the loader's side, where the image comes from the network; on the builder's side sector numbers are
    natural numbers.
  \<^item> \<open>Boot_Menu\<close> (\<^verbatim>\<open>uefiboard/bootmenu\<close>, \<^verbatim>\<open>text_input*.go\<close>, \<^verbatim>\<open>phase2_dhcp_oci_menu.go\<close>): the configuration, the frame it
    draws, the keyboard, and the loop of the menu as one step per turn over any keys and clock readings.

  Numeric codes of the protocols (options, flags, scan codes) are constants under their source names.

  \<^bold>\<open>Bounds.\<close> A receive pump of the source stops after \<^verbatim>\<open>maxPumpIters\<close> = 1000000 iterations on the tamago
  build; each loop of the model recurses on the iterations left, starting from that number, so the
  model has no bound of its own. The loops of the parsers and of the streaming reader terminate by
  the bytes left. The menu loop has no bound in the source: it is run over a list of turns, and its result
  then says whether it has returned. The host build's wall-clock checker is not modelled.

  \<^bold>\<open>Not modelled.\<close> Locks and the interleaving of goroutines: each method is one step, and the receive
  goroutine is a step between calls. Device drivers, the calling convention of firmware and assembly; the
  Go runtime; TLS, X.509 and ECDSA, whose work is done by Go's cryptography packages; the JSON, HCL and UFS
  libraries, which are parameters; the boot probes, which print and call firmware in sequence, among them
  what the menu does after an entry is picked.
\<close>

end
